(* ===== verification/Prelude.thy ===== *)
theory Prelude
  imports Main "HOL-Library.Word"
begin

text \<open>
  Shared vocabulary of the development: Go's fixed-width signed arithmetic, the functions of
  Go's \<^verbatim>\<open>strings\<close>, \<^verbatim>\<open>strconv\<close> and \<^verbatim>\<open>fmt\<close> packages that the operator uses, and the
  general facts about them that the component theories rely on.  A Go string is a list of
  bytes, which is what the type \<open>string\<close> of HOL is; lengths and indices count bytes.
\<close>

section \<open>Collections of facts\<close>

named_theorems go_simps \<open>equations that compute the models of Go's library functions\<close>
named_theorems wrap_simps \<open>equations that remove wrap-around where a value is in range\<close>

section \<open>Signed machine integers\<close>

text \<open>Go's \<open>int64\<close> (and \<open>int\<close> on the supported platforms) and \<open>int32\<close> wrap around.\<close>

definition wrap64 :: "int \<Rightarrow> int" where
  "wrap64 x = (x + 2 ^ 63) mod 2 ^ 64 - 2 ^ 63"

definition wrap32 :: "int \<Rightarrow> int" where
  "wrap32 x = (x + 2 ^ 31) mod 2 ^ 32 - 2 ^ 31"

definition in64 :: "int \<Rightarrow> bool" where
  "in64 x \<longleftrightarrow> - (2 ^ 63) \<le> x \<and> x < 2 ^ 63"

definition in32 :: "int \<Rightarrow> bool" where
  "in32 x \<longleftrightarrow> - (2 ^ 31) \<le> x \<and> x < 2 ^ 31"

lemma wrap64_id [wrap_simps]: "in64 x \<Longrightarrow> wrap64 x = x"
  by (simp add: wrap64_def in64_def)

lemma wrap32_id [wrap_simps]: "in32 x \<Longrightarrow> wrap32 x = x"
  by (simp add: wrap32_def in32_def)

lemma in64_wrap64 [simp]: "in64 (wrap64 x)"
proof -
  have "0 \<le> (x + 2 ^ 63) mod (2 ^ 64 :: int)" and "(x + 2 ^ 63) mod (2 ^ 64 :: int) < 2 ^ 64"
    by simp_all
  then show ?thesis by (simp add: wrap64_def in64_def)
qed

lemma in32_wrap32 [simp]: "in32 (wrap32 x)"
proof -
  have "0 \<le> (x + 2 ^ 31) mod (2 ^ 32 :: int)" and "(x + 2 ^ 31) mod (2 ^ 32 :: int) < 2 ^ 32"
    by simp_all
  then show ?thesis by (simp add: wrap32_def in32_def)
qed

lemma wrap64_nonneg: "0 \<le> x \<Longrightarrow> x < 2 ^ 63 \<Longrightarrow> wrap64 x = x"
  by (simp add: wrap64_id in64_def)

text \<open>Go's integer division truncates towards zero.\<close>

definition go_div :: "int \<Rightarrow> int \<Rightarrow> int" where
  "go_div a b = sgn a * sgn b * (\<bar>a\<bar> div \<bar>b\<bar>)"

lemma go_div_nonneg: "0 \<le> a \<Longrightarrow> 0 < b \<Longrightarrow> go_div a b = a div b"
  by (cases "a = 0") (simp_all add: go_div_def)

section \<open>Strings\<close>

definition newline :: char where "newline = CHR 0x0A"
definition space :: char where "space = CHR 0x20"

text \<open>\<^verbatim>\<open>strings.HasPrefix\<close>, \<^verbatim>\<open>TrimPrefix\<close>, \<^verbatim>\<open>TrimRight\<close> (with a one-byte cutset).\<close>

fun has_prefix :: "string \<Rightarrow> string \<Rightarrow> bool" where
  "has_prefix s [] = True"
| "has_prefix [] (p # ps) = False"
| "has_prefix (c # s) (p # ps) = (c = p \<and> has_prefix s ps)"

definition trim_prefix :: "string \<Rightarrow> string \<Rightarrow> string" where
  "trim_prefix s p = (if has_prefix s p then drop (length p) s else s)"

definition trim_right :: "string \<Rightarrow> char \<Rightarrow> string" where
  "trim_right s c = rev (dropWhile (\<lambda>x. x = c) (rev s))"

lemma has_prefix_iff: "has_prefix s p \<longleftrightarrow> (\<exists>t. s = p @ t)"
  by (induction s p rule: has_prefix.induct) auto

lemma has_prefix_append [simp]: "has_prefix (p @ t) p"
  by (auto simp: has_prefix_iff)

lemma trim_prefix_append [simp]: "trim_prefix (p @ t) p = t"
  by (simp add: trim_prefix_def)

lemma trim_right_no_trailing: "s = [] \<or> last s \<noteq> c \<Longrightarrow> trim_right s c = s"
  by (cases s rule: rev_cases) (auto simp: trim_right_def)

lemma trim_right_last: "trim_right s c = [] \<or> last (trim_right s c) \<noteq> c"
proof (cases "dropWhile (\<lambda>x. x = c) (rev s)")
  case Nil
  then show ?thesis by (simp add: trim_right_def)
next
  case (Cons a xs)
  then have "a \<noteq> c" using hd_dropWhile [of "\<lambda>x. x = c" "rev s"] by simp
  with Cons show ?thesis by (simp add: trim_right_def)
qed

text \<open>\<^verbatim>\<open>strings.IndexByte\<close>: the first index of a byte, \<open>None\<close> for Go's \<open>-1\<close>.\<close>

fun index_byte :: "string \<Rightarrow> char \<Rightarrow> nat option" where
  "index_byte [] c = None"
| "index_byte (x # xs) c = (if x = c then Some 0 else map_option Suc (index_byte xs c))"

lemma index_byte_None: "index_byte s c = None \<longleftrightarrow> c \<notin> set s"
  by (induction s) auto

lemma index_byte_Some:
  "index_byte s c = Some i \<Longrightarrow> s = take i s @ c # drop (Suc i) s \<and> c \<notin> set (take i s)"
  by (induction s arbitrary: i) (auto split: if_splits)

text \<open>\<^verbatim>\<open>strings.Contains\<close> and \<^verbatim>\<open>strings.Split\<close> (one-byte separator), \<^verbatim>\<open>strings.Cut\<close>.\<close>

fun contains :: "string \<Rightarrow> string \<Rightarrow> bool" where
  "contains [] p = (p = [])"
| "contains (c # s) p = (has_prefix (c # s) p \<or> contains s p)"

lemma contains_iff: "contains s p \<longleftrightarrow> (\<exists>a b. s = a @ p @ b)"
proof (induction s)
  case (Cons c s)
  note IH = Cons.IH
  show ?case
  proof
    assume "contains (c # s) p"
    then show "\<exists>a b. c # s = a @ p @ b"
      using IH by (force simp: has_prefix_iff intro: exI [of _ "c # a" for a])
  next
    assume "\<exists>a b. c # s = a @ p @ b"
    then obtain a b where ab: "c # s = a @ p @ b" by blast
    show "contains (c # s) p"
    proof (cases a)
      case Nil
      with ab have "has_prefix (c # s) p" by (simp add: has_prefix_iff)
      then show ?thesis by simp
    next
      case (Cons x a')
      with ab have "\<exists>a b. s = a @ p @ b" by auto
      with IH show ?thesis by simp
    qed
  qed
qed simp

fun split_on :: "char \<Rightarrow> string \<Rightarrow> string list" where
  "split_on c [] = [[]]"
| "split_on c (x # xs) =
     (if x = c then [] # split_on c xs
      else (case split_on c xs of [] \<Rightarrow> [[x]] | w # ws \<Rightarrow> (x # w) # ws))"

lemma split_on_not_Nil [simp]: "split_on c s \<noteq> []"
  by (induction s) (auto split: list.splits)

lemma split_on_line: "c \<notin> set l \<Longrightarrow> split_on c (l @ c # s) = l # split_on c s"
  by (induction l) auto

lemma split_on_none: "c \<notin> set l \<Longrightarrow> split_on c l = [l]"
  by (induction l) auto

definition cut :: "char \<Rightarrow> string \<Rightarrow> string \<times> string \<times> bool" where
  "cut c s = (case index_byte s c of None \<Rightarrow> (s, [], False)
              | Some i \<Rightarrow> (take i s, drop (Suc i) s, True))"

text \<open>White space as \<^verbatim>\<open>unicode.IsSpace\<close> has it within ASCII; \<^verbatim>\<open>strings.TrimSpace\<close>.\<close>

definition is_space :: "char \<Rightarrow> bool" where
  "is_space c \<longleftrightarrow> c \<in> {CHR 0x09, CHR 0x0A, CHR 0x0B, CHR 0x0C, CHR 0x0D, CHR 0x20}"

definition trim_space :: "string \<Rightarrow> string" where
  "trim_space s = rev (dropWhile is_space (rev (dropWhile is_space s)))"

lemma trim_space_id:
  assumes "s \<noteq> []" and "\<not> is_space (hd s)" and "\<not> is_space (last s)"
  shows "trim_space s = s"
proof -
  have "dropWhile is_space s = s" using assms by (cases s) auto
  moreover have "dropWhile is_space (rev s) = rev s"
    using assms by (cases s rule: rev_cases) auto
  ultimately show ?thesis by (simp add: trim_space_def)
qed

text \<open>\<^verbatim>\<open>strings.EqualFold\<close> within ASCII.\<close>

definition lower_char :: "char \<Rightarrow> char" where
  "lower_char c = (let n = of_char c :: nat in if 65 \<le> n \<and> n \<le> 90 then char_of (n + 32) else c)"

definition equal_fold :: "string \<Rightarrow> string \<Rightarrow> bool" where
  "equal_fold a b \<longleftrightarrow> map lower_char a = map lower_char b"

section \<open>Printing and scanning integers\<close>

text \<open>\<^verbatim>\<open>%d\<close> of \<^verbatim>\<open>fmt\<close>.\<close>

definition digit :: "nat \<Rightarrow> char" where
  "digit d = ''0123456789'' ! d"

fun show_nat :: "nat \<Rightarrow> string" where
  "show_nat n = (if n < 10 then [digit n] else show_nat (n div 10) @ [digit (n mod 10)])"

declare show_nat.simps [simp del]

definition fmt_d :: "int \<Rightarrow> string" where
  "fmt_d x = (if x < 0 then CHR ''-'' # show_nat (nat (- x)) else show_nat (nat x))"

definition is_digit :: "char \<Rightarrow> bool" where
  "is_digit c \<longleftrightarrow> c \<in> set ''0123456789''"

definition digit_val :: "char \<Rightarrow> nat" where
  "digit_val c = of_char c - 48"

fun digits_val :: "nat \<Rightarrow> string \<Rightarrow> nat" where
  "digits_val a [] = a"
| "digits_val a (c # cs) = digits_val (10 * a + digit_val c) cs"

lemma nat_lt_10_cases:
  assumes "d < (10::nat)"
  obtains "d = 0" | "d = 1" | "d = 2" | "d = 3" | "d = 4" | "d = 5" | "d = 6" | "d = 7" | "d = 8" | "d = 9"
proof -
  have "d = 0 \<or> d = 1 \<or> d = 2 \<or> d = 3 \<or> d = 4 \<or> d = 5 \<or> d = 6 \<or> d = 7 \<or> d = 8 \<or> d = 9"
    using assms by arith
  then show thesis using that by blast
qed

lemma is_digit_digit [simp]: "d < 10 \<Longrightarrow> is_digit (digit d)"
  by (erule nat_lt_10_cases) (simp_all add: digit_def is_digit_def)

lemma digit_val_digit [simp]: "d < 10 \<Longrightarrow> digit_val (digit d) = d"
  by (erule nat_lt_10_cases) (simp_all add: digit_def digit_val_def)

lemma show_nat_not_Nil [simp]: "show_nat n \<noteq> []"
  by (subst show_nat.simps) simp

lemma show_nat_digits: "c \<in> set (show_nat n) \<Longrightarrow> is_digit c"
proof (induction n rule: show_nat.induct)
  case (1 n)
  show ?case
  proof (cases "n < 10")
    case True
    with "1.prems" show ?thesis by (simp add: show_nat.simps [of n])
  next
    case False
    with "1.prems" "1.IH" show ?thesis by (auto simp: show_nat.simps [of n])
  qed
qed

lemma digits_val_append: "digits_val a (s @ t) = digits_val (digits_val a s) t"
  by (induction s arbitrary: a) auto

lemma digits_val_show_nat [simp]: "digits_val 0 (show_nat n) = n"
proof (induction n rule: show_nat.induct)
  case (1 n)
  then show ?case
    by (cases "n < 10") (simp_all add: show_nat.simps [of n] digits_val_append)
qed

lemma show_nat_inj: "show_nat a = show_nat b \<Longrightarrow> a = b"
  by (metis digits_val_show_nat)

lemma digit_not_special:
  assumes "is_digit c"
  shows "c \<noteq> CHR ''-''" and "c \<noteq> CHR ''+''" and "\<not> is_space c" and "c \<noteq> newline"
    and "c \<noteq> CHR ''/''"
  using assms by (auto simp: is_digit_def is_space_def newline_def)

lemma fmt_d_inj: "fmt_d a = fmt_d b \<Longrightarrow> a = b"
proof -
  assume eq: "fmt_d a = fmt_d b"
  have hd_digit: "hd (show_nat n) \<noteq> CHR ''-''" for n
    using show_nat_digits [of "hd (show_nat n)" n] digit_not_special(1) by (metis hd_in_set show_nat_not_Nil)
  have ne: "CHR ''-'' # s \<noteq> show_nat n" and ne': "show_nat n \<noteq> CHR ''-'' # s" for s n
    using hd_digit [of n] by (metis list.sel(1))+
  from eq show "a = b"
    by (auto simp: fmt_d_def ne ne' dest!: show_nat_inj split: if_splits)
qed

lemma fmt_d_no_space: "c \<in> set (fmt_d x) \<Longrightarrow> \<not> is_space c"
  by (auto simp: fmt_d_def is_space_def dest: show_nat_digits split: if_splits)
     (auto simp: is_digit_def dest!: show_nat_digits)

lemma fmt_d_not_Nil [simp]: "fmt_d x \<noteq> []"
  by (simp add: fmt_d_def)

text \<open>
  The verbs \<^verbatim>\<open>%d\<close> (into a 64-bit integer) and \<^verbatim>\<open>%s\<close> of \<^verbatim>\<open>fmt.Sscanf\<close>, and a space in its format.
  Each scanner returns the value and the rest of the input, or \<open>None\<close> for a scan error:
  leading white space other than a newline is skipped, an optional sign and at least one digit are read, and a value
  outside the target type is an error; \<^verbatim>\<open>%s\<close> reads a non-empty run of non-space bytes; a space in
  the format needs at least one white-space byte or the end of the input.
\<close>

definition scan_d :: "string \<Rightarrow> (int \<times> string) option" where
  "scan_d s =
     (let s1 = dropWhile (\<lambda>c. is_space c \<and> c \<noteq> newline) s;
          neg = (s1 \<noteq> [] \<and> hd s1 = CHR ''-'');
          s2 = (if s1 \<noteq> [] \<and> (hd s1 = CHR ''-'' \<or> hd s1 = CHR ''+'') then tl s1 else s1);
          ds = takeWhile is_digit s2;
          v = (if neg then - int (digits_val 0 ds) else int (digits_val 0 ds))
      in if ds = [] \<or> \<not> in64 v then None else Some (v, dropWhile is_digit s2))"

definition scan_s :: "string \<Rightarrow> (string \<times> string) option" where
  "scan_s s =
     (let s1 = dropWhile (\<lambda>c. is_space c \<and> c \<noteq> newline) s; w = takeWhile (\<lambda>c. \<not> is_space c) s1
      in if w = [] then None else Some (w, dropWhile (\<lambda>c. \<not> is_space c) s1))"

definition scan_space :: "string \<Rightarrow> string option" where
  "scan_space s =
     (if s \<noteq> [] \<and> (\<not> is_space (hd s) \<or> hd s = newline) then None
      else Some (dropWhile (\<lambda>c. is_space c \<and> c \<noteq> newline) s))"

lemma takeWhile_show_nat:
  "rest = [] \<or> \<not> is_digit (hd rest) \<Longrightarrow> takeWhile is_digit (show_nat n @ rest) = show_nat n"
  by (cases rest) (auto simp: takeWhile_append show_nat_digits)

lemma dropWhile_show_nat:
  "rest = [] \<or> \<not> is_digit (hd rest) \<Longrightarrow> dropWhile is_digit (show_nat n @ rest) = rest"
  by (cases rest) (auto simp: dropWhile_append show_nat_digits)

lemma scan_d_fmt_d:
  assumes "in64 x" and rest: "rest = [] \<or> \<not> is_digit (hd rest)"
  shows "scan_d (fmt_d x @ rest) = Some (x, rest)"
proof -
  have hd_ok: "is_digit (hd (show_nat n))" for n
    by (rule show_nat_digits) (rule hd_in_set, simp)
  have skip: "dropWhile (\<lambda>c. is_space c \<and> c \<noteq> newline) (show_nat n @ rest) = show_nat n @ rest" for n
    using digit_not_special(3) [OF hd_ok, of n] by (cases "show_nat n") (auto simp: show_nat_not_Nil)
  have ns: "\<not> is_space (CHR ''-'')" by (simp add: is_space_def)
  have hd_app: "hd (show_nat n @ rest) = hd (show_nat n)" for n by simp
  show ?thesis
  proof (cases "x < 0")
    case True
    then show ?thesis
      using assms(1) by (simp add: scan_d_def fmt_d_def ns takeWhile_show_nat dropWhile_show_nat rest)
  next
    case False
    then show ?thesis
      using assms(1) digit_not_special(1,2) [OF hd_ok, of "nat x"]
      by (simp add: scan_d_def fmt_d_def skip takeWhile_show_nat dropWhile_show_nat rest)
  qed
qed

lemma scan_space_one [simp]:
  "s = [] \<or> \<not> is_space (hd s) \<Longrightarrow> scan_space (space # s) = Some s"
  by (cases s) (auto simp: scan_space_def is_space_def space_def newline_def)

lemma scan_s_word:
  assumes "w \<noteq> []" and "\<And>c. c \<in> set w \<Longrightarrow> \<not> is_space c"
  shows "scan_s w = Some (w, [])"
proof -
  have "dropWhile (\<lambda>c. is_space c \<and> c \<noteq> newline) w = w" using assms by (cases w) auto
  moreover have "takeWhile (\<lambda>c. \<not> is_space c) w = w" using assms by (simp add: takeWhile_eq_all_conv)
  moreover have "dropWhile (\<lambda>c. \<not> is_space c) w = []" using assms by simp
  ultimately show ?thesis using assms(1) by (simp only: scan_s_def Let_def) simp
qed

text \<open>Slicing a string to at most \<open>n\<close> bytes, as in \<^verbatim>\<open>s[:min(n, len(s))]\<close>.\<close>

abbreviation clip :: "nat \<Rightarrow> string \<Rightarrow> string" where
  "clip n s \<equiv> take n s"

section \<open>Lists\<close>

lemma sorted_wrt_hd: "sorted_wrt R (x # xs) \<Longrightarrow> y \<in> set xs \<Longrightarrow> R x y"
  by simp

lemma split_nth: "xs = pre @ x # post \<Longrightarrow> x = xs ! length pre \<and> length pre < length xs"
  by simp

text \<open>The element a loop over \<^verbatim>\<open>range\<close> with an index has reached.\<close>

lemma enumerate_split:
  assumes "enumerate 0 xs = pre @ x # post"
  shows "x = (length pre, xs ! length pre)" and "length pre < length xs"
proof -
  from split_nth [OF assms] have "x = enumerate 0 xs ! length pre" and "length pre < length xs" by simp_all
  then show "x = (length pre, xs ! length pre)" and "length pre < length xs"
    by (simp_all add: nth_enumerate_eq)
qed

lemma list_update_append_drop:
  assumes "length pre = n" and "n < length ys"
  shows "(pre @ drop n ys)[n := v] = pre @ v # drop (Suc n) ys" and "(pre @ drop n ys) ! n = ys ! n"
  using assms by (simp_all add: list_update_append Cons_nth_drop_Suc [symmetric] nth_append)

lemma length_show_nat: "n < 10 ^ k \<Longrightarrow> 0 < k \<Longrightarrow> length (show_nat n) \<le> k"
proof (induction k arbitrary: n)
  case (Suc k)
  show ?case
  proof (cases "n < 10")
    case True
    then show ?thesis by (simp add: show_nat.simps [of n])
  next
    case False
    with Suc.prems have "n div 10 < 10 ^ k" "0 < k" by (cases k; simp)+
    with Suc.IH have "length (show_nat (n div 10)) \<le> k" by simp
    with False show ?thesis by (simp add: show_nat.simps [of n])
  qed
qed simp

end
