(* ===== verification/Regions.thy ===== *)
theory Regions
  imports Prelude
begin

text \<open>
  The changed-region lists of the CBT delta synchronisation: the region arithmetic of
  \<^verbatim>\<open>controllers/cbt_sync.go\<close> (\<open>mergeRegions\<close>, \<open>prepareRegions\<close>, \<open>totalRegionBytes\<close>,
  \<open>renderRegions\<close>) and the reader of the rendered list in \<^verbatim>\<open>deltasync.go\<close> (\<open>loadRegions\<close>).
  The theorems say which bytes a merged list covers, that the compression loop ends, and that
  the runner reads back what the controller rendered.
\<close>

section \<open>Model\<close>

record ChangedRegion =
  rOffset :: int
  rLength :: int
  rType :: string

abbreviation region :: "int \<Rightarrow> int \<Rightarrow> string \<Rightarrow> ChangedRegion" where
  "region off len ty \<equiv> \<lparr>rOffset = off, rLength = len, rType = ty\<rparr>"

definition regionMergeGap :: int where
  "regionMergeGap = 4 * 1024 * 1024"

definition maxRegionsPerJob :: nat where
  "maxRegionsPerJob = 20000"

text \<open>
  The loop of \<open>mergeRegions\<close>: \<open>cur\<close> is the region being extended; a finished region is
  emitted in front of the rest, which is the order in which the source appends.
\<close>

fun mergeRegions_loop :: "int \<Rightarrow> ChangedRegion \<Rightarrow> ChangedRegion list \<Rightarrow> ChangedRegion list" where
  "mergeRegions_loop gap cur [] = [cur]"
| "mergeRegions_loop gap cur (r # rs) =
     (if rType r = rType cur \<and> rOffset r \<le> wrap64 (wrap64 (rOffset cur + rLength cur) + gap) then
        let end = wrap64 (rOffset r + rLength r) in
        mergeRegions_loop gap
          (if end > wrap64 (rOffset cur + rLength cur)
           then cur\<lparr>rLength := wrap64 (end - rOffset cur)\<rparr> else cur) rs
      else cur # mergeRegions_loop gap r rs)"

definition mergeRegions :: "ChangedRegion list \<Rightarrow> int \<Rightarrow> ChangedRegion list" where
  "mergeRegions regions gap =
     (case regions of [] \<Rightarrow> [] | cur # rest \<Rightarrow> mergeRegions_loop gap cur rest)"

text \<open>
  The loop of \<open>prepareRegions\<close> after \<open>k\<close> iterations: the gap is then
  \<open>regionMergeGap * 4 ^ k\<close> and \<open>merged\<close> is the list merged with that gap.
\<close>

function prepareRegions_loop :: "ChangedRegion list \<Rightarrow> nat \<Rightarrow> ChangedRegion list" where
  "prepareRegions_loop regions k =
     (let gap = regionMergeGap * 4 ^ k; merged = mergeRegions regions gap in
      if length merged > maxRegionsPerJob \<and> gap < 1024 * 1024 * 1024
      then prepareRegions_loop regions (Suc k) else merged)"
  by pat_completeness auto
termination
proof (relation "measure (\<lambda>(regions, k). nat (1024 * 1024 * 1024 - regionMergeGap * 4 ^ k))", goal_cases)
  case (2 regions k gap merged)
  have "(0::int) < 4 ^ k" by simp
  with 2 show ?case by (simp add: regionMergeGap_def)
qed simp

declare prepareRegions_loop.simps [simp del]

definition prepareRegions :: "ChangedRegion list \<Rightarrow> ChangedRegion list" where
  "prepareRegions regions = prepareRegions_loop regions 0"

definition totalRegionBytes :: "ChangedRegion list \<Rightarrow> int" where
  "totalRegionBytes regions = fold (\<lambda>r t. wrap64 (t + rLength r)) regions 0"

definition renderRegion :: "ChangedRegion \<Rightarrow> string" where
  "renderRegion r = fmt_d (rOffset r) @ space # fmt_d (rLength r) @ space # rType r @ [newline]"

definition renderRegions :: "ChangedRegion list \<Rightarrow> string" where
  "renderRegions regions = concat (map renderRegion regions)"

text \<open>
  The runner's side.  A \<^verbatim>\<open>bufio.Scanner\<close> yields the lines without their newline, a trailing
  carriage return removed; a line that fills its 64 KiB buffer makes it stop with an error.
  A file that ends in a newline has no further empty line.
\<close>

definition scanner_lines :: "string \<Rightarrow> string list" where
  "scanner_lines s = (let ls = split_on newline s in if last ls = [] then butlast ls else ls)"

definition drop_cr :: "string \<Rightarrow> string" where
  "drop_cr l = (if l \<noteq> [] \<and> last l = CHR 0x0D then butlast l else l)"

definition maxScanTokenSize :: nat where
  "maxScanTokenSize = 64 * 1024"

datatype load_error = OpenError | ParseLine string | TokenTooLong

text \<open>\<^verbatim>\<open>fmt.Sscanf(line, "%d %d %s", ...)\<close>\<close>

definition parseRegionLine :: "string \<Rightarrow> ChangedRegion option" where
  "parseRegionLine line =
     (case scan_d line of None \<Rightarrow> None | Some (off, s1) \<Rightarrow>
      case scan_space s1 of None \<Rightarrow> None | Some s2 \<Rightarrow>
      case scan_d s2 of None \<Rightarrow> None | Some (len, s3) \<Rightarrow>
      case scan_space s3 of None \<Rightarrow> None | Some s4 \<Rightarrow>
      case scan_s s4 of None \<Rightarrow> None | Some (ty, _) \<Rightarrow> Some (region off len ty))"

fun loadRegions_lines :: "string list \<Rightarrow> load_error + ChangedRegion list" where
  "loadRegions_lines [] = Inr []"
| "loadRegions_lines (raw # ls) =
     (if length raw \<ge> maxScanTokenSize then Inl TokenTooLong
      else let line = trim_space (drop_cr raw) in
        if line = [] then loadRegions_lines ls
        else case parseRegionLine line of None \<Rightarrow> Inl (ParseLine line)
          | Some r \<Rightarrow> (case loadRegions_lines ls of Inl e \<Rightarrow> Inl e | Inr rs \<Rightarrow> Inr (r # rs)))"

text \<open>\<open>None\<close> stands for a file that cannot be opened.\<close>

definition loadRegions :: "string option \<Rightarrow> load_error + ChangedRegion list" where
  "loadRegions f = (case f of None \<Rightarrow> Inl OpenError | Some s \<Rightarrow> loadRegions_lines (scanner_lines s))"

section \<open>Well-formed lists and coverage\<close>

text \<open>A region whose end stays in range for every gap the merger uses.\<close>

definition region_ok :: "ChangedRegion \<Rightarrow> bool" where
  "region_ok r \<longleftrightarrow> 0 \<le> rOffset r \<and> 0 \<le> rLength r \<and> rOffset r + rLength r < 2 ^ 62"

definition rEnd :: "ChangedRegion \<Rightarrow> int" where
  "rEnd r = rOffset r + rLength r"

abbreviation offset_sorted :: "ChangedRegion list \<Rightarrow> bool" where
  "offset_sorted rs \<equiv> sorted_wrt (\<lambda>a b. rOffset a \<le> rOffset b) rs"

text \<open>Ordered by offset and not overlapping.\<close>

abbreviation separated :: "ChangedRegion list \<Rightarrow> bool" where
  "separated rs \<equiv> sorted_wrt (\<lambda>a b. rEnd a \<le> rOffset b) rs"

definition covers1 :: "ChangedRegion \<Rightarrow> int \<Rightarrow> bool" where
  "covers1 r p \<longleftrightarrow> rOffset r \<le> p \<and> p < rEnd r"

definition covers :: "ChangedRegion list \<Rightarrow> string \<Rightarrow> int \<Rightarrow> bool" where
  "covers rs ty p \<longleftrightarrow> (\<exists>r\<in>set rs. rType r = ty \<and> covers1 r p)"

definition covered :: "ChangedRegion list \<Rightarrow> int \<Rightarrow> bool" where
  "covered rs p \<longleftrightarrow> (\<exists>r\<in>set rs. covers1 r p)"

lemma covers_Nil [simp]: "\<not> covers [] ty p"
  by (simp add: covers_def)

lemma covers_Cons [simp]: "covers (r # rs) ty p \<longleftrightarrow> rType r = ty \<and> covers1 r p \<or> covers rs ty p"
  by (auto simp: covers_def)

lemma covered_Cons [simp]: "covered (r # rs) p \<longleftrightarrow> covers1 r p \<or> covered rs p"
  by (auto simp: covered_def)

lemma covered_Nil [simp]: "\<not> covered [] p"
  by (simp add: covered_def)

lemma covers_covered: "covers rs ty p \<Longrightarrow> covered rs p"
  by (auto simp: covers_def covered_def)

text \<open>
  What one iteration does without the wrap-around: the merged region keeps the start and the
  type of \<open>cur\<close> and ends where the later of the two ends.
\<close>

definition join :: "ChangedRegion \<Rightarrow> ChangedRegion \<Rightarrow> ChangedRegion" where
  "join cur r = cur\<lparr>rLength := max (rEnd cur) (rEnd r) - rOffset cur\<rparr>"

lemma join_simps [simp]:
  "rOffset (join cur r) = rOffset cur" "rType (join cur r) = rType cur"
  "rEnd (join cur r) = max (rEnd cur) (rEnd r)"
  by (simp_all add: join_def rEnd_def)

definition valid_gap :: "int \<Rightarrow> bool" where
  "valid_gap gap \<longleftrightarrow> 0 \<le> gap \<and> gap \<le> 2 ^ 30"

lemma mergeRegions_loop_Cons:
  assumes "region_ok cur" "region_ok r" "rOffset cur \<le> rOffset r" "valid_gap gap"
  shows "mergeRegions_loop gap cur (r # rs) =
     (if rType r = rType cur \<and> rOffset r \<le> rEnd cur + gap
      then mergeRegions_loop gap (join cur r) rs else cur # mergeRegions_loop gap r rs)"
proof -
  have e: "wrap64 (rOffset cur + rLength cur) = rEnd cur" "wrap64 (rOffset r + rLength r) = rEnd r"
    "wrap64 (rEnd cur + gap) = rEnd cur + gap"
    using assms by (auto simp: region_ok_def valid_gap_def rEnd_def intro!: wrap64_nonneg)
  have d: "rEnd cur < rEnd r \<Longrightarrow> wrap64 (rEnd r - rOffset cur) = rEnd r - rOffset cur"
    using assms by (intro wrap64_nonneg) (auto simp: region_ok_def rEnd_def)
  have j: "(if rEnd r > rEnd cur then cur\<lparr>rLength := wrap64 (rEnd r - rOffset cur)\<rparr> else cur) = join cur r"
    by (auto simp: join_def d) (simp add: rEnd_def)
  show ?thesis by (simp only: mergeRegions_loop.simps e Let_def j)
qed

lemma region_ok_join: "region_ok cur \<Longrightarrow> region_ok r \<Longrightarrow> region_ok (join cur r)"
  by (auto simp: region_ok_def join_def rEnd_def max_def)

declare mergeRegions_loop.simps(2) [simp del]

text \<open>
  The induction scheme all facts about the loop share: on well-formed, sorted input the loop
  either joins or emits.
\<close>

lemma mergeRegions_loop_induct [consumes 3, case_names Nil Join Emit]:
  assumes ok: "\<forall>r\<in>set (cur # rs). region_ok r" and srt: "offset_sorted (cur # rs)"
    and gap: "valid_gap gap"
    and nil: "\<And>cur. region_ok cur \<Longrightarrow> P cur [] [cur]"
    and join: "\<And>cur r rs. region_ok cur \<Longrightarrow> region_ok r \<Longrightarrow> rOffset cur \<le> rOffset r \<Longrightarrow>
        offset_sorted (r # rs) \<Longrightarrow> rType r = rType cur \<Longrightarrow> rOffset r \<le> rEnd cur + gap \<Longrightarrow>
        P (join cur r) rs (mergeRegions_loop gap (join cur r) rs) \<Longrightarrow>
        P cur (r # rs) (mergeRegions_loop gap (join cur r) rs)"
    and emit: "\<And>cur r rs. region_ok cur \<Longrightarrow> region_ok r \<Longrightarrow> rOffset cur \<le> rOffset r \<Longrightarrow>
        offset_sorted (r # rs) \<Longrightarrow> (rType r = rType cur \<longrightarrow> rEnd cur + gap < rOffset r) \<Longrightarrow>
        P r rs (mergeRegions_loop gap r rs) \<Longrightarrow>
        P cur (r # rs) (cur # mergeRegions_loop gap r rs)"
  shows "P cur rs (mergeRegions_loop gap cur rs)"
  using ok srt
proof (induction rs arbitrary: cur)
  case Nil
  then show ?case by (simp add: nil)
next
  case (Cons r rs)
  have c: "region_ok cur" "region_ok r" "rOffset cur \<le> rOffset r" "offset_sorted (r # rs)"
    using Cons.prems by auto
  have jn: "P (join cur r) rs (mergeRegions_loop gap (join cur r) rs)"
    using Cons.prems by (intro Cons.IH) (auto simp: region_ok_join)
  have em: "P r rs (mergeRegions_loop gap r rs)"
    using Cons.prems by (intro Cons.IH) auto
  show ?case
    using join [OF c _ _ jn] emit [OF c _ em]
    by (auto simp: mergeRegions_loop_Cons [OF c(1-3) gap])
qed


section \<open>What a merged list covers\<close>

lemma mergeRegions_loop_offsets:
  assumes "\<forall>r\<in>set (cur # rs). region_ok r" "offset_sorted (cur # rs)" "valid_gap gap"
  shows "\<forall>r\<in>set (mergeRegions_loop gap cur rs). rOffset cur \<le> rOffset r"
  using assms
  by (induction rule: mergeRegions_loop_induct) auto

lemma mergeRegions_loop_ok:
  assumes "\<forall>r\<in>set (cur # rs). region_ok r" "offset_sorted (cur # rs)" "valid_gap gap"
  shows "\<forall>r\<in>set (mergeRegions_loop gap cur rs). region_ok r"
  using assms
  by (induction rule: mergeRegions_loop_induct) auto

lemma mergeRegions_loop_types:
  assumes "\<forall>r\<in>set (cur # rs). region_ok r" "offset_sorted (cur # rs)" "valid_gap gap"
  shows "rType ` set (mergeRegions_loop gap cur rs) \<subseteq> rType ` set (cur # rs)"
  using assms
  by (induction rule: mergeRegions_loop_induct) auto

lemma mergeRegions_loop_ends:
  assumes "\<forall>r\<in>set (cur # rs). region_ok r" "offset_sorted (cur # rs)" "valid_gap gap"
  shows "list_all (\<lambda>r. rEnd r \<le> b) (cur # rs) \<longrightarrow> list_all (\<lambda>r. rEnd r \<le> b) (mergeRegions_loop gap cur rs)"
  using assms
proof (induction rule: mergeRegions_loop_induct)
  case (Nil cur)
  then show ?case by simp
next
  case (Join cur r rs)
  from Join.IH show ?case by simp
next
  case (Emit cur r rs)
  from Emit.IH show ?case by simp
qed

lemma mergeRegions_loop_length: "length (mergeRegions_loop gap cur rs) \<le> Suc (length rs)"
  by (induction gap cur rs rule: mergeRegions_loop.induct)
     (auto simp: mergeRegions_loop.simps Let_def split: if_splits)

lemma mergeRegions_loop_complete:
  assumes "\<forall>r\<in>set (cur # rs). region_ok r" "offset_sorted (cur # rs)" "valid_gap gap"
  shows "covers (cur # rs) ty p \<longrightarrow> covers (mergeRegions_loop gap cur rs) ty p"
  using assms
  by (induction rule: mergeRegions_loop_induct) (auto simp: covers1_def)

text \<open>A byte that the list itself leaves alone and that lies in the gap before a region.\<close>

definition gap_byte :: "ChangedRegion list \<Rightarrow> int \<Rightarrow> string \<Rightarrow> int \<Rightarrow> bool" where
  "gap_byte rs gap ty p \<longleftrightarrow> \<not> covered rs p \<and>
     (\<exists>a\<in>set rs. \<exists>b\<in>set rs. rType a = ty \<and> rType b = ty \<and> rOffset a \<le> p \<and> p < rOffset b \<and> rOffset b - gap \<le> p)"

lemma separated_sorted: "\<forall>r\<in>set rs. region_ok r \<Longrightarrow> separated rs \<Longrightarrow> offset_sorted rs"
  by (induction rs) (auto simp: region_ok_def rEnd_def)

lemma gap_byte_join:
  assumes gb: "gap_byte (join cur r # rs) gap ty p" and le: "rOffset cur \<le> rOffset r"
  shows "gap_byte (cur # r # rs) gap ty p"
proof -
  from gb have nc: "\<not> covers1 (join cur r) p" "\<not> covered rs p" by (simp_all add: gap_byte_def)
  then have "\<not> covered (cur # r # rs) p" using le by (auto simp: covers1_def)
  moreover from gb obtain a b where "a \<in> set (join cur r # rs)" "b \<in> set (join cur r # rs)"
    "rType a = ty" "rType b = ty" "rOffset a \<le> p" "p < rOffset b" "rOffset b - gap \<le> p"
    unfolding gap_byte_def by blast
  then have "\<exists>a\<in>set (cur # rs). rType a = ty \<and> rOffset a \<le> p"
    "\<exists>b\<in>set (cur # rs). rType b = ty \<and> p < rOffset b \<and> rOffset b - gap \<le> p"
    by (auto intro: bexI [of _ cur])
  ultimately show ?thesis by (auto simp: gap_byte_def)
qed

lemma covers1_join:
  assumes "covers1 (join cur r) p" "separated (cur # r # rs)"
    "rType r = rType cur" "rOffset r \<le> rEnd cur + gap" "region_ok cur" "region_ok r"
  shows "covers1 cur p \<or> covers1 r p \<or> gap_byte (cur # r # rs) gap (rType cur) p"
proof (cases "covers1 cur p \<or> covers1 r p")
  case False
  then have p: "rEnd cur \<le> p" "p < rOffset r"
    using assms by (auto simp: covers1_def max_def split: if_splits)
  have "\<not> covers1 x p" if "x \<in> set rs" for x
  proof -
    have "rEnd r \<le> rOffset x" using assms(2) that by auto
    then have "rOffset r \<le> rOffset x" using assms(6) by (simp add: region_ok_def rEnd_def)
    then show ?thesis using p by (simp add: covers1_def)
  qed
  then have "\<not> covered (cur # r # rs) p" using False by (auto simp: covered_def)
  moreover have "rOffset cur \<le> p" using p assms(5) by (simp add: region_ok_def rEnd_def)
  ultimately show ?thesis using p assms(3,4) by (auto simp: gap_byte_def)
qed auto

lemma gap_byte_Cons: "gap_byte rs gap ty p \<Longrightarrow> \<not> covers1 cur p \<Longrightarrow> gap_byte (cur # rs) gap ty p"
  by (auto simp: gap_byte_def)

lemma mergeRegions_loop_sound:
  assumes "\<forall>r\<in>set (cur # rs). region_ok r" "offset_sorted (cur # rs)" "valid_gap gap"
  shows "separated (cur # rs) \<longrightarrow> separated (mergeRegions_loop gap cur rs) \<and>
    (\<forall>x\<in>set (mergeRegions_loop gap cur rs). rOffset cur \<le> rOffset x) \<and>
    (\<forall>ty p. covers (mergeRegions_loop gap cur rs) ty p \<longrightarrow>
       covers (cur # rs) ty p \<or> gap_byte (cur # rs) gap ty p)"
  using assms
proof (induction rule: mergeRegions_loop_induct)
  case (Nil cur)
  then show ?case by simp
next
  case (Join cur r rs)
  show ?case
  proof
    assume sep: "separated (cur # r # rs)"
    then have "separated (join cur r # rs)" by simp
    note IH = Join.IH [rule_format, OF this]
    have "covers (cur # r # rs) ty p \<or> gap_byte (cur # r # rs) gap ty p"
      if "covers (mergeRegions_loop gap (join cur r) rs) ty p" for ty p
    proof -
      from IH that consider "covers1 (join cur r) p" "ty = rType cur" | "covers rs ty p"
        | "gap_byte (join cur r # rs) gap ty p" by fastforce
      then show ?thesis
      proof cases
        case 1
        with covers1_join [OF 1(1) sep Join.hyps(5,6,1,2)] Join.hyps(5) show ?thesis by auto
      next
        case 3
        with Join.hyps(3) show ?thesis by (blast intro: gap_byte_join)
      qed simp
    qed
    with IH show "separated (mergeRegions_loop gap (join cur r) rs) \<and>
      (\<forall>x\<in>set (mergeRegions_loop gap (join cur r) rs). rOffset cur \<le> rOffset x) \<and>
      (\<forall>ty p. covers (mergeRegions_loop gap (join cur r) rs) ty p \<longrightarrow>
         covers (cur # r # rs) ty p \<or> gap_byte (cur # r # rs) gap ty p)" by auto
  qed
next
  case (Emit cur r rs)
  show ?case
  proof
    assume sep: "separated (cur # r # rs)"
    then have "separated (r # rs)" by simp
    note IH = Emit.IH [rule_format, OF this]
    have lo: "rEnd cur \<le> rOffset x" if "x \<in> set (mergeRegions_loop gap r rs)" for x
      using IH that sep by fastforce
    have "covers (cur # r # rs) ty p \<or> gap_byte (cur # r # rs) gap ty p"
      if c: "covers (mergeRegions_loop gap r rs) ty p" for ty p
    proof -
      from c lo have "\<not> covers1 cur p" by (force simp: covers_def covers1_def)
      with IH c show ?thesis by (auto intro: gap_byte_Cons)
    qed
    with IH lo Emit.hyps(3) show "separated (cur # mergeRegions_loop gap r rs) \<and>
      (\<forall>x\<in>set (cur # mergeRegions_loop gap r rs). rOffset cur \<le> rOffset x) \<and>
      (\<forall>ty p. covers (cur # mergeRegions_loop gap r rs) ty p \<longrightarrow>
         covers (cur # r # rs) ty p \<or> gap_byte (cur # r # rs) gap ty p)" by fastforce
  qed
qed

section \<open>The compression loop\<close>

definition gap_at :: "nat \<Rightarrow> int" where
  "gap_at k = regionMergeGap * 4 ^ k"

lemma gap_at_le: "k \<le> 4 \<Longrightarrow> gap_at k \<le> 1024 * 1024 * 1024"
proof -
  assume "k \<le> 4"
  then have "(4::int) ^ k \<le> 4 ^ 4" by (intro power_increasing) simp_all
  then show ?thesis by (simp add: gap_at_def regionMergeGap_def)
qed

lemma gap_at_less_iff: "gap_at k < 1024 * 1024 * 1024 \<longleftrightarrow> k < 4"
proof
  assume lt: "gap_at k < 1024 * 1024 * 1024"
  show "k < 4"
  proof (rule ccontr)
    assume "\<not> k < 4"
    then have "(4::int) ^ 4 \<le> 4 ^ k" by (intro power_increasing) simp_all
    with lt show False by (simp add: gap_at_def regionMergeGap_def)
  qed
next
  assume "k < 4"
  then have "(4::int) ^ k \<le> 4 ^ 3" by (intro power_increasing) simp_all
  then show "gap_at k < 1024 * 1024 * 1024" by (simp add: gap_at_def regionMergeGap_def)
qed

lemma valid_gap_at: "k \<le> 4 \<Longrightarrow> valid_gap (gap_at k)"
  using gap_at_le [of k] by (simp add: valid_gap_def gap_at_def regionMergeGap_def)

lemma prepareRegions_loop_unfold:
  "prepareRegions_loop rs k =
     (if length (mergeRegions rs (gap_at k)) > maxRegionsPerJob \<and> k < 4
      then prepareRegions_loop rs (Suc k) else mergeRegions rs (gap_at k))"
  using gap_at_less_iff [of k]
  by (subst prepareRegions_loop.simps) (simp add: Let_def gap_at_def)

lemma prepareRegions_loop_result:
  "k \<le> 4 \<Longrightarrow> \<exists>j. k \<le> j \<and> j \<le> 4 \<and> prepareRegions_loop rs k = mergeRegions rs (gap_at j) \<and>
     (length (mergeRegions rs (gap_at j)) \<le> maxRegionsPerJob \<or> j = 4)"
proof (induction "4 - k" arbitrary: k)
  case 0
  then have "k = 4" by simp
  then show ?case by (auto simp: prepareRegions_loop_unfold)
next
  case (Suc n)
  then have "n = 4 - Suc k" "Suc k \<le> 4" by simp_all
  from Suc.hyps(1) [OF this] obtain j where j: "Suc k \<le> j" "j \<le> 4"
    "prepareRegions_loop rs (Suc k) = mergeRegions rs (gap_at j)"
    "length (mergeRegions rs (gap_at j)) \<le> maxRegionsPerJob \<or> j = 4" by blast
  show ?case
  proof (cases "length (mergeRegions rs (gap_at k)) > maxRegionsPerJob \<and> k < 4")
    case True
    then have "prepareRegions_loop rs k = prepareRegions_loop rs (Suc k)"
      by (simp add: prepareRegions_loop_unfold [of rs k])
    with j show ?thesis by (intro exI [of _ j]) simp
  next
    case False
    with Suc.prems show ?thesis
      by (intro exI [of _ k]) (auto simp: prepareRegions_loop_unfold [of rs k])
  qed
qed

lemma prepareRegions_result:
  obtains k where "k \<le> 4" "prepareRegions rs = mergeRegions rs (gap_at k)"
    "length (prepareRegions rs) \<le> maxRegionsPerJob \<or> k = 4"
  using prepareRegions_loop_result [of 0 rs] by (auto simp: prepareRegions_def)


lemma mergeRegions_Nil [simp]: "mergeRegions [] gap = []"
  by (simp add: mergeRegions_def)

lemma mergeRegions_Cons [simp]: "mergeRegions (r # rs) gap = mergeRegions_loop gap r rs"
  by (simp add: mergeRegions_def)

definition region_list :: "ChangedRegion list \<Rightarrow> bool" where
  "region_list rs \<longleftrightarrow> (\<forall>r\<in>set rs. region_ok r) \<and> separated rs"

lemma region_list_sorted: "region_list rs \<Longrightarrow> offset_sorted rs"
  by (simp add: region_list_def separated_sorted)

lemma mergeRegions_covers:
  assumes "\<forall>r\<in>set rs. region_ok r" "offset_sorted rs" "valid_gap gap" "covers rs ty p"
  shows "covers (mergeRegions rs gap) ty p"
  using assms mergeRegions_loop_complete [of "hd rs" "tl rs" gap ty p] by (cases rs) simp_all

lemma mergeRegions_region_list:
  assumes "region_list rs" "valid_gap gap"
  shows "region_list (mergeRegions rs gap)"
proof (cases rs)
  case (Cons cur rest)
  have c: "\<forall>r\<in>set (cur # rest). region_ok r" "offset_sorted (cur # rest)" "separated (cur # rest)"
    using assms(1) region_list_sorted [OF assms(1)] unfolding region_list_def Cons by blast+
  show ?thesis
    unfolding region_list_def Cons mergeRegions_Cons
    using mergeRegions_loop_ok [OF c(1,2) assms(2)] mergeRegions_loop_sound [OF c(1,2) assms(2)] c(3)
    by blast
qed (simp add: region_list_def)

lemma mergeRegions_extra:
  assumes "region_list rs" "valid_gap gap" "covers (mergeRegions rs gap) ty p" "\<not> covers rs ty p"
  shows "gap_byte rs gap ty p"
proof (cases rs)
  case (Cons cur rest)
  have c: "\<forall>r\<in>set (cur # rest). region_ok r" "offset_sorted (cur # rest)" "separated (cur # rest)"
    using assms(1) region_list_sorted [OF assms(1)] unfolding region_list_def Cons by blast+
  show ?thesis
    using mergeRegions_loop_sound [OF c(1,2) assms(2)] c(3) assms(3,4)
    unfolding Cons mergeRegions_Cons by blast
qed (use assms in simp)

lemma mergeRegions_types:
  assumes "\<forall>r\<in>set rs. region_ok r" "offset_sorted rs" "valid_gap gap"
  shows "rType ` set (mergeRegions rs gap) \<subseteq> rType ` set rs"
  using assms mergeRegions_loop_types [of "hd rs" "tl rs" gap] by (cases rs) simp_all

lemma mergeRegions_ends:
  assumes "region_list rs" "valid_gap gap" "list_all (\<lambda>r. rEnd r \<le> b) rs"
  shows "list_all (\<lambda>r. rEnd r \<le> b) (mergeRegions rs gap)"
proof (cases rs)
  case (Cons cur rest)
  have c: "\<forall>r\<in>set (cur # rest). region_ok r" "offset_sorted (cur # rest)"
    using assms(1) region_list_sorted [OF assms(1)] unfolding region_list_def Cons by blast+
  show ?thesis
    using mergeRegions_loop_ends [OF c assms(2)] assms(3) unfolding Cons mergeRegions_Cons by blast
qed simp

section \<open>Rendering and reading back\<close>

definition wire_region :: "ChangedRegion \<Rightarrow> bool" where
  "wire_region r \<longleftrightarrow> in64 (rOffset r) \<and> in64 (rLength r) \<and> (rType r = ''REGULAR'' \<or> rType r = ''ZEROED'')"

definition region_line :: "ChangedRegion \<Rightarrow> string" where
  "region_line r = fmt_d (rOffset r) @ space # fmt_d (rLength r) @ space # rType r"

lemma renderRegion_line: "renderRegion r = region_line r @ [newline]"
  by (simp add: renderRegion_def region_line_def)

lemma wire_type:
  assumes "wire_region r"
  shows "rType r \<noteq> []" "c \<in> set (rType r) \<Longrightarrow> \<not> is_space c" "length (rType r) \<le> 7"
  using assms by (auto simp: wire_region_def is_space_def)

lemma hd_not_space_digit: "\<not> is_space (hd (fmt_d x))"
  by (rule fmt_d_no_space) (rule hd_in_set, simp)

lemma parse_region_line:
  assumes w: "wire_region r"
  shows "parseRegionLine (region_line r) = Some r"
proof -
  have in64s: "in64 (rOffset r)" "in64 (rLength r)" using w by (simp_all add: wire_region_def)
  have nd: "\<not> is_digit space" by (simp add: space_def is_digit_def)
  have hd1: "\<not> is_space (hd (fmt_d (rLength r) @ space # rType r))"
    using hd_not_space_digit by simp
  have hd2: "\<not> is_space (hd (rType r))"
    using wire_type(1,2) [OF w] hd_in_set by blast
  show ?thesis
    unfolding parseRegionLine_def region_line_def
    using in64s nd hd1 hd2 wire_type(1,2) [OF w]
    by (simp add: scan_d_fmt_d scan_s_word)
qed

lemma length_fmt_d: "in64 x \<Longrightarrow> length (fmt_d x) \<le> 20"
  using length_show_nat [of "nat (- x)" 19] length_show_nat [of "nat x" 19]
  by (auto simp: fmt_d_def in64_def nat_less_iff)

lemma region_line_props:
  assumes w: "wire_region r"
  shows "length (region_line r) < maxScanTokenSize" "newline \<notin> set (region_line r)"
    "region_line r \<noteq> []" "trim_space (drop_cr (region_line r)) = region_line r"
proof -
  have in64s: "in64 (rOffset r)" "in64 (rLength r)" using w by (simp_all add: wire_region_def)
  show "length (region_line r) < maxScanTokenSize"
    using length_fmt_d [OF in64s(1)] length_fmt_d [OF in64s(2)] wire_type(3) [OF w]
    by (simp add: region_line_def maxScanTokenSize_def)
  show "newline \<notin> set (region_line r)"
    using fmt_d_no_space wire_type(2) [OF w]
    by (auto simp: region_line_def newline_def space_def is_space_def)
  show ne: "region_line r \<noteq> []" by (simp add: region_line_def)
  have h: "\<not> is_space (hd (region_line r))" using hd_not_space_digit by (simp add: region_line_def)
  have l: "\<not> is_space (last (region_line r))"
    using wire_type(1,2) [OF w] by (simp add: region_line_def)
  then have "drop_cr (region_line r) = region_line r" by (auto simp: drop_cr_def is_space_def)
  then show "trim_space (drop_cr (region_line r)) = region_line r"
    using trim_space_id [OF ne h l] by simp
qed

lemma split_on_render:
  "(\<And>r. r \<in> set rs \<Longrightarrow> wire_region r) \<Longrightarrow>
     split_on newline (renderRegions rs) = map region_line rs @ [[]]"
  by (induction rs)
     (simp_all add: renderRegions_def renderRegion_line split_on_line region_line_props(2))

lemma loadRegions_lines_render:
  "(\<And>r. r \<in> set rs \<Longrightarrow> wire_region r) \<Longrightarrow> loadRegions_lines (map region_line rs) = Inr rs"
  by (induction rs) (simp_all add: region_line_props parse_region_line not_le)

lemma loadRegions_render:
  "(\<And>r. r \<in> set rs \<Longrightarrow> wire_region r) \<Longrightarrow> loadRegions (Some (renderRegions rs)) = Inr rs"
  by (simp add: loadRegions_def scanner_lines_def split_on_render loadRegions_lines_render)


text \<open>What the runner gets to see: the prepared list keeps the wire format, the types and the end bound.\<close>

lemma region_ok_in64: "region_ok r \<Longrightarrow> in64 (rOffset r) \<and> in64 (rLength r)"
  by (auto simp: region_ok_def in64_def)

lemma prepareRegions_wire:
  assumes "region_list rs" "\<forall>r\<in>set rs. wire_region r"
  shows "\<forall>r\<in>set (prepareRegions rs). wire_region r"
proof (rule prepareRegions_result [of rs])
  fix k assume k: "k \<le> 4" and eq: "prepareRegions rs = mergeRegions rs (gap_at k)"
  note v = valid_gap_at [OF k] and ok = assms(1) [unfolded region_list_def, THEN conjunct1]
  have "rType r \<in> rType ` set rs" "region_ok r" if "r \<in> set (mergeRegions rs (gap_at k))" for r
    using that mergeRegions_types [OF ok region_list_sorted [OF assms(1)] v]
      mergeRegions_region_list [OF assms(1) v] by (auto simp: region_list_def)
  with assms(2) show ?thesis unfolding eq by (fastforce simp: wire_region_def dest: region_ok_in64)
qed

lemma prepareRegions_ends:
  assumes "region_list rs" "list_all (\<lambda>r. rEnd r \<le> b) rs"
  shows "list_all (\<lambda>r. rEnd r \<le> b) (prepareRegions rs)"
proof (rule prepareRegions_result [of rs])
  fix k assume "k \<le> 4" "prepareRegions rs = mergeRegions rs (gap_at k)"
  with assms show ?thesis by (simp add: mergeRegions_ends valid_gap_at)
qed

lemma prepareRegions_exact_aux:
  assumes "region_list rs"
  shows "region_list (prepareRegions rs)"
    "covers (prepareRegions rs) ty p \<Longrightarrow> covers rs ty p \<or> gap_byte rs (2 ^ 30) ty p"
proof -
  obtain k where k: "k \<le> 4" and eq: "prepareRegions rs = mergeRegions rs (gap_at k)"
    by (rule prepareRegions_result)
  have wide: "gap_byte rs (gap_at k) ty p \<Longrightarrow> gap_byte rs (2 ^ 30) ty p"
    using gap_at_le [OF k] by (fastforce simp: gap_byte_def)
  show "region_list (prepareRegions rs)"
    unfolding eq by (rule mergeRegions_region_list [OF assms valid_gap_at [OF k]])
  show "covers (prepareRegions rs) ty p \<Longrightarrow> covers rs ty p \<or> gap_byte rs (2 ^ 30) ty p"
    unfolding eq using mergeRegions_extra [OF assms valid_gap_at [OF k]] wide by blast
qed

lemma prepareRegions_covers_aux:
  assumes "region_list rs" "covers rs ty p"
  shows "covers (prepareRegions rs) ty p"
proof (rule prepareRegions_result [of rs])
  fix k assume "k \<le> 4" "prepareRegions rs = mergeRegions rs (gap_at k)"
  with assms show ?thesis
    by (simp add: mergeRegions_covers valid_gap_at region_list_sorted [OF assms(1)] region_list_def)
qed

lemma covered_iff_covers: "covered rs p \<longleftrightarrow> (\<exists>ty. covers rs ty p)"
  by (auto simp: covered_def covers_def)

section \<open>Properties\<close>

text \<open>C20: On a list of regions ordered by offset, every byte that some region marks as changed is
  still marked with the same type after \<open>prepareRegions\<close> has merged and compressed the list.\<close>

theorem prepareRegions_covers:
  assumes "\<forall>r\<in>set rs. region_ok r" and "offset_sorted rs" and "covers rs ty p"
  shows "covers (prepareRegions rs) ty p"
proof (rule prepareRegions_result [of rs])
  fix k assume "k \<le> 4" "prepareRegions rs = mergeRegions rs (gap_at k)"
  with assms show ?thesis by (simp add: mergeRegions_covers valid_gap_at)
qed

definition sample_regions :: "ChangedRegion list" where
  "sample_regions = [region 0 1024 ''REGULAR'', region 2048 1024 ''REGULAR'',
     region 10485760 512 ''REGULAR'', region 20971520 4096 ''ZEROED'']"

lemma sample_regions_ok: "\<forall>r\<in>set sample_regions. region_ok r" "separated sample_regions"
  by (simp_all add: sample_regions_def region_ok_def rEnd_def)

lemma sample_prepared:
  "prepareRegions sample_regions = [region 0 3072 ''REGULAR'', region 10485760 512 ''REGULAR'',
     region 20971520 4096 ''ZEROED'']"
  by (simp add: prepareRegions_def prepareRegions_loop.simps sample_regions_def mergeRegions_loop.simps
      regionMergeGap_def maxRegionsPerJob_def wrap64_def)

theorem prepareRegions_covers_witness:
  "covers sample_regions ''REGULAR'' 2050 \<and> covers (prepareRegions sample_regions) ''REGULAR'' 2050"
proof -
  have c: "covers sample_regions ''REGULAR'' 2050"
    by (simp add: sample_regions_def covers1_def rEnd_def)
  show ?thesis
    using c prepareRegions_covers [OF sample_regions_ok(1)
        separated_sorted [OF sample_regions_ok] c] by blast
qed

text \<open>C21: \<open>prepareRegions\<close> keeps the list ordered, disjoint and in range, and the only bytes it adds
  to a type are bytes no region of the input marks as changed, in a gap of at most 1 GiB in front
  of a region of that type.\<close>

theorem prepareRegions_exact:
  assumes "region_list rs"
  shows "region_list (prepareRegions rs) \<and>
    (\<forall>ty p. covers (prepareRegions rs) ty p \<and> \<not> covers rs ty p \<longrightarrow> gap_byte rs (2 ^ 30) ty p)"
  using prepareRegions_exact_aux [OF assms] by blast

theorem prepareRegions_exact_witness:
  "region_list sample_regions \<and> region_list (prepareRegions sample_regions) \<and>
   gap_byte sample_regions (2 ^ 30) ''REGULAR'' 1500"
proof -
  have l: "region_list sample_regions" by (simp add: region_list_def sample_regions_ok)
  have "covers (prepareRegions sample_regions) ''REGULAR'' 1500 \<and> \<not> covers sample_regions ''REGULAR'' 1500"
    unfolding sample_prepared by (simp add: sample_regions_def covers1_def rEnd_def)
  with prepareRegions_exact [OF l] l show ?thesis by blast
qed

text \<open>C23: The compression loop ends, after at most four widenings of the gap: the result is the input
  merged with a gap of \<open>4 MiB * 4 ^ k\<close> for some \<open>k \<le> 4\<close>, no longer than the input, and it has at most
  \<open>maxRegionsPerJob\<close> regions unless the gap has reached 1 GiB.\<close>

theorem prepareRegions_bound:
  "\<exists>k\<le>4. prepareRegions rs = mergeRegions rs (regionMergeGap * 4 ^ k) \<and>
     length (prepareRegions rs) \<le> length rs \<and>
     (length (prepareRegions rs) \<le> maxRegionsPerJob \<or> regionMergeGap * 4 ^ k = 1024 * 1024 * 1024)"
proof (rule prepareRegions_result [of rs])
  fix k assume k: "k \<le> 4" "prepareRegions rs = mergeRegions rs (gap_at k)"
    "length (prepareRegions rs) \<le> maxRegionsPerJob \<or> k = 4"
  have "length (mergeRegions rs (gap_at k)) \<le> length rs"
    using mergeRegions_loop_length [of "gap_at k" "hd rs" "tl rs"] by (cases rs) simp_all
  with k show ?thesis
    by (intro exI [of _ k]) (auto simp: gap_at_def regionMergeGap_def)
qed

text \<open>C22: What the controller renders into the ConfigMap is what the runner loads: reading back the
  rendered list gives the same regions in the same order, for all offsets and lengths of 64 bits.\<close>

theorem loadRegions_renderRegions:
  assumes "\<forall>r\<in>set rs. wire_region r"
  shows "loadRegions (Some (renderRegions rs)) = Inr rs"
  using assms by (intro loadRegions_render) blast

theorem loadRegions_renderRegions_witness:
  "list_all wire_region sample_regions \<and>
   loadRegions (Some (renderRegions sample_regions)) = Inr sample_regions"
proof -
  have w: "\<forall>r\<in>set sample_regions. wire_region r"
    by (simp add: sample_regions_def wire_region_def in64_def)
  show ?thesis using w loadRegions_renderRegions [OF w] by (simp add: list_all_iff)
qed

end
