(* ===== verification/DeltaSync.thy ===== *)
theory DeltaSync
  imports Regions
begin

text \<open>
  The \<^verbatim>\<open>delta-sync\<close> subcommand (\<^verbatim>\<open>deltasync.go\<close>): the command line, the copy loops
  \<open>syncRegion\<close> and \<open>writeZeros\<close>, the sequential run of the whole command, and the
  concurrent workers as a step relation with I/O faults and retries.  The theorems give the
  bytes of the target after a run, for every interleaving of the workers, and carry the
  region list from the controller's rendering to the target disk.
\<close>

section \<open>Files\<close>

type_synonym byte = "8 word"
type_synonym disk = "byte list"

datatype io_error = EOF | NegativeOffset

definition bufSize :: int where
  "bufSize = 4 * 1024 * 1024"

text \<open>
  \<^verbatim>\<open>(*os.File).ReadAt\<close> reads up to \<open>want\<close> bytes and reports \<open>EOF\<close> when it got fewer;
  \<^verbatim>\<open>WriteAt\<close> overwrites, and a write past the end of a file fills the hole with zeros.
\<close>

definition readAt :: "disk \<Rightarrow> int \<Rightarrow> nat \<Rightarrow> disk \<times> io_error option" where
  "readAt f off want =
     (if off < 0 then ([], Some NegativeOffset)
      else let d = take want (drop (nat off) f) in (d, if length d < want then Some EOF else None))"

definition writeAt :: "disk \<Rightarrow> int \<Rightarrow> disk \<Rightarrow> disk \<times> io_error option" where
  "writeAt f off d =
     (if off < 0 then (f, Some NegativeOffset)
      else (take (nat off) (f @ replicate (nat off - length f) 0) @ d @ drop (nat off + length d) f, None))"

section \<open>Copying one region\<close>

datatype sync_error = ReadError int io_error | WriteError io_error | ShortRead int int int

datatype chunk_result = Continue int | Stopped int | Failed sync_error

text \<open>One iteration of the loop of \<open>syncRegion\<close>: \<open>dn\<close> bytes are already copied.\<close>

definition syncChunk :: "disk \<Rightarrow> ChangedRegion \<Rightarrow> int \<Rightarrow> disk \<Rightarrow> disk \<times> chunk_result" where
  "syncChunk src r dn out =
     (let want = (if rLength r - dn < bufSize then rLength r - dn else bufSize);
          pos = wrap64 (rOffset r + dn);
          (d, err) = readAt src pos (nat want);
          (out', werr) = (if d \<noteq> [] then writeAt out pos d else (out, None));
          dn' = dn + int (length d)
      in case werr of Some e \<Rightarrow> (out', Failed (WriteError e))
         | None \<Rightarrow> (case err of None \<Rightarrow> (out', Continue dn')
            | Some e \<Rightarrow> (out', if e = EOF \<and> dn' \<ge> rLength r then Stopped dn'
                              else Failed (ReadError (wrap64 (rOffset r + dn')) e))))"

lemma syncChunk_progress:
  assumes "syncChunk src r dn out = (out', Continue dn')" "dn < rLength r"
  shows "dn < dn' \<and> dn' \<le> rLength r"
  using assms
  by (auto simp: syncChunk_def readAt_def Let_def bufSize_def split: if_splits option.splits prod.splits)

definition syncRegion_end :: "ChangedRegion \<Rightarrow> int \<Rightarrow> disk \<Rightarrow> disk \<times> sync_error option" where
  "syncRegion_end r dn out =
     (out, if dn \<noteq> rLength r then Some (ShortRead dn (rLength r) (rOffset r)) else None)"

function syncRegion_loop :: "disk \<Rightarrow> ChangedRegion \<Rightarrow> int \<Rightarrow> disk \<Rightarrow> disk \<times> sync_error option" where
  "syncRegion_loop src r dn out =
     (if dn < rLength r then
        (case syncChunk src r dn out of
           (out', Continue dn') \<Rightarrow> syncRegion_loop src r dn' out'
         | (out', Stopped dn') \<Rightarrow> syncRegion_end r dn' out'
         | (out', Failed e) \<Rightarrow> (out', Some e))
      else syncRegion_end r dn out)"
  by pat_completeness auto
termination
  by (relation "measure (\<lambda>(src, r, dn, out). nat (rLength r - dn))")
     (auto dest!: sym [THEN syncChunk_progress])

declare syncRegion_loop.simps [simp del]

text \<open>One iteration of the loop of \<open>writeZeros\<close>.\<close>

definition zerosChunk :: "ChangedRegion \<Rightarrow> int \<Rightarrow> disk \<Rightarrow> disk \<times> chunk_result" where
  "zerosChunk r dn out =
     (let want = (if rLength r - dn < bufSize then rLength r - dn else bufSize);
          (out', werr) = writeAt out (wrap64 (rOffset r + dn)) (replicate (nat want) 0)
      in case werr of Some e \<Rightarrow> (out', Failed (WriteError e)) | None \<Rightarrow> (out', Continue (dn + want)))"

lemma zerosChunk_progress:
  assumes "zerosChunk r dn out = (out', Continue dn')" "dn < rLength r"
  shows "dn < dn' \<and> dn' \<le> rLength r"
  using assms by (auto simp: zerosChunk_def writeAt_def Let_def bufSize_def split: if_splits)

function writeZeros_loop :: "ChangedRegion \<Rightarrow> int \<Rightarrow> disk \<Rightarrow> disk \<times> sync_error option" where
  "writeZeros_loop r dn out =
     (if dn < rLength r then
        (case zerosChunk r dn out of
           (out', Continue dn') \<Rightarrow> writeZeros_loop r dn' out'
         | (out', Stopped dn') \<Rightarrow> (out', None)
         | (out', Failed e) \<Rightarrow> (out', Some e))
      else (out, None))"
  by pat_completeness auto
termination
  by (relation "measure (\<lambda>(r, dn, out). nat (rLength r - dn))")
     (auto dest!: sym [THEN zerosChunk_progress])

declare writeZeros_loop.simps [simp del]

definition writeZeros :: "disk \<Rightarrow> ChangedRegion \<Rightarrow> disk \<times> sync_error option" where
  "writeZeros out r = writeZeros_loop r 0 out"

definition syncRegion :: "disk \<Rightarrow> disk \<Rightarrow> ChangedRegion \<Rightarrow> disk \<times> sync_error option" where
  "syncRegion src out r =
     (if rType r = ''ZEROED'' then writeZeros out r else syncRegion_loop src r 0 out)"

section \<open>The command\<close>

text \<open>The flags after parsing, with the defaults the source declares.\<close>

record flags =
  fSourceFile :: string
  fRegions :: string
  fTarget :: string
  fBlock :: bool
  fWorkers :: int

definition defaultFlags :: flags where
  "defaultFlags = \<lparr>fSourceFile = [], fRegions = ''/config/regions'', fTarget = ''/target/disk.img'',
     fBlock = False, fWorkers = 4\<rparr>"

text \<open>
  The files the command opens: the region list, the disks it reads and writes (\<open>None\<close> when the
  open fails), and whether the final \<^verbatim>\<open>fsync\<close> succeeds.
\<close>

record filesystem =
  fsText :: "string \<Rightarrow> string option"
  fsDisk :: "string \<Rightarrow> disk option"
  fsSyncOk :: bool

text \<open>Three attempts at one region, each from its start.\<close>

fun syncAttempts :: "nat \<Rightarrow> disk \<Rightarrow> disk \<Rightarrow> ChangedRegion \<Rightarrow> disk \<times> sync_error option" where
  "syncAttempts 0 src out r = (out, None)"
| "syncAttempts (Suc n) src out r =
     (case syncRegion src out r of
        (out', None) \<Rightarrow> (out', None)
      | (out', Some e) \<Rightarrow> (if n = 0 then (out', Some e) else syncAttempts n src out' r))"

fun syncAll :: "disk \<Rightarrow> disk \<Rightarrow> ChangedRegion list \<Rightarrow> disk \<times> nat" where
  "syncAll src out [] = (out, 0)"
| "syncAll src out (r # rs) =
     (case syncAttempts 3 src out r of
        (out', None) \<Rightarrow> syncAll src out' rs
      | (out', Some e) \<Rightarrow> (case syncAll src out' rs of (out'', failed) \<Rightarrow> (out'', Suc failed)))"

text \<open>
  The command on parsed flags, with the regions copied one after another: how it ends and the
  target's new contents (\<open>None\<close> when the target was never opened).  A negative worker count makes
  \<^verbatim>\<open>make(chan struct{}, n)\<close> panic, and with no worker slot the first send on \<^verbatim>\<open>sem\<close> blocks for
  ever.  The workers of the source copy concurrently; the last section shows that the order does
  not matter.
\<close>

datatype exit = Exit int | Panicked | Deadlock

definition runDeltaSync :: "flags \<Rightarrow> filesystem \<Rightarrow> exit \<times> disk option" where
  "runDeltaSync fl fs =
     (if fSourceFile fl = [] then (Exit 2, None)
      else case loadRegions (fsText fs (fRegions fl)) of Inl e \<Rightarrow> (Exit 1, None)
      | Inr regions \<Rightarrow>
        (case fsDisk fs (fSourceFile fl) of None \<Rightarrow> (Exit 1, None)
         | Some src \<Rightarrow>
           (case fsDisk fs (fTarget fl) of None \<Rightarrow> (Exit 1, None)
            | Some out \<Rightarrow>
              if fWorkers fl < 0 then (Panicked, Some out)
              else if fWorkers fl = 0 \<and> regions \<noteq> [] then (Deadlock, Some out)
              else (case syncAll src out regions of (out', failed) \<Rightarrow>
                 if failed > 0 then (Exit 1, Some out')
                 else if \<not> fsSyncOk fs then (Exit 1, Some out')
                 else (Exit 0, Some out')))))"

section \<open>Bytes\<close>

definition byteAt :: "disk \<Rightarrow> nat \<Rightarrow> byte" where
  "byteAt f p = (if p < length f then f ! p else 0)"

lemma byteAt_nth: "p < length f \<Longrightarrow> byteAt f p = f ! p"
  by (simp add: byteAt_def)

lemma disk_eqI: "length f = length g \<Longrightarrow> (\<And>p. byteAt f p = byteAt g p) \<Longrightarrow> f = g"
  by (rule nth_equalityI) (metis byteAt_nth)+

text \<open>\<open>patched out out' a b c\<close>: the bytes from \<open>a\<close> up to \<open>b\<close> are those of \<open>c\<close>, the others are unchanged.\<close>

definition patched :: "disk \<Rightarrow> disk \<Rightarrow> int \<Rightarrow> int \<Rightarrow> (nat \<Rightarrow> byte) \<Rightarrow> bool" where
  "patched out out' a b c \<longleftrightarrow> length out' = length out \<and>
     (\<forall>p. byteAt out' p = (if a \<le> int p \<and> int p < b then c p else byteAt out p))"

lemma patched_refl [simp]: "patched out out a a c"
  by (auto simp: patched_def)

lemma patched_trans:
  "patched out out1 a b c \<Longrightarrow> patched out1 out2 b d c \<Longrightarrow> a \<le> b \<Longrightarrow> b \<le> d \<Longrightarrow> patched out out2 a d c"
  by (auto simp: patched_def)

lemma writeAt_patched:
  assumes "0 \<le> a" "nat a + length d \<le> length out" "\<And>i. i < length d \<Longrightarrow> d ! i = c (nat a + i)"
  shows "\<exists>out'. writeAt out a d = (out', None) \<and> patched out out' a (a + int (length d)) c"
proof -
  let ?out' = "take (nat a) (out @ replicate (nat a - length out) 0) @ d @ drop (nat a + length d) out"
  have len: "length ?out' = length out" using assms(2) by simp
  have "byteAt ?out' p = (if a \<le> int p \<and> int p < a + int (length d) then c p else byteAt out p)" for p
  proof (cases "a \<le> int p \<and> int p < a + int (length d)")
    case True
    then obtain i where i: "p = nat a + i" "i < length d"
      using assms(1) by (metis add_diff_inverse_nat int_nat_eq le_eq_less_or_eq nat_int_comparison(2)
          nat_less_iff of_nat_add add_less_cancel_left not_le)
    with True assms show ?thesis by (simp add: byteAt_def nth_append)
  next
    case False
    then have "p < nat a \<or> nat a + length d \<le> p" using assms(1) by linarith
    with False assms show ?thesis by (auto simp: byteAt_def nth_append)
  qed
  with len assms(1) show ?thesis by (simp add: writeAt_def patched_def)
qed


section \<open>The contract of a copy loop\<close>

text \<open>
  What the two copy loops promise their callers: while a region that fits the target is not
  finished, one iteration advances by at least one byte, stays inside the region, writes the
  bytes of \<open>content\<close> and nothing else, and does not fail.
\<close>

locale region_copier =
  fixes chunk :: "ChangedRegion \<Rightarrow> int \<Rightarrow> disk \<Rightarrow> disk \<times> chunk_result"
    and content :: "ChangedRegion \<Rightarrow> nat \<Rightarrow> byte"
    and ready :: "ChangedRegion \<Rightarrow> bool"
  assumes chunk_ok: "region_ok r \<Longrightarrow> ready r \<Longrightarrow> 0 \<le> dn \<Longrightarrow> dn < rLength r \<Longrightarrow>
      rEnd r \<le> int (length out) \<Longrightarrow>
      \<exists>out' dn'. chunk r dn out = (out', Continue dn') \<and> dn < dn' \<and> dn' \<le> rLength r \<and>
        patched out out' (rOffset r + dn) (rOffset r + dn') (content r)"
begin

text \<open>The general loop rule: a loop that runs \<open>chunk\<close> to the end has patched the whole region.\<close>

lemma loop_patches:
  assumes unfold: "\<And>dn out. loop dn out =
      (if dn < rLength r then (case chunk r dn out of
         (out', Continue dn') \<Rightarrow> loop dn' out' | (out', Stopped dn') \<Rightarrow> brk dn' out'
       | (out', Failed e) \<Rightarrow> (out', Some e)) else fin dn out)"
    and fin: "\<And>out. fin (rLength r) out = (out, None)"
    and r: "region_ok r" "ready r" "rEnd r \<le> int (length out)" "0 \<le> dn" "dn \<le> rLength r"
  shows "\<exists>out'. loop dn out = (out', None) \<and> patched out out' (rOffset r + dn) (rEnd r) (content r)"
  using r
proof (induction "nat (rLength r - dn)" arbitrary: dn out rule: less_induct)
  case less
  show ?case
  proof (cases "dn < rLength r")
    case True
    from chunk_ok [OF less.prems(1,2,4) True less.prems(3)] obtain out1 dn1 where
      c: "chunk r dn out = (out1, Continue dn1)" "dn < dn1" "dn1 \<le> rLength r"
        "patched out out1 (rOffset r + dn) (rOffset r + dn1) (content r)" by blast
    then have "rEnd r \<le> int (length out1)" using less.prems(3) by (simp add: patched_def)
    from less.hyps [OF _ less.prems(1,2) this] c True less.prems(4) obtain out2 where
      l: "loop dn1 out1 = (out2, None)" "patched out1 out2 (rOffset r + dn1) (rEnd r) (content r)" by fastforce
    have "loop dn out = loop dn1 out1" by (simp add: unfold [of dn out] c(1) True)
    moreover have "patched out out2 (rOffset r + dn) (rEnd r) (content r)"
      by (rule patched_trans [OF c(4) l(2)]) (use c in \<open>simp_all add: rEnd_def\<close>)
    ultimately show ?thesis using l(1) by simp
  next
    case False
    with less.prems(5) show ?thesis by (subst unfold) (simp add: fin rEnd_def)
  qed
qed

end

lemma syncChunk_ok:
  assumes "region_ok r" "rEnd r \<le> int (length src)" "0 \<le> dn" "dn < rLength r" "rEnd r \<le> int (length out)"
  shows "\<exists>out' dn'. syncChunk src r dn out = (out', Continue dn') \<and> dn < dn' \<and> dn' \<le> rLength r \<and>
     patched out out' (rOffset r + dn) (rOffset r + dn') (byteAt src)"
proof -
  define want where "want = (if rLength r - dn < bufSize then rLength r - dn else bufSize)"
  define pos where "pos = rOffset r + dn"
  define d where "d = take (nat want) (drop (nat pos) src)"
  have w: "0 < want" "want \<le> rLength r - dn" using assms(4) by (auto simp: want_def bufSize_def)
  have pos: "0 \<le> pos" "wrap64 (rOffset r + dn) = pos"
    using assms by (auto simp: pos_def region_ok_def intro!: wrap64_nonneg)
  have room: "pos + want \<le> int (length src)" "pos + want \<le> int (length out)"
    using w assms(2,5) by (simp_all add: pos_def rEnd_def)
  have len: "length d = nat want" using room(1) w pos(1) by (simp add: d_def nat_le_iff)
  have rd: "readAt src pos (nat want) = (d, None)" using pos(1) len by (simp add: readAt_def d_def)
  have bytes: "d ! i = byteAt src (nat pos + i)" if "i < length d" for i
    using that len room(1) pos(1) w by (simp add: d_def byteAt_def) linarith
  have fits: "nat pos + length d \<le> length out" using len room(2) pos(1) w(1) by linarith
  from writeAt_patched [of pos d out "byteAt src", OF pos(1) fits bytes] obtain out' where
    wr: "writeAt out pos d = (out', None)" "patched out out' pos (pos + int (length d)) (byteAt src)" by blast
  have "d \<noteq> []" using len w(1) by auto
  then have "syncChunk src r dn out = (out', Continue (dn + want))"
    using w(1) by (simp add: syncChunk_def want_def [symmetric] pos(2) rd wr(1) len Let_def)
  with wr(2) w len show ?thesis
    by (intro exI [of _ out'] exI [of _ "dn + want"]) (simp add: pos_def add.assoc)
qed

lemma zerosChunk_ok:
  assumes "region_ok r" "0 \<le> dn" "dn < rLength r" "rEnd r \<le> int (length out)"
  shows "\<exists>out' dn'. zerosChunk r dn out = (out', Continue dn') \<and> dn < dn' \<and> dn' \<le> rLength r \<and>
     patched out out' (rOffset r + dn) (rOffset r + dn') (\<lambda>_. 0)"
proof -
  define want where "want = (if rLength r - dn < bufSize then rLength r - dn else bufSize)"
  define pos where "pos = rOffset r + dn"
  have w: "0 < want" "want \<le> rLength r - dn" using assms(3) by (auto simp: want_def bufSize_def)
  have pos: "0 \<le> pos" "wrap64 (rOffset r + dn) = pos"
    using assms by (auto simp: pos_def region_ok_def intro!: wrap64_nonneg)
  have fits: "nat pos + length (replicate (nat want) (0::byte)) \<le> length out"
    using w assms(4) pos(1) by (simp add: pos_def rEnd_def)
  from writeAt_patched [of pos "replicate (nat want) 0" out "\<lambda>_. 0", OF pos(1) fits] obtain out' where
    wr: "writeAt out pos (replicate (nat want) 0) = (out', None)" "patched out out' pos (pos + want) (\<lambda>_. 0)"
    using w(1) by auto
  then have "zerosChunk r dn out = (out', Continue (dn + want))"
    by (simp add: zerosChunk_def want_def [symmetric] pos(2) Let_def)
  with wr(2) w show ?thesis
    by (intro exI [of _ out'] exI [of _ "dn + want"]) (simp add: pos_def add.assoc)
qed

interpretation regular_copier: region_copier "syncChunk src" "\<lambda>_. byteAt src" "\<lambda>r. rEnd r \<le> int (length src)" for src
  by unfold_locales (rule syncChunk_ok)

interpretation zero_copier: region_copier zerosChunk "\<lambda>_ _. 0" "\<lambda>_. True"
  by unfold_locales (rule zerosChunk_ok)

text \<open>What a worker runs on a region, and the bytes it is meant to leave there.\<close>

definition regionChunk :: "disk \<Rightarrow> ChangedRegion \<Rightarrow> int \<Rightarrow> disk \<Rightarrow> disk \<times> chunk_result" where
  "regionChunk src r dn out =
     (if rType r = ''ZEROED'' then zerosChunk r dn out else syncChunk src r dn out)"

definition content :: "disk \<Rightarrow> ChangedRegion \<Rightarrow> nat \<Rightarrow> byte" where
  "content src r p = (if rType r = ''ZEROED'' then 0 else byteAt src p)"

definition readable :: "disk \<Rightarrow> ChangedRegion \<Rightarrow> bool" where
  "readable src r \<longleftrightarrow> rType r = ''ZEROED'' \<or> rEnd r \<le> int (length src)"

lemma content_eqs:
  "rType r = ''ZEROED'' \<Longrightarrow> content src r = (\<lambda>_. 0)" "rType r \<noteq> ''ZEROED'' \<Longrightarrow> content src r = byteAt src"
  by (auto simp: content_def)

interpretation worker_copier: region_copier "regionChunk src" "content src" "readable src" for src
proof
  fix r dn and out :: disk
  assume a: "region_ok r" "readable src r" "0 \<le> dn" "dn < rLength r" "rEnd r \<le> int (length out)"
  show "\<exists>out' dn'. regionChunk src r dn out = (out', Continue dn') \<and> dn < dn' \<and> dn' \<le> rLength r \<and>
      patched out out' (rOffset r + dn) (rOffset r + dn') (content src r)"
    using syncChunk_ok [OF a(1) _ a(3-5), of src] zerosChunk_ok [OF a(1,3-5)] a(2)
    by (auto simp: regionChunk_def content_eqs readable_def)
qed

lemma syncRegion_patches:
  assumes "region_ok r" "readable src r" "rEnd r \<le> int (length out)"
  shows "\<exists>out'. syncRegion src out r = (out', None) \<and> patched out out' (rOffset r) (rEnd r) (content src r)"
proof (cases "rType r = ''ZEROED''")
  case True
  have "\<exists>out'. writeZeros_loop r 0 out = (out', None) \<and> patched out out' (rOffset r + 0) (rEnd r) (\<lambda>_. 0)"
    by (rule zero_copier.loop_patches [where fin = "\<lambda>_ out. (out, None)" and brk = "\<lambda>_ out. (out, None)"])
       (use assms in \<open>auto simp: writeZeros_loop.simps region_ok_def\<close>)
  with True show ?thesis by (simp add: syncRegion_def writeZeros_def content_eqs)
next
  case False
  have "\<exists>out'. syncRegion_loop src r 0 out = (out', None) \<and> patched out out' (rOffset r + 0) (rEnd r) (byteAt src)"
    by (rule regular_copier.loop_patches [where fin = "syncRegion_end r" and brk = "syncRegion_end r"])
       (use assms False in \<open>auto simp: syncRegion_loop.simps syncRegion_end_def region_ok_def readable_def\<close>)
  with False show ?thesis by (simp add: syncRegion_def content_eqs)
qed

lemma syncAttempts_patches:
  assumes "region_ok r" "readable src r" "rEnd r \<le> int (length out)"
  shows "\<exists>out'. syncAttempts (Suc n) src out r = (out', None) \<and> patched out out' (rOffset r) (rEnd r) (content src r)"
  using syncRegion_patches [OF assms] by auto

section \<open>Copying a whole list\<close>

text \<open>
  What the command has to achieve on a list of disjoint regions: every region holds its content,
  every other byte and the size are unchanged.
\<close>

definition synced :: "disk \<Rightarrow> ChangedRegion list \<Rightarrow> disk \<Rightarrow> disk \<Rightarrow> bool" where
  "synced src rs out out' \<longleftrightarrow> length out' = length out \<and>
     (\<forall>p. (\<forall>r\<in>set rs. covers1 r (int p) \<longrightarrow> byteAt out' p = content src r p) \<and>
          (\<not> covered rs (int p) \<longrightarrow> byteAt out' p = byteAt out p))"

definition job_ok :: "disk \<Rightarrow> ChangedRegion list \<Rightarrow> nat \<Rightarrow> bool" where
  "job_ok src rs n \<longleftrightarrow> region_list rs \<and> (\<forall>r\<in>set rs. readable src r \<and> rEnd r \<le> int n)"

lemma job_ok_Cons:
  "job_ok src (r # rs) n \<Longrightarrow> region_ok r \<and> readable src r \<and> rEnd r \<le> int n \<and> job_ok src rs n"
  by (simp add: job_ok_def region_list_def)

lemma separated_covers1: "separated (r # rs) \<Longrightarrow> covers1 r p \<Longrightarrow> \<not> covered rs p"
  by (fastforce simp: covered_def covers1_def)

lemma synced_Cons:
  assumes "separated (r # rs)" "patched out out1 (rOffset r) (rEnd r) (content src r)" "synced src rs out1 out2"
  shows "synced src (r # rs) out out2"
  using assms separated_covers1 [OF assms(1)]
  by (auto simp: synced_def patched_def covers1_def covered_def)

lemma synced_unique:
  assumes "synced src rs out a" "synced src rs out b"
  shows "a = b"
proof (rule disk_eqI)
  fix p show "byteAt a p = byteAt b p"
    using assms by (cases "covered rs (int p)") (auto simp: synced_def covered_def)
qed (use assms in \<open>simp add: synced_def\<close>)

lemma syncAll_synced:
  "job_ok src rs (length out) \<Longrightarrow> \<exists>out'. syncAll src out rs = (out', 0) \<and> synced src rs out out'"
proof (induction rs arbitrary: out)
  case Nil
  then show ?case by (simp add: synced_def)
next
  case (Cons r rs)
  note ok = job_ok_Cons [OF Cons.prems]
  have sep: "separated (r # rs)" using Cons.prems unfolding job_ok_def region_list_def by blast
  from syncAttempts_patches [of r src out 2] ok obtain out1 where
    r: "syncAttempts 3 src out r = (out1, None)" "patched out out1 (rOffset r) (rEnd r) (content src r)"
    by (auto simp: numeral_3_eq_3)
  then have "job_ok src rs (length out1)" using ok by (simp add: patched_def)
  from Cons.IH [OF this] obtain out2 where l: "syncAll src out1 rs = (out2, 0)" "synced src rs out1 out2" by blast
  show ?case using r(1) l(1) synced_Cons [OF sep r(2) l(2)] by simp
qed

section \<open>The outcome of the command\<close>

text \<open>The command line and the files of a run that gets as far as copying.\<close>

definition mounted :: "flags \<Rightarrow> filesystem \<Rightarrow> ChangedRegion list \<Rightarrow> disk \<Rightarrow> disk \<Rightarrow> bool" where
  "mounted fl fs rs src out \<longleftrightarrow> fSourceFile fl \<noteq> [] \<and> 0 < fWorkers fl \<and>
     loadRegions (fsText fs (fRegions fl)) = Inr rs \<and>
     fsDisk fs (fSourceFile fl) = Some src \<and> fsDisk fs (fTarget fl) = Some out"

lemma runDeltaSync_mounted:
  "mounted fl fs rs src out \<Longrightarrow> syncAll src out rs = (out', failed) \<Longrightarrow>
     runDeltaSync fl fs = (Exit (if failed > 0 \<or> \<not> fsSyncOk fs then 1 else 0), Some out')"
  by (auto simp: mounted_def runDeltaSync_def)

lemma runDeltaSync_synced:
  assumes "mounted fl fs rs src out" "fsSyncOk fs" "job_ok src rs (length out)"
  shows "\<exists>out'. runDeltaSync fl fs = (Exit 0, Some out') \<and> synced src rs out out'"
  using syncAll_synced [OF assms(3)] runDeltaSync_mounted [OF assms(1)] assms(2) by fastforce

text \<open>A region that ends behind the end of the source is never reported as copied.\<close>

lemma syncChunk_not_past_end:
  assumes "syncChunk src r dn out = (out', c)" "region_ok r" "0 \<le> dn" "dn < rLength r"
  shows "(\<forall>dn'. c = Continue dn' \<longrightarrow> dn < dn' \<and> dn' \<le> rLength r \<and> rOffset r + dn' \<le> int (length src)) \<and>
    (\<forall>dn'. c \<noteq> Stopped dn')"
proof -
  have "wrap64 (rOffset r + dn) = rOffset r + dn"
    using assms by (auto simp: region_ok_def intro!: wrap64_nonneg)
  then show ?thesis
    using assms
    by (auto simp: syncChunk_def readAt_def Let_def bufSize_def region_ok_def split: if_splits option.splits prod.splits)
qed

lemma syncRegion_loop_reads_all:
  assumes "syncRegion_loop src r dn out = (out', None)" "region_ok r" "0 \<le> dn" "dn \<le> rLength r"
    "dn = 0 \<or> rOffset r + dn \<le> int (length src)"
  shows "rLength r = 0 \<or> rEnd r \<le> int (length src)"
  using assms
proof (induction src r dn out rule: syncRegion_loop.induct)
  case (1 src r dn out)
  show ?case
  proof (cases "dn < rLength r")
    case True
    obtain out1 c where c: "syncChunk src r dn out = (out1, c)" by fastforce
    note np = syncChunk_not_past_end [OF c 1(3,4) True]
    from np 1(2) True c obtain dn1 where d: "c = Continue dn1"
      by (cases c) (auto simp: syncRegion_loop.simps [of src r dn])
    with 1(2) True c have "syncRegion_loop src r dn1 out1 = (out', None)"
      by (simp add: syncRegion_loop.simps [of src r dn])
    with np d 1(4) show ?thesis by (intro 1(1) [OF True c [symmetric] d _ 1(3)]) auto
  next
    case False
    with 1 show ?thesis by (auto simp: rEnd_def)
  qed
qed

lemma syncRegion_readable:
  assumes "syncRegion src out r = (out', None)" "region_ok r" "0 < rLength r"
  shows "readable src r"
  using assms syncRegion_loop_reads_all [of src r 0 out out']
  by (auto simp: syncRegion_def readable_def split: if_splits)

lemma syncAttempts_readable:
  "syncAttempts (Suc n) src out r = (out', None) \<Longrightarrow> region_ok r \<Longrightarrow> 0 < rLength r \<Longrightarrow> readable src r"
proof (induction n arbitrary: out)
  case (Suc n)
  then show ?case
    by (cases "syncRegion src out r"; cases "snd (syncRegion src out r)")
       (auto dest: syncRegion_readable simp del: syncAttempts.simps simp: syncAttempts.simps(2) [of "Suc n"])
qed (auto dest: syncRegion_readable split: option.splits prod.splits)

lemma syncAll_readable:
  "syncAll src out rs = (out', 0) \<Longrightarrow> \<forall>r\<in>set rs. region_ok r \<and> 0 < rLength r \<Longrightarrow> \<forall>r\<in>set rs. readable src r"
proof (induction rs arbitrary: out)
  case (Cons r rs)
  then show ?case
    by (auto simp: numeral_3_eq_3 simp del: syncAttempts.simps dest: syncAttempts_readable
        split: prod.splits option.splits)
qed simp

section \<open>The workers\<close>

text \<open>
  The goroutines of the command.  A region waits, is being copied (the number of the attempt and
  the bytes done so far), is done or has failed three times.  A step starts the next region in a
  free slot of the semaphore, runs one iteration of a copy loop, or lets the I/O of one iteration
  fail after a prefix of its bytes was written; a failed attempt starts again from the beginning.
\<close>

datatype task = Waiting | Running nat int | Copied | Exhausted

definition failTask :: "nat \<Rightarrow> task" where
  "failTask attempt = (if attempt < 3 then Running (Suc attempt) 0 else Exhausted)"

definition finishTask :: "ChangedRegion \<Rightarrow> nat \<Rightarrow> int \<Rightarrow> task" where
  "finishTask r attempt dn = (if rType r = ''ZEROED'' \<or> dn = rLength r then Copied else failTask attempt)"

definition taskStep :: "disk \<Rightarrow> ChangedRegion \<Rightarrow> nat \<Rightarrow> int \<Rightarrow> disk \<Rightarrow> disk \<times> task" where
  "taskStep src r attempt dn out =
     (if dn < rLength r then
        (case regionChunk src r dn out of
           (out', Continue dn') \<Rightarrow> (out', Running attempt dn')
         | (out', Stopped dn') \<Rightarrow> (out', finishTask r attempt dn')
         | (out', Failed e) \<Rightarrow> (out', failTask attempt))
      else (out, finishTask r attempt dn))"

definition faultWrite :: "disk \<Rightarrow> ChangedRegion \<Rightarrow> int \<Rightarrow> nat \<Rightarrow> disk \<Rightarrow> disk" where
  "faultWrite src r dn k out =
     fst (writeAt out (wrap64 (rOffset r + dn))
       (if rType r = ''ZEROED'' then replicate k 0 else take k (drop (nat (wrap64 (rOffset r + dn))) src)))"

definition running :: "task list \<Rightarrow> nat" where
  "running ts = length (filter (\<lambda>t. case t of Running _ _ \<Rightarrow> True | _ \<Rightarrow> False) ts)"

inductive ds_step :: "disk \<Rightarrow> ChangedRegion list \<Rightarrow> int \<Rightarrow> task list \<times> disk \<Rightarrow> task list \<times> disk \<Rightarrow> bool"
  for src :: disk and rs :: "ChangedRegion list" and workers :: int where
  spawn: "i < length ts \<Longrightarrow> ts ! i = Waiting \<Longrightarrow> Waiting \<notin> set (take i ts) \<Longrightarrow> int (running ts) < workers \<Longrightarrow>
    ds_step src rs workers (ts, out) (ts[i := Running 1 0], out)"
| work: "i < length ts \<Longrightarrow> ts ! i = Running a dn \<Longrightarrow> taskStep src (rs ! i) a dn out = (out', t) \<Longrightarrow>
    ds_step src rs workers (ts, out) (ts[i := t], out')"
| fault: "i < length ts \<Longrightarrow> ts ! i = Running a dn \<Longrightarrow> dn < rLength (rs ! i) \<Longrightarrow>
    int k \<le> bufSize \<Longrightarrow> dn + int k \<le> rLength (rs ! i) \<Longrightarrow>
    ds_step src rs workers (ts, out) (ts[i := failTask a], faultWrite src (rs ! i) dn k out)"

inductive_cases ds_stepE: "ds_step src rs workers (ts, out) s'"

definition ds_init :: "ChangedRegion list \<Rightarrow> disk \<Rightarrow> task list \<times> disk" where
  "ds_init rs out = (replicate (length rs) Waiting, out)"

inductive ds_reach :: "disk \<Rightarrow> ChangedRegion list \<Rightarrow> int \<Rightarrow> disk \<Rightarrow> task list \<times> disk \<Rightarrow> bool"
  for src :: disk and rs :: "ChangedRegion list" and workers :: int and base :: disk where
  init: "ds_reach src rs workers base (ds_init rs base)"
| step: "ds_reach src rs workers base s \<Longrightarrow> ds_step src rs workers s s' \<Longrightarrow> ds_reach src rs workers base s'"

subsection \<open>What every interleaving keeps\<close>

definition copied :: "disk \<Rightarrow> ChangedRegion \<Rightarrow> int \<Rightarrow> disk \<Rightarrow> bool" where
  "copied src r e out \<longleftrightarrow> (\<forall>p. rOffset r \<le> int p \<and> int p < e \<longrightarrow> byteAt out p = content src r p)"

fun task_inv :: "disk \<Rightarrow> ChangedRegion \<Rightarrow> task \<Rightarrow> disk \<Rightarrow> bool" where
  "task_inv src r (Running a dn) out \<longleftrightarrow> 0 \<le> dn \<and> dn \<le> rLength r \<and> copied src r (rOffset r + dn) out"
| "task_inv src r Copied out \<longleftrightarrow> copied src r (rEnd r) out"
| "task_inv src r _ out \<longleftrightarrow> True"

text \<open>Every byte is the original one or the one its region is meant to hold.\<close>

definition between :: "disk \<Rightarrow> ChangedRegion list \<Rightarrow> disk \<Rightarrow> disk \<Rightarrow> bool" where
  "between src rs base out \<longleftrightarrow> length out = length base \<and>
     (\<forall>p. byteAt out p = byteAt base p \<or> (\<exists>r\<in>set rs. covers1 r (int p) \<and> byteAt out p = content src r p))"

definition ds_inv :: "disk \<Rightarrow> ChangedRegion list \<Rightarrow> disk \<Rightarrow> task list \<times> disk \<Rightarrow> bool" where
  "ds_inv src rs base s \<longleftrightarrow> length (fst s) = length rs \<and> between src rs base (snd s) \<and>
     (\<forall>i<length rs. task_inv src (rs ! i) (fst s ! i) (snd s))"

lemma copied_0 [simp]: "copied src r (rOffset r) out"
  by (auto simp: copied_def)

lemma task_inv_failTask [simp]: "region_ok r \<Longrightarrow> task_inv src r (failTask a) out"
  by (simp add: failTask_def region_ok_def)

lemma separated_nth:
  assumes "region_list rs" "i < length rs" "j < length rs" "i \<noteq> j" "covers1 (rs ! i) p"
  shows "\<not> covers1 (rs ! j) p"
proof -
  have w: "sorted_wrt (\<lambda>a b. rEnd a \<le> rOffset b) rs" using assms(1) by (simp add: region_list_def)
  from assms(4) consider "i < j" | "j < i" by linarith
  then show ?thesis
    using sorted_wrt_nth_less [OF w] assms(2,3,5) by cases (fastforce simp: covers1_def)+
qed

text \<open>A step that writes content inside its own region disturbs no other worker.\<close>

lemma ds_inv_write:
  assumes inv: "ds_inv src rs base (ts, out)" and l: "region_list rs" and i: "i < length rs"
    and w: "patched out out' a b (content src (rs ! i))" "rOffset (rs ! i) \<le> a" "b \<le> rEnd (rs ! i)"
    and t: "task_inv src (rs ! i) t out'"
  shows "ds_inv src rs base (ts[i := t], out')"
proof -
  have len: "length ts = length rs" using inv by (simp add: ds_inv_def)
  have same: "byteAt out' p = byteAt out p" if "\<not> covers1 (rs ! i) (int p)" for p
    using that w by (auto simp: patched_def covers1_def)
  have "byteAt out' p = byteAt base p \<or> (\<exists>r\<in>set rs. covers1 r (int p) \<and> byteAt out' p = content src r p)" for p
  proof (cases "a \<le> int p \<and> int p < b")
    case True
    with w i show ?thesis by (intro disjI2 bexI [of _ "rs ! i"]) (auto simp: patched_def covers1_def)
  next
    case False
    with w(1) inv show ?thesis by (auto simp: patched_def ds_inv_def between_def)
  qed
  then have "between src rs base out'"
    using inv w(1) by (simp add: ds_inv_def between_def patched_def)
  moreover have "task_inv src (rs ! j) (ts ! j) out'" if j: "j < length rs" "j \<noteq> i" for j
  proof -
    have c: "copied src (rs ! j) e out \<Longrightarrow> e \<le> rEnd (rs ! j) \<Longrightarrow> copied src (rs ! j) e out'" for e
      using same separated_nth [OF l j(1) i j(2)] unfolding copied_def covers1_def
      by (metis order_less_le_trans)
    have "task_inv src (rs ! j) (ts ! j) out" using inv j by (simp add: ds_inv_def)
    then show ?thesis by (cases "ts ! j") (auto intro: c simp: rEnd_def)
  qed
  ultimately show ?thesis using t len i by (auto simp: ds_inv_def nth_list_update)
qed

lemma copied_patched:
  "copied src r a out \<Longrightarrow> patched out out' a b (content src r) \<Longrightarrow> copied src r b out'"
  by (auto simp: copied_def patched_def)

lemma taskStep_ok:
  assumes ok: "region_ok r" "readable src r" "rEnd r \<le> int (length out)" and inv: "task_inv src r (Running a dn) out"
    and st: "taskStep src r a dn out = (out', t)"
  shows "\<exists>b. patched out out' (rOffset r + dn) b (content src r) \<and> b \<le> rEnd r \<and> task_inv src r t out'"
proof (cases "dn < rLength r")
  case True
  from inv have dn: "0 \<le> dn" "copied src r (rOffset r + dn) out" by simp_all
  from worker_copier.chunk_ok [OF ok(1,2) dn(1) True ok(3)] obtain dn' where
    c: "regionChunk src r dn out = (out', Continue dn')" "dn < dn'" "dn' \<le> rLength r"
      "patched out out' (rOffset r + dn) (rOffset r + dn') (content src r)" and t: "t = Running a dn'"
    using st True by (fastforce simp: taskStep_def)
  show ?thesis
    using c dn t copied_patched [OF dn(2) c(4)] by (intro exI [of _ "rOffset r + dn'"]) (simp add: rEnd_def)
next
  case False
  with inv st have "dn = rLength r" "out' = out" "t = Copied" by (auto simp: taskStep_def finishTask_def)
  with inv show ?thesis by (intro exI [of _ "rEnd r"]) (auto simp: rEnd_def)
qed

lemma faultWrite_patched:
  assumes "region_ok r" "readable src r" "rEnd r \<le> int (length out)" "0 \<le> dn" "dn + int k \<le> rLength r"
  shows "patched out (faultWrite src r dn k out) (rOffset r + dn) (rOffset r + dn + int k) (content src r)"
proof -
  define d where "d = (if rType r = ''ZEROED'' then replicate k 0 else take k (drop (nat (rOffset r + dn)) src))"
  have pos: "0 \<le> rOffset r + dn" "wrap64 (rOffset r + dn) = rOffset r + dn"
    using assms by (auto simp: region_ok_def intro!: wrap64_nonneg)
  have end_src: "rType r \<noteq> ''ZEROED'' \<Longrightarrow> nat (rOffset r + dn) + k \<le> length src"
    using assms(2,5) pos by (auto simp: readable_def rEnd_def)
  have len: "length d = k" using end_src by (auto simp: d_def)
  have fits: "nat (rOffset r + dn) + length d \<le> length out" using assms(3,5) pos len by (simp add: rEnd_def)
  have bytes: "d ! i = content src r (nat (rOffset r + dn) + i)" if "i < length d" for i
    using that end_src len by (auto simp: d_def content_def byteAt_def)
  show ?thesis
    using writeAt_patched [of "rOffset r + dn" d out "content src r", OF pos(1) fits bytes] len
    by (auto simp: faultWrite_def d_def pos(2))
qed

lemma ds_inv_running:
  assumes "ds_inv src rs base (ts, out)" "i < length ts" "ts ! i = Running a dn"
  shows "i < length rs" "task_inv src (rs ! i) (Running a dn) out" "length out = length base"
  using assms by (fastforce simp: ds_inv_def between_def)+

lemma ds_step_inv:
  assumes ok: "job_ok src rs (length base)" and st: "ds_step src rs workers s s'" and inv: "ds_inv src rs base s"
  shows "ds_inv src rs base s'"
  using st
proof cases
  case (spawn i ts out)
  with ok inv show ?thesis
    by (auto simp: ds_inv_def nth_list_update job_ok_def region_list_def region_ok_def)
next
  case (work i ts a dn out out' t)
  have i: "i < length rs" and ti: "task_inv src (rs ! i) (Running a dn) out" and len: "length out = length base"
    using ds_inv_running [OF inv [unfolded work(1)] work(3,4)] by simp_all
  have r: "region_ok (rs ! i)" "readable src (rs ! i)" "rEnd (rs ! i) \<le> int (length out)" "region_list rs"
    using ok i len by (auto simp: job_ok_def region_list_def)
  from taskStep_ok [OF r(1-3) ti work(5)] obtain b where
    "patched out out' (rOffset (rs ! i) + dn) b (content src (rs ! i))" "b \<le> rEnd (rs ! i)" "task_inv src (rs ! i) t out'"
    by blast
  then show ?thesis using inv ti unfolding work(1,2) by (intro ds_inv_write [OF _ r(4) i]) auto
next
  case (fault i ts a dn k out)
  have i: "i < length rs" and ti: "task_inv src (rs ! i) (Running a dn) out" and len: "length out = length base"
    using ds_inv_running [OF inv [unfolded fault(1)] fault(3,4)] by simp_all
  have r: "region_ok (rs ! i)" "readable src (rs ! i)" "rEnd (rs ! i) \<le> int (length out)" "region_list rs"
    using ok i len by (auto simp: job_ok_def region_list_def)
  show ?thesis
    unfolding fault(1,2)
    by (rule ds_inv_write [OF _ r(4) i faultWrite_patched [OF r(1-3)]])
       (use inv ti fault r(1) in \<open>auto simp: rEnd_def\<close>)
qed

lemma ds_init_inv: "ds_inv src rs base (ds_init rs base)"
  by (simp add: ds_init_def ds_inv_def between_def)

lemma ds_reach_inv: "ds_reach src rs workers base s \<Longrightarrow> job_ok src rs (length base) \<Longrightarrow> ds_inv src rs base s"
  by (induction rule: ds_reach.induct) (blast intro: ds_init_inv ds_step_inv)+

lemma ds_inv_done:
  assumes "ds_inv src rs base (ts, out)" "set ts \<subseteq> {Copied}"
  shows "synced src rs base out"
proof -
  have len: "length out = length base" "length ts = length rs"
    using assms(1) by (simp_all add: ds_inv_def between_def)
  have "copied src r (rEnd r) out" if r: "r \<in> set rs" for r
  proof -
    from r obtain i where i: "i < length rs" "r = rs ! i" by (auto simp: in_set_conv_nth)
    with assms(2) len have "ts ! i = Copied" by (metis nth_mem singletonD subsetD)
    with assms(1) i show ?thesis unfolding ds_inv_def by (metis fst_conv snd_conv task_inv.simps(2))
  qed
  moreover have "byteAt out p = byteAt base p" if "\<not> covered rs (int p)" for p
    using assms(1) that by (auto simp: ds_inv_def between_def covered_def)
  ultimately show ?thesis using len by (auto simp: synced_def copied_def covers1_def)
qed

text \<open>Copying again over a half-finished target gives what copying over the original gives.\<close>

lemma synced_between:
  assumes "between src rs base out" "synced src rs out out'"
  shows "synced src rs base out'"
proof -
  have "byteAt out' p = byteAt base p" if "\<not> covered rs (int p)" for p
    using assms that by (auto simp: synced_def between_def covered_def)
  with assms show ?thesis by (simp add: synced_def between_def)
qed

subsection \<open>The workers always finish\<close>

text \<open>
  The work a region still causes at most: the bytes left of the running attempt, a whole region
  for every attempt left, one step to finish and one to start.
\<close>

fun task_weight :: "ChangedRegion \<Rightarrow> task \<Rightarrow> nat" where
  "task_weight r Waiting = 3 * (nat (rLength r) + 2) + 1"
| "task_weight r (Running a dn) = (3 - a) * (nat (rLength r) + 2) + nat (rLength r - dn) + 1"
| "task_weight r _ = 0"

definition ds_weight :: "ChangedRegion list \<Rightarrow> task list \<times> disk \<Rightarrow> nat" where
  "ds_weight rs s = (\<Sum>i<length (fst s). task_weight (rs ! i) (fst s ! i))"

lemma failTask_weight: "task_weight r (failTask a) < task_weight r (Running a dn)"
proof (cases "a < 3")
  case True
  define w where "w = nat (rLength r) + 2"
  from True have "3 - a = Suc (3 - Suc a)" by simp
  then have "(3 - a) * w = (3 - Suc a) * w + w" by (metis add.commute mult_Suc)
  moreover have "nat (rLength r) < w" by (simp add: w_def)
  ultimately show ?thesis
    unfolding failTask_def task_weight.simps if_P [OF True] w_def [symmetric] by simp
qed (simp add: failTask_def)

lemma finishTask_weight: "task_weight r (finishTask r a dn') < task_weight r (Running a dn)"
  using failTask_weight [of r a dn] by (simp add: finishTask_def)

lemma regionChunk_progress:
  "regionChunk src r dn out = (out', Continue dn') \<Longrightarrow> dn < rLength r \<Longrightarrow> dn < dn' \<and> dn' \<le> rLength r"
  by (auto simp: regionChunk_def dest: syncChunk_progress zerosChunk_progress split: if_splits)

lemma taskStep_weight:
  "taskStep src r a dn out = (out', t) \<Longrightarrow> task_weight r t < task_weight r (Running a dn)"
  using failTask_weight [of r a dn] finishTask_weight [of r a _ dn] regionChunk_progress [of src r dn out]
  by (fastforce simp: taskStep_def split: if_splits prod.splits chunk_result.splits)

lemma ds_weight_update:
  assumes "i < length ts" "task_weight (rs ! i) t < task_weight (rs ! i) (ts ! i)"
  shows "ds_weight rs (ts[i := t], out') < ds_weight rs (ts, out)"
  unfolding ds_weight_def
  by (simp, rule sum_strict_mono_ex1) (use assms in \<open>auto simp: nth_list_update\<close>)

lemma ds_step_weight: "ds_step src rs workers s s' \<Longrightarrow> ds_weight rs s' < ds_weight rs s"
  by (induction rule: ds_step.induct)
     (rule ds_weight_update; simp add: taskStep_weight failTask_weight del: task_weight.simps(2); simp)+

lemma wf_ds_step: "wfp (\<lambda>s' s. ds_step src rs workers s s')"
  by (rule wfp_if_convertible_to_nat [where f = "ds_weight rs"]) (rule ds_step_weight)

lemma running_0: "\<forall>i<length ts. \<forall>a dn. ts ! i \<noteq> Running a dn \<Longrightarrow> running ts = 0"
  by (auto simp: running_def filter_empty_conv in_set_conv_nth split: task.splits)

lemma first_waiting:
  assumes "Waiting \<in> set ts"
  obtains i where "i < length ts" "ts ! i = Waiting" "Waiting \<notin> set (take i ts)"
proof -
  from split_list_first [OF assms] obtain ys zs where "ts = ys @ Waiting # zs" "Waiting \<notin> set ys" by blast
  then show ?thesis by (intro that [of "length ys"]) simp_all
qed

lemma ds_not_stuck:
  assumes "0 < workers" "\<not> set ts \<subseteq> {Copied, Exhausted}"
  shows "\<exists>s'. ds_step src rs workers (ts, out) s'"
proof (cases "\<exists>i<length ts. \<exists>a dn. ts ! i = Running a dn")
  case True
  then obtain i a dn where i: "i < length ts" "ts ! i = Running a dn" by blast
  obtain out' t where "taskStep src (rs ! i) a dn out = (out', t)" by fastforce
  from ds_step.work [OF i this] show ?thesis by blast
next
  case False
  have "Waiting \<in> set ts"
  proof -
    from assms(2) obtain i where "i < length ts" "ts ! i \<notin> {Copied, Exhausted}" by (auto simp: in_set_conv_nth subset_iff)
    with False have "ts ! i = Waiting" by (cases "ts ! i") auto
    with \<open>i < length ts\<close> show ?thesis by (metis nth_mem)
  qed
  then obtain i where "i < length ts" "ts ! i = Waiting" "Waiting \<notin> set (take i ts)" by (rule first_waiting)
  moreover from running_0 [of ts] False assms(1) have "int (running ts) < workers" by auto
  ultimately show ?thesis by (blast intro: ds_step.spawn)
qed

lemma ds_settled_stuck: "set ts \<subseteq> {Copied, Exhausted} \<Longrightarrow> \<not> ds_step src rs workers (ts, out) s'"
  by (auto elim!: ds_stepE) (metis nth_mem subsetD insertE singletonD task.distinct empty_iff)+

section \<open>Properties\<close>

text \<open>
  What the command does with a list that is true of the source but not necessarily complete with respect to the
  target: reported bytes are those of the source afterwards, every other byte keeps its value or gets the source's,
  and the part of the target behind the end of the source is not touched.
\<close>

definition refreshed :: "disk \<Rightarrow> ChangedRegion list \<Rightarrow> disk \<Rightarrow> disk \<Rightarrow> bool" where
  "refreshed src rs out out' \<longleftrightarrow> length out' = length out \<and>
     (\<forall>p. p < length src \<and> byteAt out' p = byteAt src p \<or>
        (length src \<le> p \<or> \<not> covered rs (int p)) \<and> byteAt out' p = byteAt out p)"

text \<open>The bytes reported as zeroed, and those that merging adds to them, are zero in the source.\<close>

definition zeroed_ok :: "ChangedRegion list \<Rightarrow> disk \<Rightarrow> bool" where
  "zeroed_ok rs src \<longleftrightarrow>
     (\<forall>p<length src. covers rs ''ZEROED'' (int p) \<or> gap_byte rs (2 ^ 30) ''ZEROED'' (int p) \<longrightarrow> src ! p = 0)"

lemma prepared_content:
  assumes "region_list rs" "zeroed_ok rs src" "r \<in> set (prepareRegions rs)" "covers1 r (int p)"
  shows "content src r p = byteAt src p"
proof -
  have "rType r = ''ZEROED'' \<Longrightarrow> byteAt src p = 0"
    using prepareRegions_exact_aux(2) [OF assms(1), of "''ZEROED''" "int p"] assms(2-4)
    by (auto simp: covers_def byteAt_def zeroed_ok_def)
  then show ?thesis by (simp add: content_def)
qed

lemma prepared_covered: "region_list rs \<Longrightarrow> covered rs p \<Longrightarrow> covered (prepareRegions rs) p"
  using prepareRegions_covers_aux by (auto simp: covered_iff_covers)

lemma synced_refreshed:
  assumes "region_list rs" "list_all (\<lambda>r. rEnd r \<le> int (length src)) rs" "zeroed_ok rs src"
    "synced src (prepareRegions rs) out out'"
  shows "refreshed src rs out out'"
  unfolding refreshed_def
proof (intro conjI allI)
  fix p show "p < length src \<and> byteAt out' p = byteAt src p \<or>
      (length src \<le> p \<or> \<not> covered rs (int p)) \<and> byteAt out' p = byteAt out p"
  proof (cases "covered (prepareRegions rs) (int p)")
    case True
    then obtain r where r: "r \<in> set (prepareRegions rs)" "covers1 r (int p)" by (auto simp: covered_def)
    then have "rEnd r \<le> int (length src)" using prepareRegions_ends [OF assms(1,2)] by (simp add: list_all_iff)
    with r(2) have "p < length src" by (simp add: covers1_def)
    then show ?thesis using r assms(4) prepared_content [OF assms(1,3) r] by (auto simp: synced_def)
  next
    case False
    then show ?thesis using assms(1,4) prepared_covered by (auto simp: synced_def)
  qed
qed (use assms(4) in \<open>simp add: synced_def\<close>)

lemma prepared_job_ok:
  assumes "region_list rs" "list_all (\<lambda>r. rEnd r \<le> int (length src)) rs" "length src \<le> length out"
  shows "job_ok src (prepareRegions rs) (length out)"
  using prepareRegions_exact_aux(1) [OF assms(1)] prepareRegions_ends [OF assms(1,2)] assms(3)
  by (fastforce simp: job_ok_def readable_def list_all_iff)

lemma delta_sync_refreshes:
  assumes list: "region_list rs" "\<forall>r\<in>set rs. wire_region r" "list_all (\<lambda>r. rEnd r \<le> int (length src)) rs"
    and base: "length src \<le> length base" and zeroed: "zeroed_ok rs src"
    and rendered: "fsText fs (fRegions fl) = Some (renderRegions (prepareRegions rs))"
    and files: "fSourceFile fl \<noteq> []" "0 < fWorkers fl" "fsDisk fs (fSourceFile fl) = Some src"
      "fsDisk fs (fTarget fl) = Some base" "fsSyncOk fs"
  shows "\<exists>out. runDeltaSync fl fs = (Exit 0, Some out) \<and> refreshed src rs base out"
proof -
  have m: "mounted fl fs (prepareRegions rs) src base"
    using files rendered prepareRegions_wire [OF list(1,2)] by (auto simp: mounted_def intro!: loadRegions_render)
  from runDeltaSync_synced [OF m files(5) prepared_job_ok [OF list(1,3) base]] synced_refreshed [OF list(1,3) zeroed]
  show ?thesis by blast
qed

lemma refreshed_complete:
  assumes "refreshed src rs base out" "length src \<le> length base"
    "\<forall>p<length src. base ! p \<noteq> src ! p \<longrightarrow> covered rs (int p)"
  shows "out = src @ drop (length src) base"
proof (rule disk_eqI)
  fix p
  have r: "p < length src \<and> byteAt out p = byteAt src p \<or>
      (length src \<le> p \<or> \<not> covered rs (int p)) \<and> byteAt out p = byteAt base p"
    using assms(1) unfolding refreshed_def by blast
  with assms(2,3) show "byteAt out p = byteAt (src @ drop (length src) base) p"
    by (cases "p < length src") (auto simp: byteAt_def nth_append)
qed (use assms in \<open>simp add: refreshed_def\<close>)

lemma delta_sync_core:
  assumes list: "region_list rs" "\<forall>r\<in>set rs. wire_region r" "list_all (\<lambda>r. rEnd r \<le> int (length src)) rs"
    and base: "length src \<le> length base" "\<forall>p<length src. base ! p \<noteq> src ! p \<longrightarrow> covered rs (int p)"
    and zeroed: "\<forall>p<length src. covers rs ''ZEROED'' (int p) \<or> gap_byte rs (2 ^ 30) ''ZEROED'' (int p) \<longrightarrow> src ! p = 0"
    and rendered: "fsText fs (fRegions fl) = Some (renderRegions (prepareRegions rs))"
    and files: "fSourceFile fl \<noteq> []" "0 < fWorkers fl" "fsDisk fs (fSourceFile fl) = Some src"
      "fsDisk fs (fTarget fl) = Some base" "fsSyncOk fs"
  shows "runDeltaSync fl fs = (Exit 0, Some (src @ drop (length src) base))"
  using delta_sync_refreshes [OF list base(1) _ rendered files] zeroed refreshed_complete [OF _ base]
  unfolding zeroed_ok_def by blast

text \<open>A snapshot, an older copy of it, and the changed regions between them.\<close>

definition sampleSrc :: disk where "sampleSrc = [1, 2, 3, 0]"

definition sampleBase :: disk where "sampleBase = [9, 2, 3, 7]"

definition sampleDelta :: "ChangedRegion list" where
  "sampleDelta = [region 0 1 ''REGULAR'', region 3 1 ''ZEROED'']"

definition sampleFlags :: flags where
  "sampleFlags = defaultFlags\<lparr>fSourceFile := ''/source/snap''\<rparr>"

definition sampleFs :: "string \<Rightarrow> filesystem" where
  "sampleFs txt = \<lparr>fsText = [''/config/regions'' \<mapsto> txt],
     fsDisk = [''/source/snap'' \<mapsto> sampleSrc, ''/target/disk.img'' \<mapsto> sampleBase], fsSyncOk = True\<rparr>"

lemmas sample_defs = sampleSrc_def sampleBase_def sampleDelta_def sampleFlags_def defaultFlags_def sampleFs_def

lemma sampleDelta_ok: "region_list sampleDelta" "\<forall>r\<in>set sampleDelta. wire_region r"
  by (simp_all add: sampleDelta_def region_list_def region_ok_def rEnd_def wire_region_def in64_def)

lemma sampleDelta_prepared: "prepareRegions sampleDelta = sampleDelta"
  by (simp add: prepareRegions_def prepareRegions_loop.simps sampleDelta_def mergeRegions_loop.simps
      regionMergeGap_def maxRegionsPerJob_def wrap64_def)

lemma sampleDelta_job: "job_ok sampleSrc sampleDelta (length sampleBase)"
  using sampleDelta_ok(1) by (simp add: job_ok_def readable_def sample_defs rEnd_def)

lemma sampleDelta_mounted: "mounted sampleFlags (sampleFs (renderRegions sampleDelta)) sampleDelta sampleSrc sampleBase"
  using loadRegions_render [of sampleDelta] sampleDelta_ok(2)
  by (simp add: mounted_def sampleFlags_def defaultFlags_def sampleFs_def)

lemma sampleDelta_facts:
  "list_all (\<lambda>r. rEnd r \<le> int (length sampleSrc)) sampleDelta" "length sampleSrc \<le> length sampleBase"
  "\<forall>p<length sampleSrc. sampleBase ! p \<noteq> sampleSrc ! p \<longrightarrow> covered sampleDelta (int p)"
  "\<forall>p<length sampleSrc. covers sampleDelta ''ZEROED'' (int p) \<or>
      gap_byte sampleDelta (2 ^ 30) ''ZEROED'' (int p) \<longrightarrow> sampleSrc ! p = 0"
  by (auto simp: sample_defs less_Suc_eq numeral_eq_Suc covers1_def rEnd_def gap_byte_def)

text \<open>C3: The delta synchronisation end to end.  Let the changed regions of a snapshot against the copy on
  the target be ordered, disjoint and inside the disk, contain every byte in which the two differ, and let
  the bytes marked \<open>ZEROED\<close>, and the unmarked bytes between two \<open>ZEROED\<close> regions, be zero in the snapshot.
  Then the command, given the list the controller prepared and rendered, exits with 0 and leaves the
  snapshot on the target, byte for byte; a target that is larger than the snapshot keeps its tail.\<close>

theorem delta_sync_restores_snapshot:
  assumes list: "region_list rs" "\<forall>r\<in>set rs. wire_region r" "list_all (\<lambda>r. rEnd r \<le> int (length src)) rs"
    and base: "length src \<le> length base" "\<forall>p<length src. base ! p \<noteq> src ! p \<longrightarrow> covered rs (int p)"
    and zeroed: "\<forall>p<length src. covers rs ''ZEROED'' (int p) \<or> gap_byte rs (2 ^ 30) ''ZEROED'' (int p) \<longrightarrow> src ! p = 0"
    and rendered: "fsText fs (fRegions fl) = Some (renderRegions (prepareRegions rs))"
    and files: "fSourceFile fl \<noteq> []" "0 < fWorkers fl" "fsDisk fs (fSourceFile fl) = Some src"
      "fsDisk fs (fTarget fl) = Some base" "fsSyncOk fs"
  shows "runDeltaSync fl fs = (Exit 0, Some (src @ drop (length src) base))"
  by (rule delta_sync_core [OF assms])

theorem delta_sync_restores_snapshot_witness:
  "sampleBase \<noteq> sampleSrc \<and> length sampleSrc \<le> length sampleBase \<and>
   runDeltaSync sampleFlags (sampleFs (renderRegions (prepareRegions sampleDelta))) =
     (Exit 0, Some (sampleSrc @ drop (length sampleSrc) sampleBase))"
proof -
  let ?fs = "sampleFs (renderRegions (prepareRegions sampleDelta))"
  have files: "fsText ?fs (fRegions sampleFlags) = Some (renderRegions (prepareRegions sampleDelta))"
    "fSourceFile sampleFlags \<noteq> []" "0 < fWorkers sampleFlags"
    "fsDisk ?fs (fSourceFile sampleFlags) = Some sampleSrc" "fsDisk ?fs (fTarget sampleFlags) = Some sampleBase"
    "fsSyncOk ?fs"
    by (simp_all add: sampleFlags_def defaultFlags_def sampleFs_def)
  show ?thesis
    using delta_sync_restores_snapshot [OF sampleDelta_ok sampleDelta_facts files] by (simp add: sampleSrc_def sampleBase_def)
qed




text \<open>C4: The workers may interleave their reads and writes in any order, with any number of worker slots,
  and single attempts may fail half-way and be repeated: once every region is reported done, the target
  holds exactly what copying the regions one after another gives.\<close>

theorem concurrent_workers_agree:
  assumes "job_ok src rs (length base)" and "ds_reach src rs workers base (ts, out)" and "set ts \<subseteq> {Copied}"
  shows "syncAll src base rs = (out, 0)"
  using syncAll_synced [OF assms(1)] ds_inv_done [OF ds_reach_inv [OF assms(2,1)] assms(3)]
  by (auto dest: synced_unique)

text \<open>A run of two workers: the first attempt at the first region fails after its byte was written.\<close>

lemmas sample_run_simps = sample_defs taskStep_def finishTask_def failTask_def regionChunk_def syncChunk_def
  zerosChunk_def faultWrite_def writeAt_def readAt_def wrap64_def bufSize_def running_def rEnd_def

lemma sample_run_fault: "ds_reach sampleSrc sampleDelta 2 sampleBase ([Running 2 0, Running 1 0], [1, 2, 3, 7])"
proof -
  let ?st = "ds_step sampleSrc sampleDelta 2" and ?re = "ds_reach sampleSrc sampleDelta 2 sampleBase"
  have "?re ([Waiting, Waiting], sampleBase)"
    using ds_reach.init [of sampleSrc sampleDelta 2 sampleBase] by (simp add: ds_init_def sampleDelta_def numeral_2_eq_2)
  moreover have "?st ([Waiting, Waiting], sampleBase) ([Running 1 0, Waiting], sampleBase)"
    using ds_step.spawn [of 0 "[Waiting, Waiting]"] by (simp add: running_def)
  moreover have "?st ([Running 1 0, Waiting], sampleBase) ([Running 1 0, Running 1 0], sampleBase)"
    using ds_step.spawn [of 1 "[Running 1 0, Waiting]"] by (simp add: running_def)
  moreover have "?st ([Running 1 0, Running 1 0], sampleBase) ([Running 2 0, Running 1 0], [1, 2, 3, 7])"
    using ds_step.fault [of 0 "[Running 1 0, Running 1 0]" 1 0 sampleDelta 1 sampleSrc 2 sampleBase]
    by (simp add: sample_run_simps numeral_2_eq_2)
  ultimately show ?thesis by (blast intro: ds_reach.step)
qed

lemma sample_run_done: "ds_reach sampleSrc sampleDelta 2 sampleBase ([Copied, Copied], [1, 2, 3, 0])"
proof -
  let ?st = "ds_step sampleSrc sampleDelta 2"
  note sample_run_fault
  moreover have "?st ([Running 2 0, Running 1 0], [1, 2, 3, 7]) ([Running 2 0, Running 1 1], [1, 2, 3, 0])"
    using ds_step.work [of 1 "[Running 2 0, Running 1 0]" 1 0 sampleSrc sampleDelta "[1, 2, 3, 7]" "[1, 2, 3, 0]" "Running 1 1"]
    by (simp add: sample_run_simps eval_nat_numeral)
  moreover have "?st ([Running 2 0, Running 1 1], [1, 2, 3, 0]) ([Running 2 1, Running 1 1], [1, 2, 3, 0])"
    using ds_step.work [of 0 "[Running 2 0, Running 1 1]" 2 0 sampleSrc sampleDelta "[1, 2, 3, 0]" "[1, 2, 3, 0]" "Running 2 1"]
    by (simp add: sample_run_simps)
  moreover have "?st ([Running 2 1, Running 1 1], [1, 2, 3, 0]) ([Running 2 1, Copied], [1, 2, 3, 0])"
    using ds_step.work [of 1 "[Running 2 1, Running 1 1]" 1 1 sampleSrc sampleDelta "[1, 2, 3, 0]" "[1, 2, 3, 0]" Copied]
    by (simp add: sample_run_simps)
  moreover have "?st ([Running 2 1, Copied], [1, 2, 3, 0]) ([Copied, Copied], [1, 2, 3, 0])"
    using ds_step.work [of 0 "[Running 2 1, Copied]" 2 1 sampleSrc sampleDelta "[1, 2, 3, 0]" "[1, 2, 3, 0]" Copied]
    by (simp add: sample_run_simps)
  ultimately show ?thesis by (blast intro: ds_reach.step)
qed

theorem concurrent_workers_agree_witness:
  "ds_reach sampleSrc sampleDelta 2 sampleBase ([Copied, Copied], [1, 2, 3, 0]) \<and>
   syncAll sampleSrc sampleBase sampleDelta = ([1, 2, 3, 0], 0)"
  using sample_run_done concurrent_workers_agree [OF sampleDelta_job sample_run_done] by simp

text \<open>C18: A run that is killed at any point does no harm: the target keeps its size and every byte outside
  the regions, and running the command again over what was left behind gives the same target as a run
  that was never interrupted.\<close>

theorem interrupted_run_is_safe:
  assumes "job_ok src rs (length base)" and "ds_reach src rs workers base (ts, out)"
  shows "length out = length base \<and> (\<forall>p. covered rs (int p) \<or> byteAt out p = byteAt base p) \<and>
    syncAll src out rs = syncAll src base rs"
proof -
  from ds_reach_inv [OF assms(2,1)] have b: "between src rs base out" by (simp add: ds_inv_def)
  then have len: "length out = length base" by (simp add: between_def)
  from syncAll_synced [OF assms(1)] obtain o1 where o1: "syncAll src base rs = (o1, 0)" "synced src rs base o1" by blast
  from syncAll_synced [of src rs out] assms(1) len obtain o2 where
    o2: "syncAll src out rs = (o2, 0)" "synced src rs out o2" by auto
  from synced_unique [OF o1(2) synced_between [OF b o2(2)]] o1(1) o2(1) len b show ?thesis
    by (auto simp: between_def covered_def)
qed

theorem interrupted_run_is_safe_witness:
  "ds_reach sampleSrc sampleDelta 2 sampleBase ([Running 2 0, Running 1 0], [1, 2, 3, 7]) \<and>
   syncAll sampleSrc [1, 2, 3, 7] sampleDelta = syncAll sampleSrc sampleBase sampleDelta"
  using sample_run_fault interrupted_run_is_safe [OF sampleDelta_job sample_run_fault] by blast

text \<open>C17: The copying always ends and never blocks.  Every sequence of worker steps is finite, whatever fails
  on the way, and with at least one worker slot the only states without a next step are those in which
  every region is done or has used up its three attempts.\<close>

theorem workers_terminate:
  "wfp (\<lambda>s' s. ds_step src rs workers s s') \<and>
   (workers \<le> 0 \<or> ((\<nexists>s'. ds_step src rs workers (ts, out) s') = (set ts \<subseteq> {Copied, Exhausted})))"
  using wf_ds_step ds_not_stuck ds_settled_stuck by (metis linorder_not_le)

end
