(* ===== verification/DeltaCli.thy ===== *)
theory DeltaCli
  imports DeltaSync
begin

text \<open>
  The command line of \<^verbatim>\<open>delta-sync\<close>: the \<^verbatim>\<open>flag\<close> set of \<open>runDeltaSync\<close> in \<^verbatim>\<open>deltasync.go\<close> and the
  choice of the subcommand in \<^verbatim>\<open>main.go\<close>.  The parser follows Go's \<^verbatim>\<open>flag\<close> package with
  \<^verbatim>\<open>ExitOnError\<close>, integers and booleans follow \<^verbatim>\<open>strconv\<close>.
\<close>

section \<open>Values\<close>

definition lower :: "char \<Rightarrow> char" where
  "lower c = (let n = of_char c :: nat in if 65 \<le> n \<and> n \<le> 90 then char_of (n + 32) else c)"

text \<open>The digit value of a character, letters counting from ten.\<close>

definition digitValue :: "char \<Rightarrow> nat option" where
  "digitValue c = (let n = of_char c :: nat; l = of_char (lower c) :: nat in
     if 48 \<le> n \<and> n \<le> 57 then Some (n - 48) else if 97 \<le> l \<and> l \<le> 122 then Some (l - 87) else None)"

text \<open>\<^verbatim>\<open>strconv.underscoreOK\<close> behind the sign and the prefix; \<open>prev\<close> is the last character's class.\<close>

datatype uclass = Begin | Digit | Underscore | Other

fun underscoreOK_loop :: "bool \<Rightarrow> uclass \<Rightarrow> string \<Rightarrow> bool" where
  "underscoreOK_loop hex prev [] \<longleftrightarrow> prev \<noteq> Underscore"
| "underscoreOK_loop hex prev (c # s) \<longleftrightarrow>
     (case digitValue c of Some d \<Rightarrow>
        if d < 10 \<or> (hex \<and> d < 16) then underscoreOK_loop hex Digit s
        else prev \<noteq> Underscore \<and> underscoreOK_loop hex Other s
      | None \<Rightarrow> if c = CHR ''_'' then prev = Digit \<and> underscoreOK_loop hex Underscore s
                else prev \<noteq> Underscore \<and> underscoreOK_loop hex Other s)"

text \<open>The base of a literal and the text behind its prefix.\<close>

definition literalBase :: "string \<Rightarrow> nat \<times> string" where
  "literalBase s =
     (if s = [] \<or> hd s \<noteq> CHR ''0'' then (10, s)
      else if length s \<ge> 3 \<and> lower (s ! 1) = CHR ''b'' then (2, drop 2 s)
      else if length s \<ge> 3 \<and> lower (s ! 1) = CHR ''o'' then (8, drop 2 s)
      else if length s \<ge> 3 \<and> lower (s ! 1) = CHR ''x'' then (16, drop 2 s)
      else (8, drop 1 s))"

definition underscoreOK :: "string \<Rightarrow> bool" where
  "underscoreOK s =
     (if length s \<ge> 2 \<and> hd s = CHR ''0'' \<and> lower (s ! 1) \<in> set ''box''
      then underscoreOK_loop (lower (s ! 1) = CHR ''x'') Digit (drop 2 s)
      else underscoreOK_loop False Begin s)"

fun digits_in :: "nat \<Rightarrow> nat \<Rightarrow> string \<Rightarrow> nat option" where
  "digits_in base n [] = Some n"
| "digits_in base n (c # s) =
     (if c = CHR ''_'' then digits_in base n s
      else case digitValue c of None \<Rightarrow> None
        | Some d \<Rightarrow> if d < base then digits_in base (n * base + d) s else None)"

definition parseUint :: "string \<Rightarrow> nat option" where
  "parseUint s =
     (if s = [] then None
      else case digits_in (fst (literalBase s)) 0 (snd (literalBase s)) of None \<Rightarrow> None
        | Some n \<Rightarrow> if CHR ''_'' \<in> set (snd (literalBase s)) \<and> \<not> underscoreOK s then None else Some n)"

text \<open>\<^verbatim>\<open>strconv.ParseInt(s, 0, 64)\<close>\<close>

definition parseInt :: "string \<Rightarrow> int option" where
  "parseInt s =
     (let neg = has_prefix s ''-''; body = (if has_prefix s ''-'' \<or> has_prefix s ''+'' then tl s else s)
      in case parseUint body of None \<Rightarrow> None
         | Some n \<Rightarrow> let v = (if neg then - int n else int n) in if in64 v then Some v else None)"

definition parseBool :: "string \<Rightarrow> bool option" where
  "parseBool s =
     (if s \<in> {''1'', ''t'', ''T'', ''TRUE'', ''true'', ''True''} then Some True
      else if s \<in> {''0'', ''f'', ''F'', ''FALSE'', ''false'', ''False''} then Some False else None)"

section \<open>The flag set\<close>

text \<open>Setting one flag: \<open>None\<close> for a value that does not parse.\<close>

definition setFlag :: "flags \<Rightarrow> string \<Rightarrow> string \<Rightarrow> flags option" where
  "setFlag fl name v =
     (if name = ''source-file'' then Some (fl\<lparr>fSourceFile := v\<rparr>)
      else if name = ''regions'' then Some (fl\<lparr>fRegions := v\<rparr>)
      else if name = ''target'' then Some (fl\<lparr>fTarget := v\<rparr>)
      else if name = ''block'' then map_option (\<lambda>b. fl\<lparr>fBlock := b\<rparr>) (parseBool v)
      else if name = ''workers'' then map_option (\<lambda>n. fl\<lparr>fWorkers := n\<rparr>) (parseInt v)
      else None)"

definition knownFlag :: "string \<Rightarrow> bool" where
  "knownFlag name \<longleftrightarrow> name \<in> {''source-file'', ''regions'', ''target'', ''block'', ''workers''}"

text \<open>An argument as a flag: the name and the value behind the first equals sign.\<close>

datatype arg = NoFlag | Terminator | BadFlag | Flag string "string option"

definition splitFlag :: "string \<Rightarrow> string \<times> string option" where
  "splitFlag name = (let n = take 1 name @ takeWhile (\<lambda>c. c \<noteq> CHR ''='') (tl name)
     in if length n < length name then (n, Some (drop (length n + 1) name)) else (name, None))"

definition classify :: "string \<Rightarrow> arg" where
  "classify s =
     (if length s < 2 \<or> hd s \<noteq> CHR ''-'' then NoFlag
      else if s = ''--'' then Terminator
      else let name = (if s ! 1 = CHR ''-'' then drop 2 s else drop 1 s)
           in if name = [] \<or> hd name = CHR ''-'' \<or> hd name = CHR ''='' then BadFlag
              else case splitFlag name of (n, v) \<Rightarrow> Flag n v)"

text \<open>
  A flag set over a record of values: which names are defined, which of them are boolean, and how a value is stored.
\<close>

record 's flagset =
  isDefined :: "string \<Rightarrow> bool"
  isBoolFlag :: "string \<Rightarrow> bool"
  setValue :: "'s \<Rightarrow> string \<Rightarrow> string \<Rightarrow> 's option"

text \<open>
  \<^verbatim>\<open>fs.Parse\<close>: the flags, or the code with which the process exits: 0 for a request for help, 2 for
  every other error.  Parsing stops at the first argument that is not a flag.
\<close>

fun parseFlagSet :: "'s flagset \<Rightarrow> 's \<Rightarrow> string list \<Rightarrow> int + 's" where
  "parseFlagSet F fl [] = Inr fl"
| "parseFlagSet F fl (a # as) =
     (case classify a of
        NoFlag \<Rightarrow> Inr fl
      | Terminator \<Rightarrow> Inr fl
      | BadFlag \<Rightarrow> Inl 2
      | Flag n v \<Rightarrow>
          if \<not> isDefined F n then Inl (if n = ''help'' \<or> n = ''h'' then 0 else 2)
          else if isBoolFlag F n then
            (case setValue F fl n (case v of None \<Rightarrow> ''true'' | Some x \<Rightarrow> x) of None \<Rightarrow> Inl 2 | Some fl' \<Rightarrow> parseFlagSet F fl' as)
          else (case v of
              Some x \<Rightarrow> (case setValue F fl n x of None \<Rightarrow> Inl 2 | Some fl' \<Rightarrow> parseFlagSet F fl' as)
            | None \<Rightarrow> (case as of [] \<Rightarrow> Inl 2
                | x # as' \<Rightarrow> (case setValue F fl n x of None \<Rightarrow> Inl 2 | Some fl' \<Rightarrow> parseFlagSet F fl' as'))))"

definition deltaFlagSet :: "flags flagset" where
  "deltaFlagSet = \<lparr>isDefined = knownFlag, isBoolFlag = (\<lambda>n. n = ''block''), setValue = setFlag\<rparr>"

definition parseFlags :: "flags \<Rightarrow> string list \<Rightarrow> int + flags" where
  "parseFlags = parseFlagSet deltaFlagSet"

definition runDeltaSyncArgs :: "string list \<Rightarrow> filesystem \<Rightarrow> exit \<times> disk option" where
  "runDeltaSyncArgs args fs = (case parseFlags defaultFlags args of Inl code \<Rightarrow> (Exit code, None) | Inr fl \<Rightarrow> runDeltaSync fl fs)"

text \<open>The start of \<^verbatim>\<open>main\<close>: the subcommand, or \<open>None\<close> for the manager.\<close>

definition operatorMain :: "string list \<Rightarrow> filesystem \<Rightarrow> (exit \<times> disk option) option" where
  "operatorMain args fs = (case args of a # as \<Rightarrow> if a = ''delta-sync'' then Some (runDeltaSyncArgs as fs) else None | [] \<Rightarrow> None)"

section \<open>Flags with values\<close>

lemma splitFlag_value:
  assumes "n \<noteq> []" "CHR ''='' \<notin> set n"
  shows "splitFlag (n @ CHR ''='' # v) = (n, Some v)"
proof -
  obtain c m where n: "n = c # m" using assms(1) by (cases n) auto
  have "takeWhile (\<lambda>c. c \<noteq> CHR ''='') (m @ CHR ''='' # v) = m"
    using assms(2) n by (subst takeWhile_append2) auto
  then show ?thesis by (simp add: splitFlag_def Let_def n)
qed

lemma classify_value:
  assumes "n \<noteq> []" "CHR ''='' \<notin> set n" "hd n \<noteq> CHR ''-''"
  shows "classify (''--'' @ n @ CHR ''='' # v) = Flag n (Some v)"
proof -
  have "hd n \<noteq> CHR ''=''" using assms(1,2) by (metis hd_in_set)
  then show ?thesis
    using assms splitFlag_value [OF assms(1,2), of v] by (simp add: classify_def Let_def hd_append)
qed

text \<open>A defined flag with its value in the same argument, for every flag set.\<close>

lemma parseFlagSet_value:
  assumes "n \<noteq> []" "CHR ''='' \<notin> set n" "hd n \<noteq> CHR ''-''" "isDefined F n"
  shows "parseFlagSet F fl ((''--'' @ n @ CHR ''='' # v) # as) =
    (case setValue F fl n v of None \<Rightarrow> Inl 2 | Some fl' \<Rightarrow> parseFlagSet F fl' as)"
  unfolding parseFlagSet.simps classify_value [OF assms(1-3)] using assms(4) by simp

lemma parseFlags_string:
  assumes "n \<in> {''source-file'', ''regions'', ''target''}"
  shows "parseFlags fl ((''--'' @ n @ CHR ''='' # v) # as) =
    (case setFlag fl n v of None \<Rightarrow> Inl 2 | Some fl' \<Rightarrow> parseFlags fl' as)"
proof -
  have d: "isDefined deltaFlagSet n" and s: "setValue deltaFlagSet = setFlag"
    using assms by (auto simp: deltaFlagSet_def knownFlag_def)
  have n: "n \<noteq> []" "CHR ''='' \<notin> set n" "hd n \<noteq> CHR ''-''" using assms by auto
  show ?thesis unfolding parseFlags_def parseFlagSet_value [OF n d] s ..
qed

lemma parseFlags_block: "parseFlags fl (''--block'' # as) = parseFlags (fl\<lparr>fBlock := True\<rparr>) as"
  by (simp add: parseFlags_def deltaFlagSet_def classify_def splitFlag_def knownFlag_def setFlag_def parseBool_def)

lemma parseFlags_Nil [simp]: "parseFlags fl [] = Inr fl"
  by (simp add: parseFlags_def)

text \<open>The arguments of a delta-sync Job are understood as the controller means them.\<close>

lemma parse_job_args:
  "parseFlags defaultFlags ([''--source-file='' @ src, ''--regions='' @ rgs, ''--target='' @ tgt] @ (if blk then [''--block''] else [])) =
     Inr (defaultFlags\<lparr>fSourceFile := src, fRegions := rgs, fTarget := tgt, fBlock := blk\<rparr>)"
  using parseFlags_string [of "''source-file''"] parseFlags_string [of "''regions''"] parseFlags_string [of "''target''"]
  by (simp add: parseFlags_block setFlag_def defaultFlags_def)

end
