(* ===== verification/GoMonad.thy ===== *)
theory GoMonad
  imports Prelude "HOL-Library.State_Monad"
begin

text \<open>
  Effectful Go code as a state monad over the trace of its interactions with the outside world.
  Every call that leaves the program (a Kubernetes or HTTP request, the clock, a wait) is an
  operation \<open>op f ev\<close>: the environment answers with \<open>f t\<close>, an arbitrary function of the trace \<open>t\<close> so
  far, and the event \<open>ev r\<close> with the answer \<open>r\<close> is appended to the trace.  A statement that holds for
  every environment therefore holds for every sequence of answers, stale and failing ones included.

  \<open>wp m Q\<close> says that \<open>m\<close>, started on any trace, appends events \<open>es\<close> and returns \<open>r\<close> with \<open>Q r es\<close>;
  \<open>emits P m\<close> says that every event \<open>m\<close> appends satisfies \<open>P\<close>.  Both come with introduction rules
  for each construct, collected in \<open>wp_rules\<close> and \<open>emits_rules\<close>.
\<close>

named_theorems wp_rules \<open>introduction rules of the weakest precondition\<close>
named_theorems emits_rules \<open>introduction rules of the event invariant\<close>

type_synonym ('e, 'a) go = "('e list, 'a) state"

abbreviation return :: "'a \<Rightarrow> ('e, 'a) go" where
  "return \<equiv> State_Monad.return"

definition op :: "('e list \<Rightarrow> 'r) \<Rightarrow> ('r \<Rightarrow> 'e) \<Rightarrow> ('e, 'r) go" where
  "op f ev = State (\<lambda>t. (f t, t @ [ev (f t)]))"

text \<open>The result and the events of a run on the empty trace.\<close>

definition result :: "('e, 'a) go \<Rightarrow> 'a" where
  "result m = fst (run_state m [])"

definition events :: "('e, 'a) go \<Rightarrow> 'e list" where
  "events m = snd (run_state m [])"

text \<open>
  A \<^verbatim>\<open>for ... range\<close> loop whose body ends in the next iteration, a \<^verbatim>\<open>break\<close> or a \<^verbatim>\<open>return\<close> of the
  enclosing function.  The loop gives \<open>Inl r\<close> when the function returns \<open>r\<close> from inside it, and
  \<open>Inr s\<close> with the final loop state otherwise.
\<close>

datatype ('s, 'r) ctl = Next 's | Break 's | Ret 'r

primrec foreach :: "'x list \<Rightarrow> 's \<Rightarrow> ('x \<Rightarrow> 's \<Rightarrow> ('e, ('s, 'r) ctl) go) \<Rightarrow> ('e, 'r + 's) go" where
  "foreach [] s body = return (Inr s)"
| "foreach (x # xs) s body =
     do { c \<leftarrow> body x s;
          case c of Next s' \<Rightarrow> foreach xs s' body
                  | Break s' \<Rightarrow> return (Inr s')
                  | Ret r \<Rightarrow> return (Inl r) }"

text \<open>A loop whose body always goes on to the next element.\<close>

primrec loop :: "'x list \<Rightarrow> 's \<Rightarrow> ('x \<Rightarrow> 's \<Rightarrow> ('e, 's) go) \<Rightarrow> ('e, 's) go" where
  "loop [] s body = return s"
| "loop (x # xs) s body = do { s' \<leftarrow> body x s; loop xs s' body }"

text \<open>What follows a loop in its function, and what follows an inner loop in the body of an outer one.\<close>

definition after :: "('e, 'r + 's) go \<Rightarrow> ('s \<Rightarrow> ('e, 'r) go) \<Rightarrow> ('e, 'r) go" where
  "after m f = do { c \<leftarrow> m; case c of Inl r \<Rightarrow> return r | Inr s \<Rightarrow> f s }"

definition after_inner :: "('e, 'r + 's) go \<Rightarrow> ('s \<Rightarrow> ('e, ('u, 'r) ctl) go) \<Rightarrow> ('e, ('u, 'r) ctl) go" where
  "after_inner m f = do { c \<leftarrow> m; case c of Inl r \<Rightarrow> return (Ret r) | Inr s \<Rightarrow> f s }"

section \<open>Weakest preconditions\<close>

definition wp :: "('e, 'a) go \<Rightarrow> ('a \<Rightarrow> 'e list \<Rightarrow> bool) \<Rightarrow> bool" where
  "wp m Q \<longleftrightarrow> (\<forall>t. \<exists>es. snd (run_state m t) = t @ es \<and> Q (fst (run_state m t)) es)"

lemma wp_run:
  assumes "wp m Q"
  shows "Q (result m) (events m)"
  using assms unfolding wp_def result_def events_def by (metis append_Nil)

lemma wp_mono:
  assumes "wp m P" and "\<And>r es. P r es \<Longrightarrow> Q r es"
  shows "wp m Q"
  using assms unfolding wp_def by blast

lemma wp_conj:
  assumes "wp m P" and "wp m Q"
  shows "wp m (\<lambda>r es. P r es \<and> Q r es)"
  using assms unfolding wp_def by (metis same_append_eq)

lemma wp_return [wp_rules]: "Q x [] \<Longrightarrow> wp (return x) Q"
  by (simp add: wp_def)

lemma wp_op [wp_rules]: "(\<And>r. Q r [ev r]) \<Longrightarrow> wp (op f ev) Q"
  by (simp add: wp_def op_def)

lemma wp_bind [wp_rules]:
  assumes "wp m (\<lambda>r es. wp (f r) (\<lambda>r' es'. Q r' (es @ es')))"
  shows "wp (State_Monad.bind m f) Q"
  unfolding wp_def
proof
  fix t
  obtain r t1 where m: "run_state m t = (r, t1)" by fastforce
  with assms obtain es where es: "t1 = t @ es" and f: "wp (f r) (\<lambda>r' es'. Q r' (es @ es'))"
    unfolding wp_def by (metis fst_conv snd_conv)
  obtain r2 t2 where m2: "run_state (f r) t1 = (r2, t2)" by fastforce
  with f obtain es' where "t2 = t1 @ es'" and "Q r2 (es @ es')"
    unfolding wp_def by (metis fst_conv snd_conv)
  then show "\<exists>es. snd (run_state (State_Monad.bind m f) t) = t @ es \<and>
      Q (fst (run_state (State_Monad.bind m f) t)) es"
    using m m2 es by (auto intro!: exI [of _ "es @ es'"])
qed

lemma wp_if [wp_rules]: "(b \<Longrightarrow> wp m Q) \<Longrightarrow> (\<not> b \<Longrightarrow> wp n Q) \<Longrightarrow> wp (if b then m else n) Q"
  by simp

lemma wp_case_sum [wp_rules]:
  "(\<And>e. x = Inl e \<Longrightarrow> wp (f e) Q) \<Longrightarrow> (\<And>a. x = Inr a \<Longrightarrow> wp (g a) Q) \<Longrightarrow> wp (case x of Inl e \<Rightarrow> f e | Inr a \<Rightarrow> g a) Q"
  by (cases x) simp_all

lemma wp_case_option [wp_rules]:
  "(x = None \<Longrightarrow> wp m Q) \<Longrightarrow> (\<And>a. x = Some a \<Longrightarrow> wp (g a) Q) \<Longrightarrow> wp (case x of None \<Rightarrow> m | Some a \<Rightarrow> g a) Q"
  by (cases x) simp_all

lemma wp_case_prod [wp_rules]:
  "(\<And>a b. x = (a, b) \<Longrightarrow> wp (f a b) Q) \<Longrightarrow> wp (case x of (a, b) \<Rightarrow> f a b) Q"
  by (cases x) simp

lemma wp_case_prod_app [wp_rules]:
  "(\<And>a b. x = (a, b) \<Longrightarrow> wp (f a b s) Q) \<Longrightarrow> wp ((case x of (a, b) \<Rightarrow> f a b) s) Q"
  by (cases x) simp

lemma wp_Let [wp_rules]: "(\<And>x. x = v \<Longrightarrow> wp (f x) Q) \<Longrightarrow> wp (let x = v in f x) Q"
  by simp

lemma wp_after [wp_rules]:
  "wp m (\<lambda>c es. case c of Inl r \<Rightarrow> Q r es | Inr s \<Rightarrow> wp (f s) (\<lambda>r' es'. Q r' (es @ es'))) \<Longrightarrow> wp (after m f) Q"
  unfolding after_def
  by (rule wp_bind, erule wp_mono) (auto split: sum.splits intro: wp_return)

lemma wp_after_inner [wp_rules]:
  "wp m (\<lambda>c es. case c of Inl r \<Rightarrow> Q (Ret r) es | Inr s \<Rightarrow> wp (f s) (\<lambda>r' es'. Q r' (es @ es'))) \<Longrightarrow>
   wp (after_inner m f) Q"
  unfolding after_inner_def
  by (rule wp_bind, erule wp_mono) (auto split: sum.splits intro: wp_return)

text \<open>
  The loop rule: \<open>I done s es\<close> holds before each iteration, with \<open>done\<close> the elements already visited,
  \<open>s\<close> the loop state and \<open>es\<close> the events of the loop so far.
\<close>

lemma wp_foreach_from:
  assumes step: "\<And>pre x post s es. xs = pre @ x # post \<Longrightarrow> I pre s es \<Longrightarrow>
      wp (body x s) (\<lambda>c es'. case c of Next s' \<Rightarrow> I (pre @ [x]) s' (es @ es')
        | Break s' \<Rightarrow> Q (Inr s') (es @ es') | Ret r \<Rightarrow> Q (Inl r) (es @ es'))"
    and fin: "\<And>s es. I xs s es \<Longrightarrow> Q (Inr s) es"
    and xs: "xs = pre @ post" and inv: "I pre s es"
  shows "wp (foreach post s body) (\<lambda>c es'. Q c (es @ es'))"
  using xs inv
proof (induction post arbitrary: pre s es)
  case Nil
  then show ?case by (simp add: wp_return fin)
next
  case (Cons x post)
  have loop: "wp (foreach post s' body) (\<lambda>c es''. Q c ((es @ es') @ es''))"
    if "I (pre @ [x]) s' (es @ es')" for s' es'
    by (rule Cons.IH [of "pre @ [x]"]) (use Cons.prems(1) that in simp_all)
  have "wp (body x s) (\<lambda>c es'. case c of Next s' \<Rightarrow> I (pre @ [x]) s' (es @ es')
      | Break s' \<Rightarrow> Q (Inr s') (es @ es') | Ret r \<Rightarrow> Q (Inl r) (es @ es'))"
    by (rule step [OF Cons.prems])
  then show ?case
    unfolding foreach.simps
    by (rule wp_bind [OF wp_mono]) (auto split: ctl.splits intro!: wp_return dest: loop)
qed

lemma wp_foreach:
  assumes "I [] s []"
    and "\<And>pre x post s es. xs = pre @ x # post \<Longrightarrow> I pre s es \<Longrightarrow>
      wp (body x s) (\<lambda>c es'. case c of Next s' \<Rightarrow> I (pre @ [x]) s' (es @ es')
        | Break s' \<Rightarrow> Q (Inr s') (es @ es') | Ret r \<Rightarrow> Q (Inl r) (es @ es'))"
    and "\<And>s es. I xs s es \<Longrightarrow> Q (Inr s) es"
  shows "wp (foreach xs s body) Q"
  using wp_foreach_from [of xs I body Q "[]" xs s "[]"] assms by simp

lemma wp_loop_from:
  assumes step: "\<And>pre x post s es. xs = pre @ x # post \<Longrightarrow> I pre s es \<Longrightarrow>
      wp (body x s) (\<lambda>s' es'. I (pre @ [x]) s' (es @ es'))"
    and fin: "\<And>s es. I xs s es \<Longrightarrow> Q s es"
    and xs: "xs = pre @ post" and inv: "I pre s es"
  shows "wp (loop post s body) (\<lambda>s' es'. Q s' (es @ es'))"
  using xs inv
proof (induction post arbitrary: pre s es)
  case Nil
  then show ?case by (simp add: wp_return fin)
next
  case (Cons x post)
  have rest: "wp (loop post s' body) (\<lambda>r es''. Q r ((es @ es') @ es''))"
    if "I (pre @ [x]) s' (es @ es')" for s' es'
    by (rule Cons.IH [of "pre @ [x]"]) (use Cons.prems(1) that in simp_all)
  show ?case
    unfolding loop.simps
    by (rule wp_bind [OF wp_mono [OF step [OF Cons.prems]]]) (auto dest: rest)
qed

lemma wp_loop:
  assumes "I [] s []"
    and "\<And>pre x post s es. xs = pre @ x # post \<Longrightarrow> I pre s es \<Longrightarrow>
      wp (body x s) (\<lambda>s' es'. I (pre @ [x]) s' (es @ es'))"
    and "\<And>s es. I xs s es \<Longrightarrow> Q s es"
  shows "wp (loop xs s body) Q"
  using wp_loop_from [of xs I body Q "[]" xs s "[]"] assms by simp

section \<open>Event invariants\<close>

definition emits :: "('e \<Rightarrow> bool) \<Rightarrow> ('e, 'a) go \<Rightarrow> bool" where
  "emits P m \<longleftrightarrow> wp m (\<lambda>r es. list_all P es)"

lemma emits_events: "emits P m \<Longrightarrow> list_all P (events m)"
  unfolding emits_def by (rule wp_run)

lemma emits_mono: "emits P m \<Longrightarrow> (\<And>e. P e \<Longrightarrow> P' e) \<Longrightarrow> emits P' m"
  unfolding emits_def by (erule wp_mono) (simp add: list.pred_mono_strong)

lemma emits_return [emits_rules]: "emits P (return x)"
  by (simp add: emits_def wp_return)

lemma emits_op [emits_rules]: "(\<And>r. P (ev r)) \<Longrightarrow> emits P (op f ev)"
  by (simp add: emits_def wp_op)

lemma emits_bind [emits_rules]:
  assumes "emits P m" and "\<And>r. emits P (f r)"
  shows "emits P (State_Monad.bind m f)"
  using assms(1) unfolding emits_def
  by (intro wp_bind, elim wp_mono) (use assms(2) in \<open>auto simp: emits_def elim!: wp_mono\<close>)

lemma emits_if [emits_rules]: "(b \<Longrightarrow> emits P m) \<Longrightarrow> (\<not> b \<Longrightarrow> emits P n) \<Longrightarrow> emits P (if b then m else n)"
  by simp

lemma emits_case_sum [emits_rules]:
  "(\<And>e. x = Inl e \<Longrightarrow> emits P (f e)) \<Longrightarrow> (\<And>a. x = Inr a \<Longrightarrow> emits P (g a)) \<Longrightarrow>
   emits P (case x of Inl e \<Rightarrow> f e | Inr a \<Rightarrow> g a)"
  by (cases x) simp_all

lemma emits_case_option [emits_rules]:
  "(x = None \<Longrightarrow> emits P m) \<Longrightarrow> (\<And>a. x = Some a \<Longrightarrow> emits P (g a)) \<Longrightarrow>
   emits P (case x of None \<Rightarrow> m | Some a \<Rightarrow> g a)"
  by (cases x) simp_all

lemma emits_case_prod [emits_rules]:
  "(\<And>a b. x = (a, b) \<Longrightarrow> emits P (f a b)) \<Longrightarrow> emits P (case x of (a, b) \<Rightarrow> f a b)"
  by (cases x) simp

lemma emits_case_prod_app [emits_rules]:
  "(\<And>a b. x = (a, b) \<Longrightarrow> emits P (f a b s)) \<Longrightarrow> emits P ((case x of (a, b) \<Rightarrow> f a b) s)"
  by (cases x) simp

lemma emits_Let [emits_rules]: "(\<And>x. x = v \<Longrightarrow> emits P (f x)) \<Longrightarrow> emits P (let x = v in f x)"
  by simp

lemma emits_foreach [emits_rules]:
  assumes "\<And>x s. x \<in> set xs \<Longrightarrow> emits P (body x s)"
  shows "emits P (foreach xs s body)"
  using assms
proof (induction xs arbitrary: s)
  case (Cons x xs)
  then show ?case by (auto intro!: emits_rules split: ctl.splits)
qed (simp add: emits_return)

lemma emits_loop [emits_rules]:
  assumes "\<And>x s. x \<in> set xs \<Longrightarrow> emits P (body x s)"
  shows "emits P (loop xs s body)"
  using assms by (induction xs arbitrary: s) (auto intro!: emits_rules)

lemma emits_after [emits_rules]:
  "emits P m \<Longrightarrow> (\<And>s. emits P (f s)) \<Longrightarrow> emits P (after m f)"
  unfolding after_def by (intro emits_rules)

lemma emits_after_inner [emits_rules]:
  "emits P m \<Longrightarrow> (\<And>s. emits P (f s)) \<Longrightarrow> emits P (after_inner m f)"
  unfolding after_inner_def by (intro emits_rules)

text \<open>Running a concrete program: the equations used to evaluate witnesses.\<close>

lemma run_op [simp]: "run_state (op f ev) t = (f t, t @ [ev (f t)])"
  by (simp add: op_def)

lemma run_after [simp]:
  "run_state (after m f) t = (case run_state m t of (Inl r, t') \<Rightarrow> (r, t') | (Inr s, t') \<Rightarrow> run_state (f s) t')"
  by (simp add: after_def split: prod.splits sum.splits)

lemma run_after_inner [simp]:
  "run_state (after_inner m f) t =
     (case run_state m t of (Inl r, t') \<Rightarrow> (Ret r, t') | (Inr s, t') \<Rightarrow> run_state (f s) t')"
  by (simp add: after_inner_def split: prod.splits sum.splits)

end
