(* ===== verification/Json.thy ===== *)
theory Json
  imports Complex_Main Prelude
begin

text \<open>
  Values of \<^verbatim>\<open>encoding/json\<close> as the operator handles them: generic values
  (\<^verbatim>\<open>map[string]interface{}\<close> and type assertions), decoding into structs, and the two lookup helpers at
  the end of \<^verbatim>\<open>controllers/prism_client.go\<close>.  A missing key and a JSON \<^verbatim>\<open>null\<close> are both Go's \<^verbatim>\<open>nil\<close>,
  \<open>JNull\<close>.  A number is \<open>JInt\<close> when its literal has neither a fraction nor an exponent, and \<open>JFloat\<close>
  with the value of the nearest \<^verbatim>\<open>float64\<close> otherwise.
\<close>

datatype json =
  JNull | JBool bool | JInt int | JFloat rat | JStr string | JArr "json list" | JObj "(string \<times> json) list"

section \<open>Generic values\<close>

text \<open>Indexing after a type assertion to a map: a failed assertion gives a nil map, whose entries are nil.\<close>

definition jget :: "json \<Rightarrow> string \<Rightarrow> json" where
  "jget j k = (case j of JObj m \<Rightarrow> (case map_of m k of Some v \<Rightarrow> v | None \<Rightarrow> JNull) | _ \<Rightarrow> JNull)"

definition as_string :: "json \<Rightarrow> string" where
  "as_string j = (case j of JStr s \<Rightarrow> s | _ \<Rightarrow> [])"

definition as_list :: "json \<Rightarrow> json list" where
  "as_list j = (case j of JArr xs \<Rightarrow> xs | _ \<Rightarrow> [])"

definition as_bool :: "json \<Rightarrow> bool" where
  "as_bool j = (case j of JBool b \<Rightarrow> b | _ \<Rightarrow> False)"

definition is_obj :: "json \<Rightarrow> bool" where
  "is_obj j = (case j of JObj _ \<Rightarrow> True | _ \<Rightarrow> False)"

text \<open>
  \<^verbatim>\<open>int64(v)\<close> of a \<^verbatim>\<open>float64\<close> assertion: an integer literal is rounded to 53 significant bits, half to
  even, a fraction is truncated towards zero, and a value out of range becomes the least integer
  (the result on the amd64 platform of the operator image).
\<close>

fun bit_length :: "nat \<Rightarrow> nat" where
  "bit_length n = (if n = 0 then 0 else Suc (bit_length (n div 2)))"

declare bit_length.simps [simp del]

definition round53 :: "int \<Rightarrow> int" where
  "round53 i =
     (let a = nat \<bar>i\<bar>; e = bit_length a - 53; m = 2 ^ e; q = a div m; r = a mod m
      in if \<bar>i\<bar> \<le> 2 ^ 53 then i
         else sgn i * int (if 2 * r < m \<or> (2 * r = m \<and> even q) then q * m else (q + 1) * m))"

definition int64_of :: "int \<Rightarrow> int" where
  "int64_of i = (if in64 i then i else - (2 ^ 63))"

definition as_int64 :: "json \<Rightarrow> int option" where
  "as_int64 j = (case j of JInt i \<Rightarrow> Some (int64_of (round53 i))
     | JFloat q \<Rightarrow> Some (int64_of (if q < 0 then \<lceil>q\<rceil> else \<lfloor>q\<rfloor>))
     | _ \<Rightarrow> None)"

lemma as_int64_small: "\<bar>i\<bar> \<le> 2 ^ 53 \<Longrightarrow> as_int64 (JInt i) = Some i"
  by (auto simp: as_int64_def round53_def Let_def int64_of_def in64_def)

lemma as_int64_range: "as_int64 j = Some i \<Longrightarrow> in64 i"
  by (auto simp: as_int64_def int64_of_def in64_def split: json.splits if_splits)

text \<open>\<open>unstructuredNestedString\<close> and \<open>unstructuredNestedSlice\<close>: walk down a path of keys.\<close>

fun unstructuredNestedString :: "json \<Rightarrow> string list \<Rightarrow> string \<times> bool" where
  "unstructuredNestedString cur [] = (case cur of JStr s \<Rightarrow> (s, True) | _ \<Rightarrow> ([], False))"
| "unstructuredNestedString cur (f # fs) =
     (case cur of JObj m \<Rightarrow> unstructuredNestedString (jget cur f) fs | _ \<Rightarrow> ([], False))"

fun unstructuredNestedSlice :: "json \<Rightarrow> string list \<Rightarrow> json list \<times> bool" where
  "unstructuredNestedSlice cur [] = (case cur of JArr xs \<Rightarrow> (xs, True) | _ \<Rightarrow> ([], False))"
| "unstructuredNestedSlice cur (f # fs) =
     (case cur of JObj m \<Rightarrow> unstructuredNestedSlice (jget cur f) fs | _ \<Rightarrow> ([], False))"

definition path_get :: "json \<Rightarrow> string list \<Rightarrow> json" where
  "path_get j fs = foldl jget j fs"

lemma json_simps [simp]:
  "jget (JObj []) k = JNull" "jget (JObj ((k', v) # m)) k = (if k = k' then v else jget (JObj m) k)"
  "jget JNull k = JNull" "as_string (JStr s) = s" "as_list (JArr xs) = xs" "as_bool (JBool b) = b"
  "is_obj (JObj m)" "\<not> is_obj JNull" "as_string JNull = []" "as_list JNull = []"
  by (auto simp: jget_def as_string_def as_list_def as_bool_def is_obj_def)

lemma path_get_simps [simp]: "path_get j [] = j" "path_get j (f # fs) = path_get (jget j f) fs"
  by (simp_all add: path_get_def)

lemma jget_nonobj: "\<not> is_obj j \<Longrightarrow> jget j k = JNull"
  by (cases j) (simp_all add: jget_def is_obj_def)

lemma path_get_nonobj: "\<not> is_obj j \<Longrightarrow> path_get j (f # fs) = JNull"
proof -
  have nul: "path_get JNull fs = JNull" for fs
    by (induction fs) simp_all
  show "\<not> is_obj j \<Longrightarrow> ?thesis"
    using nul by (simp add: jget_nonobj)
qed

text \<open>Both helpers are the type assertion at the end of the path.\<close>

lemma unstructuredNestedString_path:
  "unstructuredNestedString j fs = (as_string (path_get j fs), \<exists>s. path_get j fs = JStr s)"
proof (induction fs arbitrary: j)
  case Nil
  show ?case by (cases j) (simp_all add: path_get_def as_string_def)
next
  case (Cons f fs)
  show ?case
  proof (cases "is_obj j")
    case True
    then show ?thesis using Cons.IH [of "jget j f"]
      by (cases j) (simp_all add: is_obj_def path_get_def)
  next
    case False
    then show ?thesis using path_get_nonobj [OF False, of f fs]
      by (cases j) (simp_all add: as_string_def is_obj_def)
  qed
qed

lemma unstructuredNestedSlice_path: "fst (unstructuredNestedSlice j fs) = as_list (path_get j fs)"
proof (induction fs arbitrary: j)
  case Nil
  show ?case by (cases j) (simp_all add: path_get_def as_list_def)
next
  case (Cons f fs)
  show ?case
  proof (cases "is_obj j")
    case True
    then show ?thesis using Cons.IH [of "jget j f"]
      by (cases j) (simp_all add: is_obj_def path_get_def)
  next
    case False
    then show ?thesis using path_get_nonobj [OF False, of f fs]
      by (cases j) (simp_all add: as_list_def is_obj_def)
  qed
qed

section \<open>Updating objects\<close>

text \<open>Assignment to a map entry, deletion, and assignment along a path (creating missing maps).\<close>

fun obj_put :: "(string \<times> json) list \<Rightarrow> string \<Rightarrow> json \<Rightarrow> (string \<times> json) list" where
  "obj_put [] k v = [(k, v)]"
| "obj_put ((k', v') # m) k v = (if k' = k then (k, v) # m else (k', v') # obj_put m k v)"

definition jput :: "json \<Rightarrow> string \<Rightarrow> json \<Rightarrow> json" where
  "jput j k v = (case j of JObj m \<Rightarrow> JObj (obj_put m k v) | _ \<Rightarrow> JObj [(k, v)])"

definition jdelete :: "json \<Rightarrow> string \<Rightarrow> json" where
  "jdelete j k = (case j of JObj m \<Rightarrow> JObj (filter (\<lambda>(k', v). k' \<noteq> k) m) | _ \<Rightarrow> j)"

fun path_put :: "json \<Rightarrow> string list \<Rightarrow> json \<Rightarrow> json option" where
  "path_put j [] v = Some v"
| "path_put j (f # fs) v =
     (if is_obj j then
        map_option (jput j f) (path_put (if jget j f = JNull \<and> fs \<noteq> [] then JObj [] else jget j f) fs v)
      else None)"

lemma map_of_obj_put: "map_of (obj_put m k v) k' = (if k' = k then Some v else map_of m k')"
  by (induction m) auto

lemma jget_jput [simp]: "is_obj j \<Longrightarrow> jget (jput j k v) k' = (if k' = k then v else jget j k')"
  by (cases j) (simp_all add: jget_def jput_def is_obj_def map_of_obj_put)

lemma is_obj_jput [simp]: "is_obj (jput j k v)"
  by (cases j) (simp_all add: jput_def is_obj_def)

lemma map_of_filter_key: "map_of (filter (\<lambda>(k', v). k' \<noteq> k) m) k' = (if k' = k then None else map_of m k')"
  by (induction m) auto

lemma jget_jdelete [simp]: "jget (jdelete j k) k' = (if k' = k then JNull else jget j k')"
  by (cases j) (simp_all add: jget_def jdelete_def map_of_filter_key)

lemma path_get_path_put:
  "path_put j fs v = Some j' \<Longrightarrow> path_get j' fs = v"
proof (induction fs arbitrary: j j')
  case (Cons f fs)
  then show ?case by (auto simp: path_get_def split: if_splits)
qed (simp add: path_get_def)

lemma path_get_path_put_other:
  assumes "path_put j (f # fs) v = Some j'" and "f \<noteq> g"
  shows "path_get j' (g # gs) = path_get j (g # gs)"
  using assms by (auto simp: path_get_def split: if_splits)

section \<open>Decoding into structs\<close>

text \<open>
  \<^verbatim>\<open>json.Unmarshal\<close> into a typed field: \<^verbatim>\<open>null\<close> and a missing key leave the zero value, a value of
  another type is an error, keys match up to case and the last match counts.  The text of an error is
  abridged; the operator only shows it to the user.
\<close>

type_synonym 'a decoded = "string + 'a"

definition type_error :: "string \<Rightarrow> 'a decoded" where
  "type_error ty = Inl (''json: cannot unmarshal into Go value of type '' @ ty)"

lemma type_error_not_Inr [simp]: "type_error ty \<noteq> Inr x"
  by (simp add: type_error_def)

definition decode_int64 :: "json \<Rightarrow> int decoded" where
  "decode_int64 j = (case j of JNull \<Rightarrow> Inr 0
     | JInt i \<Rightarrow> if in64 i then Inr i else type_error ''int64''
     | _ \<Rightarrow> type_error ''int64'')"

definition decode_string :: "json \<Rightarrow> string decoded" where
  "decode_string j = (case j of JNull \<Rightarrow> Inr [] | JStr s \<Rightarrow> Inr s | _ \<Rightarrow> type_error ''string'')"

fun decode_all :: "(json \<Rightarrow> 'a decoded) \<Rightarrow> json list \<Rightarrow> 'a list decoded" where
  "decode_all d [] = Inr []"
| "decode_all d (j # js) = (case d j of Inl e \<Rightarrow> Inl e
     | Inr x \<Rightarrow> (case decode_all d js of Inl e \<Rightarrow> Inl e | Inr xs \<Rightarrow> Inr (x # xs)))"

definition decode_list :: "(json \<Rightarrow> 'a decoded) \<Rightarrow> json \<Rightarrow> 'a list decoded" where
  "decode_list d j = (case j of JNull \<Rightarrow> Inr [] | JArr js \<Rightarrow> decode_all d js | _ \<Rightarrow> type_error ''slice'')"

definition decode_map :: "json \<Rightarrow> json decoded" where
  "decode_map j = (case j of JNull \<Rightarrow> Inr JNull | JObj m \<Rightarrow> Inr j | _ \<Rightarrow> type_error ''map'')"

definition struct_get :: "(string \<times> json) list \<Rightarrow> string \<Rightarrow> json" where
  "struct_get m k = (case List.find (\<lambda>(k', v). equal_fold k' k) (rev m) of Some (k', v) \<Rightarrow> v | None \<Rightarrow> JNull)"

definition decode_field :: "string \<Rightarrow> (json \<Rightarrow> 'a decoded) \<Rightarrow> json \<Rightarrow> 'a decoded" where
  "decode_field k d j = (case j of JNull \<Rightarrow> d JNull | JObj m \<Rightarrow> d (struct_get m k) | _ \<Rightarrow> type_error ''struct'')"

lemma decode_all_Inr:
  "decode_all d js = Inr xs \<longleftrightarrow> length xs = length js \<and> (\<forall>i < length js. d (js ! i) = Inr (xs ! i))"
proof (induction js arbitrary: xs)
  case (Cons j js)
  show ?case
  proof
    assume "decode_all d (j # js) = Inr xs"
    then obtain y ys where "d j = Inr y" and "decode_all d js = Inr ys" and "xs = y # ys"
      by (auto split: sum.splits)
    then show "length xs = length (j # js) \<and> (\<forall>i < length (j # js). d ((j # js) ! i) = Inr (xs ! i))"
      using Cons.IH by (auto simp: less_Suc_eq_0_disj)
  next
    assume r: "length xs = length (j # js) \<and> (\<forall>i < length (j # js). d ((j # js) ! i) = Inr (xs ! i))"
    then obtain y ys where xs: "xs = y # ys" by (cases xs) auto
    with r have "decode_all d js = Inr ys" using Cons.IH [of ys] by auto
    moreover from r xs have "d j = Inr y" by auto
    ultimately show "decode_all d (j # js) = Inr xs" using xs by simp
  qed
qed auto

end
