(* ===== verification/ApiTypes.thy ===== *)
theory ApiTypes
  imports Prelude
begin

text \<open>
  The custom resource \<open>AHVMigration\<close> (\<^verbatim>\<open>api/v1alpha1/ahvmigration_types.go\<close>) as records and
  datatypes.  A pointer field is an option, a \<^verbatim>\<open>LocalObjectReference\<close> is the name it holds, a time
  is a number of seconds.  A field whose name occurs in several Go structs carries a short prefix.
\<close>

section \<open>Specification\<close>

record CBTConfig =
  Enabled :: bool
  DeltaSyncThresholdMB :: int
  MaxDeltaRounds :: int
  NFSServer :: string

record AHVSourceSpec =
  Endpoint :: string
  SecretRef :: string
  Insecure :: bool
  CDIProxyURL :: string
  PEEndpoint :: string
  PESecretRef :: "string option"
  ShutdownBeforeMigration :: bool
  WarmMigration :: bool
  PauseBeforeCutover :: bool
  WarmFinalFullSync :: "bool option"
  CBT :: "CBTConfig option"

record GuestPrepSSHConfig =
  SSHSecretRef :: string
  sshPreMigrationScript :: string
  sshTimeoutSeconds :: int

record GuestPrepWinRMConfig =
  WinRMSecretRef :: string
  winrmPreMigrationScript :: string
  VirtIOWinISOPath :: string
  winrmTimeoutSeconds :: int
  UseHTTPS :: bool

record VMSpec =
  vmName :: string
  TargetName :: string
  GuestPrepMode :: string
  GuestPrepConfig :: "GuestPrepSSHConfig option"
  WinRMConfig :: "GuestPrepWinRMConfig option"
  UEFI :: "bool option"
  KeepMAC :: "bool option"
  DiskBus :: string
  NICModel :: string

record NetworkMapping =
  nmSource :: string
  nmTarget :: string
  TestTarget :: string
  nmTargetNamespace :: string

record StorageMapping =
  smSource :: string
  TargetStorageClass :: string
  AccessMode :: string
  VolumeMode :: string

record AHVMigrationSpec =
  Source :: AHVSourceSpec
  VMs :: "VMSpec list"
  NetworkMappings :: "NetworkMapping list"
  StorageMappings :: "StorageMapping list"
  TargetNamespace :: string

section \<open>Status\<close>

text \<open>The phases; \<open>PhaseEmpty\<close> is the empty string of a fresh object, \<open>PhaseOther\<close> any other text.\<close>

datatype AHVMigrationPhase =
  PhaseEmpty | PhasePending | PhaseGuestPrepping | PhaseFetchingVMInfo | PhasePreparingImages
| PhaseImportingDisks | PhaseWaitingForImport | PhaseWarmPreSync | PhaseWarmSyncing
| PhaseReadyForCutover | PhaseWarmCutover | PhaseWarmFinalSync | PhaseWarmDeltaSync
| PhaseWarmFinalDelta | PhaseCreatingVMs | PhaseTestRunning | PhaseTestPending
| PhaseSwitchingNetwork | PhaseCompleted | PhaseFailed | PhaseOther string

datatype ConditionStatus = ConditionTrue | ConditionFalse | ConditionUnknown

record Condition =
  cType :: string
  cStatus :: ConditionStatus
  cReason :: string
  cMessage :: string
  cLastTransitionTime :: int

definition ConditionVMInfoFetched :: string where "ConditionVMInfoFetched = ''VMInfoFetched''"
definition ConditionImagesReady :: string where "ConditionImagesReady = ''ImagesReady''"
definition ConditionDisksImported :: string where "ConditionDisksImported = ''DisksImported''"
definition ConditionVMsCreated :: string where "ConditionVMsCreated = ''VMsCreated''"
definition ConditionCompleted :: string where "ConditionCompleted = ''Completed''"
definition ConditionWarmSyncDone :: string where "ConditionWarmSyncDone = ''WarmSyncDone''"
definition ConditionTestApproved :: string where "ConditionTestApproved = ''TestApproved''"

definition AnnotationCutoverApproved :: string where
  "AnnotationCutoverApproved = ''migration.lightwell.co.jp/cutover-approved''"
definition AnnotationTestApproved :: string where
  "AnnotationTestApproved = ''migration.lightwell.co.jp/test-approved''"

record VMStatus =
  stName :: string
  stPhase :: string
  Progress :: int
  DataVolumeRefs :: "string list"
  TempImageRefs :: "string list"
  LastSnapshotUUID :: string
  SnapshotPaths :: "string list"
  DeltaRounds :: int
  LastDeltaBytes :: int
  SyncJobRefs :: "string list"
  PendingSnapshotUUID :: string
  PendingSnapshotPaths :: "string list"
  DeltaImageRefs :: "string list"
  AHVUUID :: string
  VMRef :: string
  stError :: string

definition emptyVMStatus :: VMStatus where
  "emptyVMStatus = \<lparr>stName = [], stPhase = [], Progress = 0, DataVolumeRefs = [], TempImageRefs = [],
     LastSnapshotUUID = [], SnapshotPaths = [], DeltaRounds = 0, LastDeltaBytes = 0, SyncJobRefs = [],
     PendingSnapshotUUID = [], PendingSnapshotPaths = [], DeltaImageRefs = [], AHVUUID = [], VMRef = [],
     stError = []\<rparr>"

record AHVMigrationStatus =
  Phase :: AHVMigrationPhase
  Conditions :: "Condition list"
  StartTime :: "int option"
  CompletionTime :: "int option"
  TotalVMs :: int
  CompletedVMs :: int
  FailedVMs :: int
  StatusVMs :: "VMStatus list"

record AHVMigration =
  Name :: string
  Namespace :: string
  Annotations :: "string \<rightharpoonup> string"
  Spec :: AHVMigrationSpec
  Status :: AHVMigrationStatus

abbreviation phaseOf :: "AHVMigration \<Rightarrow> AHVMigrationPhase" where
  "phaseOf mig \<equiv> Phase (Status mig)"

abbreviation sourceOf :: "AHVMigration \<Rightarrow> AHVSourceSpec" where
  "sourceOf mig \<equiv> Source (Spec mig)"

definition setPhase :: "AHVMigrationPhase \<Rightarrow> AHVMigration \<Rightarrow> AHVMigration" where
  "setPhase p mig = mig\<lparr>Status := (Status mig)\<lparr>Phase := p\<rparr>\<rparr>"

definition setVMs :: "VMStatus list \<Rightarrow> AHVMigration \<Rightarrow> AHVMigration" where
  "setVMs vms mig = mig\<lparr>Status := (Status mig)\<lparr>StatusVMs := vms\<rparr>\<rparr>"

lemma setPhase_simps [simp]:
  "phaseOf (setPhase p mig) = p" "StatusVMs (Status (setPhase p mig)) = StatusVMs (Status mig)"
  "Conditions (Status (setPhase p mig)) = Conditions (Status mig)"
  "Spec (setPhase p mig) = Spec mig" "Name (setPhase p mig) = Name mig"
  "Namespace (setPhase p mig) = Namespace mig" "Annotations (setPhase p mig) = Annotations mig"
  by (simp_all add: setPhase_def)

lemma setVMs_simps [simp]:
  "phaseOf (setVMs vms mig) = phaseOf mig" "StatusVMs (Status (setVMs vms mig)) = vms"
  "Conditions (Status (setVMs vms mig)) = Conditions (Status mig)"
  "Spec (setVMs vms mig) = Spec mig" "Name (setVMs vms mig) = Name mig"
  "Namespace (setVMs vms mig) = Namespace mig" "Annotations (setVMs vms mig) = Annotations mig"
  by (simp_all add: setVMs_def)

section \<open>Options of the specification\<close>

text \<open>\<open>cbtEnabled\<close>, \<open>deltaSyncThresholdBytes\<close>, \<open>maxDeltaRounds\<close> and \<open>warmFinalSyncEnabled\<close>.\<close>

definition cbtEnabled :: "AHVMigration \<Rightarrow> bool" where
  "cbtEnabled mig = (case CBT (sourceOf mig) of None \<Rightarrow> False | Some c \<Rightarrow> Enabled c)"

definition defaultDeltaSyncThresholdMB :: int where "defaultDeltaSyncThresholdMB = 512"
definition defaultMaxDeltaRounds :: int where "defaultMaxDeltaRounds = 10"

definition deltaSyncThresholdBytes :: "AHVMigration \<Rightarrow> int" where
  "deltaSyncThresholdBytes mig =
     (let mb = (case CBT (sourceOf mig) of None \<Rightarrow> defaultDeltaSyncThresholdMB
                | Some c \<Rightarrow> if DeltaSyncThresholdMB c > 0 then DeltaSyncThresholdMB c else defaultDeltaSyncThresholdMB)
      in wrap64 (wrap64 (mb * 1024) * 1024))"

definition maxDeltaRounds :: "AHVMigration \<Rightarrow> int" where
  "maxDeltaRounds mig =
     (case CBT (sourceOf mig) of None \<Rightarrow> defaultMaxDeltaRounds
      | Some c \<Rightarrow> if MaxDeltaRounds c > 0 then MaxDeltaRounds c else defaultMaxDeltaRounds)"

definition warmFinalSyncEnabled :: "AHVMigration \<Rightarrow> bool" where
  "warmFinalSyncEnabled mig = (case WarmFinalFullSync (sourceOf mig) of Some b \<Rightarrow> b | None \<Rightarrow> True)"

definition needsGuestPrepVM :: "VMSpec \<Rightarrow> bool" where
  "needsGuestPrepVM vm \<longleftrightarrow> (GuestPrepMode vm = ''ssh'' \<and> GuestPrepConfig vm \<noteq> None) \<or>
     (GuestPrepMode vm = ''winrm'' \<and> WinRMConfig vm \<noteq> None)"

definition needsGuestPrep :: "AHVMigration \<Rightarrow> bool" where
  "needsGuestPrep mig = list_ex needsGuestPrepVM (VMs (Spec mig))"

definition hasTestTarget :: "AHVMigration \<Rightarrow> bool" where
  "hasTestTarget mig = list_ex (\<lambda>nm. TestTarget nm \<noteq> []) (NetworkMappings (Spec mig))"

definition targetNS :: "AHVMigration \<Rightarrow> string" where
  "targetNS mig = (if TargetNamespace (Spec mig) \<noteq> [] then TargetNamespace (Spec mig) else Namespace mig)"

section \<open>Conditions\<close>

text \<open>\<open>setCondition\<close>: the first condition of the type is overwritten, a missing one is appended.\<close>

fun setConditionIn :: "Condition list \<Rightarrow> Condition \<Rightarrow> Condition list" where
  "setConditionIn [] c = [c]"
| "setConditionIn (x # xs) c = (if cType x = cType c then c # xs else x # setConditionIn xs c)"

definition setCondition :: "int \<Rightarrow> string \<Rightarrow> ConditionStatus \<Rightarrow> string \<Rightarrow> string \<Rightarrow> AHVMigration \<Rightarrow> AHVMigration" where
  "setCondition now ty st reason msg mig =
     mig\<lparr>Status := (Status mig)\<lparr>Conditions := setConditionIn (Conditions (Status mig))
        \<lparr>cType = ty, cStatus = st, cReason = reason, cMessage = msg, cLastTransitionTime = now\<rparr>\<rparr>\<rparr>"

lemma setCondition_simps [simp]:
  "phaseOf (setCondition now ty st reason msg mig) = phaseOf mig"
  "StatusVMs (Status (setCondition now ty st reason msg mig)) = StatusVMs (Status mig)"
  "CompletedVMs (Status (setCondition now ty st reason msg mig)) = CompletedVMs (Status mig)"
  "Spec (setCondition now ty st reason msg mig) = Spec mig" "Name (setCondition now ty st reason msg mig) = Name mig"
  "Namespace (setCondition now ty st reason msg mig) = Namespace mig"
  "Annotations (setCondition now ty st reason msg mig) = Annotations mig"
  by (simp_all add: setCondition_def)

definition findCondition :: "string \<Rightarrow> AHVMigration \<Rightarrow> Condition option" where
  "findCondition ty mig = List.find (\<lambda>c. cType c = ty) (Conditions (Status mig))"

lemma find_setConditionIn:
  "List.find (\<lambda>c. cType c = ty) (setConditionIn cs c) =
     (if cType c = ty then Some c else List.find (\<lambda>c. cType c = ty) cs)"
  by (induction cs) auto

lemma setConditionIn_types: "map cType (setConditionIn cs c) =
    (if cType c \<in> cType ` set cs then map cType cs else map cType cs @ [cType c])"
  by (induction cs) auto

text \<open>\<open>setCondition\<close> is an upsert: afterwards the type has the given status, reason and message, every
  other type has the condition it had, and a list without repeated types stays one.\<close>

theorem setCondition_upsert:
  assumes "distinct (map cType (Conditions (Status mig)))"
  shows "map_option (\<lambda>c. (cStatus c, cReason c, cMessage c)) (findCondition ty (setCondition now ty st reason msg mig)) =
      Some (st, reason, msg) \<and>
    (\<forall>ty'. ty' \<noteq> ty \<longrightarrow> findCondition ty' (setCondition now ty st reason msg mig) = findCondition ty' mig) \<and>
    distinct (map cType (Conditions (Status (setCondition now ty st reason msg mig))))"
  using assms
  by (auto simp: findCondition_def setCondition_def find_setConditionIn setConditionIn_types)

section \<open>An example\<close>

text \<open>A warm migration of one machine with change tracking and a test network, for the examples below.\<close>

definition exampleSource :: AHVSourceSpec where
  "exampleSource = \<lparr>Endpoint = ''https://pc:9440'', SecretRef = ''prism'', Insecure = True, CDIProxyURL = [],
     PEEndpoint = [], PESecretRef = None, ShutdownBeforeMigration = False, WarmMigration = True,
     PauseBeforeCutover = False, WarmFinalFullSync = None,
     CBT = Some \<lparr>Enabled = True, DeltaSyncThresholdMB = 0, MaxDeltaRounds = 0, NFSServer = ''nfs''\<rparr>\<rparr>"

definition exampleVM :: VMSpec where
  "exampleVM = \<lparr>vmName = ''web'', TargetName = [], GuestPrepMode = [], GuestPrepConfig = None, WinRMConfig = None,
     UEFI = None, KeepMAC = None, DiskBus = [], NICModel = []\<rparr>"

definition exampleMigration :: AHVMigration where
  "exampleMigration = \<lparr>Name = ''mig'', Namespace = ''ns'', Annotations = Map.empty,
     Spec = \<lparr>Source = exampleSource, VMs = [exampleVM],
             NetworkMappings = [\<lparr>nmSource = ''lan'', nmTarget = ''prod'', TestTarget = ''test'', nmTargetNamespace = []\<rparr>],
             StorageMappings = [], TargetNamespace = []\<rparr>,
     Status = \<lparr>Phase = PhaseEmpty, Conditions = [], StartTime = None, CompletionTime = None, TotalVMs = 0,
               CompletedVMs = 0, FailedVMs = 0, StatusVMs = []\<rparr>\<rparr>"

lemmas example_defs = exampleMigration_def exampleSource_def exampleVM_def

theorem setCondition_upsert_witness:
  "map_option cReason (findCondition ''A'' (setCondition 5 ''A'' ConditionTrue ''R'' ''M'' exampleMigration)) = Some ''R''"
proof -
  have "distinct (map cType (Conditions (Status exampleMigration)))" by (simp add: exampleMigration_def)
  from setCondition_upsert [OF this, of "''A''" 5 ConditionTrue "''R''" "''M''"] show ?thesis
    by (cases "findCondition ''A'' (setCondition 5 ''A'' ConditionTrue ''R'' ''M'' exampleMigration)") simp_all
qed

end
