(* ===== verification/Cluster.thy ===== *)
theory Cluster
  imports GoMonad Json ApiTypes
begin

text \<open>
  The world the operator talks to: the Kubernetes API through the controller-runtime client, HTTP
  servers, SSH and WinRM hosts, the clock and the reconcile context.  None of it is code of the
  repository, so it is a parameter: a record \<open>env\<close> of functions from the trace so far and the request
  to an answer.  Each request of the operator is one operation below and one constructor of \<open>event\<close>.
\<close>

section \<open>Errors of the Kubernetes client\<close>

text \<open>The classes the code distinguishes (\<^verbatim>\<open>apierrors.IsNotFound\<close>, \<^verbatim>\<open>IsAlreadyExists\<close>), with the error text.\<close>

datatype kerr = NotFound (kerr_text: string) | AlreadyExists (kerr_text: string) | OtherErr (kerr_text: string)

definition IsNotFound :: "kerr \<Rightarrow> bool" where
  "IsNotFound e = (case e of NotFound _ \<Rightarrow> True | _ \<Rightarrow> False)"

definition IsAlreadyExists :: "kerr \<Rightarrow> bool" where
  "IsAlreadyExists e = (case e of AlreadyExists _ \<Rightarrow> True | _ \<Rightarrow> False)"

section \<open>Typed objects the operator creates\<close>

text \<open>The fields the operator sets of a Secret, a ConfigMap and a Job.\<close>

type_synonym labels = "(string \<times> string) list"

record Secret =
  secName :: string
  secNamespace :: string
  secLabels :: labels
  secType :: string
  secStringData :: "(string \<times> string) list"

record ConfigMap =
  cmName :: string
  cmNamespace :: string
  cmLabels :: labels
  cmData :: "(string \<times> string) list"

record VolumeMount =
  mountName :: string
  mountPath :: string
  mountReadOnly :: bool

record VolumeDevice =
  devName :: string
  devicePath :: string

datatype VolumeSource =
  ConfigMapVolume string
| NFSVolume string string bool
| PVCVolume string

record Container =
  ctrName :: string
  ctrImage :: string
  ctrArgs :: "string list"
  ctrVolumeMounts :: "VolumeMount list"
  ctrVolumeDevices :: "VolumeDevice list"
  ctrRunAsUser :: int
  ctrRunAsGroup :: int
  ctrAllowPrivilegeEscalation :: bool
  ctrDropCapabilities :: "string list"

record Job =
  jobName :: string
  jobNamespace :: string
  jobLabels :: labels
  jobBackoffLimit :: int
  jobTTLSecondsAfterFinished :: int
  jobTemplateLabels :: labels
  jobRestartPolicy :: string
  jobServiceAccountName :: string
  jobContainers :: "Container list"
  jobVolumes :: "(string \<times> VolumeSource) list"

text \<open>The conditions of a Job's status, the part of it that is read.\<close>

type_synonym JobStatus = "(string \<times> ConditionStatus) list"

section \<open>HTTP and remote execution\<close>

text \<open>A response body: its bytes, and what the JSON parser makes of them (an error text or a value).\<close>

record Body =
  rawBody :: string
  parsed :: "string + json"

text \<open>\<^verbatim>\<open>http.NewRequest\<close> failed, \<^verbatim>\<open>Do\<close> failed, reading the body failed, or a response with status and body.\<close>

datatype http_result = ReqErr string | DoErr string | ReadErr string | Resp int Body

section \<open>Events and environment\<close>

text \<open>Custom resources without Go types (DataVolume, VirtualMachine, VirtualMachineInstance) are JSON values.\<close>

datatype ukind = DataVolume | VirtualMachine | VirtualMachineInstance

datatype event =
  GetMigration string string "kerr + AHVMigration"
| PatchStatus AHVMigrationStatus AHVMigrationStatus "kerr option"
| GetSecret string string "kerr + (string \<times> string) list"
| CreateSecret Secret "kerr option"
| GetObj ukind string string "kerr + json"
| CreateObj ukind json "kerr option"
| PatchObj ukind json json "kerr option"
| DeleteObj ukind string string "kerr option"
| CreateConfigMap ConfigMap "kerr option"
| DeleteConfigMap string string "kerr option"
| GetJob string string "kerr + JobStatus"
| CreateJob Job "kerr option"
| DeleteJob string string "kerr option"
| Http string string string string string "json option" http_result
| CtxDone "string option"
| Sleep int "string option"
| Now int
| SshParseKey string "string option"
| SshDial string string string int "string option"
| SshSession "string option"
| SshRun string "(string \<times> string) + string"
| WinrmClient string int bool string string int "string option"
| WinrmRun string "(string \<times> string \<times> string) + (string \<times> string \<times> int)"

text \<open>
  One answer function per request; each is applied to the trace so far.  The last fields are the
  process environment and pure functions of third-party packages: the accessors of \<^verbatim>\<open>unstructured\<close> objects and the canonical text of
  a resource quantity.
\<close>

record env =
  ansMigration :: "event list \<Rightarrow> string \<Rightarrow> string \<Rightarrow> kerr + AHVMigration"
  ansPatchStatus :: "event list \<Rightarrow> AHVMigrationStatus \<Rightarrow> kerr option"
  ansGetSecret :: "event list \<Rightarrow> string \<Rightarrow> string \<Rightarrow> kerr + (string \<times> string) list"
  ansCreateSecret :: "event list \<Rightarrow> Secret \<Rightarrow> kerr option"
  ansGetObj :: "event list \<Rightarrow> ukind \<Rightarrow> string \<Rightarrow> string \<Rightarrow> kerr + json"
  ansCreateObj :: "event list \<Rightarrow> ukind \<Rightarrow> json \<Rightarrow> kerr option"
  ansPatchObj :: "event list \<Rightarrow> ukind \<Rightarrow> json \<Rightarrow> kerr option"
  ansDeleteObj :: "event list \<Rightarrow> ukind \<Rightarrow> string \<Rightarrow> string \<Rightarrow> kerr option"
  ansCreateConfigMap :: "event list \<Rightarrow> ConfigMap \<Rightarrow> kerr option"
  ansDeleteConfigMap :: "event list \<Rightarrow> string \<Rightarrow> string \<Rightarrow> kerr option"
  ansGetJob :: "event list \<Rightarrow> string \<Rightarrow> string \<Rightarrow> kerr + JobStatus"
  ansCreateJob :: "event list \<Rightarrow> Job \<Rightarrow> kerr option"
  ansDeleteJob :: "event list \<Rightarrow> string \<Rightarrow> string \<Rightarrow> kerr option"
  ansHttp :: "event list \<Rightarrow> string \<Rightarrow> string \<Rightarrow> string \<Rightarrow> json option \<Rightarrow> http_result"
  ansCtxDone :: "event list \<Rightarrow> string option"
  ansSleep :: "event list \<Rightarrow> int \<Rightarrow> string option"
  ansNow :: "event list \<Rightarrow> int"
  ansSshParseKey :: "event list \<Rightarrow> string \<Rightarrow> string option"
  ansSshDial :: "event list \<Rightarrow> string \<Rightarrow> string option"
  ansSshSession :: "event list \<Rightarrow> string option"
  ansSshRun :: "event list \<Rightarrow> string \<Rightarrow> (string \<times> string) + string"
  ansWinrmClient :: "event list \<Rightarrow> string \<Rightarrow> string option"
  ansWinrmRun :: "event list \<Rightarrow> string \<Rightarrow> (string \<times> string \<times> string) + (string \<times> string \<times> int)"
  ansGetenv :: "string \<Rightarrow> string"
  nestedString :: "json \<Rightarrow> string list \<Rightarrow> string"
  nestedBool :: "json \<Rightarrow> string list \<Rightarrow> bool"
  nestedMap :: "json \<Rightarrow> string list \<Rightarrow> json"
  setNested :: "json \<Rightarrow> string list \<Rightarrow> json \<Rightarrow> json option"
  quantity :: "string \<Rightarrow> string"

type_synonym 'a cmd = "(event, 'a) go"

section \<open>Operations\<close>

definition k8s_get_migration :: "env \<Rightarrow> string \<Rightarrow> string \<Rightarrow> (kerr + AHVMigration) cmd" where
  "k8s_get_migration E ns n = op (\<lambda>t. ansMigration E t ns n) (GetMigration ns n)"

text \<open>\<^verbatim>\<open>r.Status().Patch(ctx, patch, client.MergeFrom(mig))\<close>: the merge patch from \<open>old\<close> to \<open>new\<close>.\<close>

definition k8s_patch_status :: "env \<Rightarrow> AHVMigration \<Rightarrow> AHVMigration \<Rightarrow> kerr option cmd" where
  "k8s_patch_status E mig patch = op (\<lambda>t. ansPatchStatus E t (Status patch)) (PatchStatus (Status mig) (Status patch))"

definition k8s_get_secret :: "env \<Rightarrow> string \<Rightarrow> string \<Rightarrow> (kerr + (string \<times> string) list) cmd" where
  "k8s_get_secret E ns n = op (\<lambda>t. ansGetSecret E t ns n) (GetSecret ns n)"

definition k8s_create_secret :: "env \<Rightarrow> Secret \<Rightarrow> kerr option cmd" where
  "k8s_create_secret E s = op (\<lambda>t. ansCreateSecret E t s) (CreateSecret s)"

definition k8s_get :: "env \<Rightarrow> ukind \<Rightarrow> string \<Rightarrow> string \<Rightarrow> (kerr + json) cmd" where
  "k8s_get E k ns n = op (\<lambda>t. ansGetObj E t k ns n) (GetObj k ns n)"

definition k8s_create :: "env \<Rightarrow> ukind \<Rightarrow> json \<Rightarrow> kerr option cmd" where
  "k8s_create E k j = op (\<lambda>t. ansCreateObj E t k j) (CreateObj k j)"

definition k8s_patch :: "env \<Rightarrow> ukind \<Rightarrow> json \<Rightarrow> json \<Rightarrow> kerr option cmd" where
  "k8s_patch E k old new = op (\<lambda>t. ansPatchObj E t k new) (PatchObj k old new)"

definition k8s_delete :: "env \<Rightarrow> ukind \<Rightarrow> string \<Rightarrow> string \<Rightarrow> kerr option cmd" where
  "k8s_delete E k ns n = op (\<lambda>t. ansDeleteObj E t k ns n) (DeleteObj k ns n)"

definition k8s_create_configmap :: "env \<Rightarrow> ConfigMap \<Rightarrow> kerr option cmd" where
  "k8s_create_configmap E c = op (\<lambda>t. ansCreateConfigMap E t c) (CreateConfigMap c)"

definition k8s_delete_configmap :: "env \<Rightarrow> string \<Rightarrow> string \<Rightarrow> kerr option cmd" where
  "k8s_delete_configmap E ns n = op (\<lambda>t. ansDeleteConfigMap E t ns n) (DeleteConfigMap ns n)"

definition k8s_get_job :: "env \<Rightarrow> string \<Rightarrow> string \<Rightarrow> (kerr + JobStatus) cmd" where
  "k8s_get_job E ns n = op (\<lambda>t. ansGetJob E t ns n) (GetJob ns n)"

definition k8s_create_job :: "env \<Rightarrow> Job \<Rightarrow> kerr option cmd" where
  "k8s_create_job E j = op (\<lambda>t. ansCreateJob E t j) (CreateJob j)"

definition k8s_delete_job :: "env \<Rightarrow> string \<Rightarrow> string \<Rightarrow> kerr option cmd" where
  "k8s_delete_job E ns n = op (\<lambda>t. ansDeleteJob E t ns n) (DeleteJob ns n)"

definition http_do :: "env \<Rightarrow> string \<Rightarrow> string \<Rightarrow> string \<Rightarrow> string \<Rightarrow> string \<Rightarrow> json option \<Rightarrow> http_result cmd" where
  "http_do E base user pass method path body =
     op (\<lambda>t. ansHttp E t method (base @ path) user body) (Http base user pass method path body)"

definition ctx_done :: "env \<Rightarrow> string option cmd" where
  "ctx_done E = op (ansCtxDone E) CtxDone"

text \<open>A wait for \<open>secs\<close> seconds: \<open>None\<close> when the timer fired, the context's error when it ended first.\<close>

definition go_sleep :: "env \<Rightarrow> int \<Rightarrow> string option cmd" where
  "go_sleep E secs = op (\<lambda>t. ansSleep E t secs) (Sleep secs)"

definition metav1_now :: "env \<Rightarrow> int cmd" where
  "metav1_now E = op (ansNow E) Now"

definition ssh_parse_key :: "env \<Rightarrow> string \<Rightarrow> string option cmd" where
  "ssh_parse_key E k = op (\<lambda>t. ansSshParseKey E t k) (SshParseKey k)"

definition ssh_dial :: "env \<Rightarrow> string \<Rightarrow> string \<Rightarrow> string \<Rightarrow> int \<Rightarrow> string option cmd" where
  "ssh_dial E host user auth timeout = op (\<lambda>t. ansSshDial E t host) (SshDial host user auth timeout)"

definition ssh_session :: "env \<Rightarrow> string option cmd" where
  "ssh_session E = op (ansSshSession E) SshSession"

definition ssh_run :: "env \<Rightarrow> string \<Rightarrow> ((string \<times> string) + string) cmd" where
  "ssh_run E script = op (\<lambda>t. ansSshRun E t script) (SshRun script)"

definition winrm_client :: "env \<Rightarrow> string \<Rightarrow> int \<Rightarrow> bool \<Rightarrow> string \<Rightarrow> string \<Rightarrow> int \<Rightarrow> string option cmd" where
  "winrm_client E h port https user pass timeout =
     op (\<lambda>t. ansWinrmClient E t h) (WinrmClient h port https user pass timeout)"

definition winrm_run :: "env \<Rightarrow> string \<Rightarrow> ((string \<times> string \<times> string) + (string \<times> string \<times> int)) cmd" where
  "winrm_run E script = op (\<lambda>t. ansWinrmRun E t script) (WinrmRun script)"

lemmas op_defs = k8s_get_migration_def k8s_patch_status_def k8s_get_secret_def k8s_create_secret_def
  k8s_get_def k8s_create_def k8s_patch_def k8s_delete_def k8s_create_configmap_def
  k8s_delete_configmap_def k8s_get_job_def k8s_create_job_def k8s_delete_job_def http_do_def
  ctx_done_def go_sleep_def metav1_now_def ssh_parse_key_def ssh_dial_def
  ssh_session_def ssh_run_def winrm_client_def winrm_run_def

section \<open>Documented behaviour of the unstructured accessors\<close>

text \<open>
  What the code relies on of \<^verbatim>\<open>unstructured.NestedString\<close>, \<^verbatim>\<open>NestedBool\<close>, \<^verbatim>\<open>NestedMap\<close>,
  \<^verbatim>\<open>SetNestedField\<close>, \<^verbatim>\<open>SetNestedMap\<close> and \<^verbatim>\<open>SetNestedSlice\<close>: they read and write the value at the end of
  a path of keys.
\<close>

definition unstructured_laws :: "env \<Rightarrow> bool" where
  "unstructured_laws E \<longleftrightarrow>
     (\<forall>j fs. nestedString E j fs = as_string (path_get j fs)) \<and>
     (\<forall>j fs. nestedBool E j fs = as_bool (path_get j fs)) \<and>
     (\<forall>j fs. is_obj (path_get j fs) \<longrightarrow> nestedMap E j fs = path_get j fs) \<and>
     (\<forall>j fs v. setNested E j fs v = path_put j fs v)"

text \<open>\<^verbatim>\<open>GetName()\<close> of an unstructured object.\<close>

definition objName :: "env \<Rightarrow> json \<Rightarrow> string" where
  "objName E j = nestedString E j [''metadata'', ''name'']"

text \<open>A call of a setter whose error is discarded: the object stays as it is when the setter fails.\<close>

definition set_or_keep :: "env \<Rightarrow> json \<Rightarrow> string list \<Rightarrow> json \<Rightarrow> json" where
  "set_or_keep E j fs v = (case setNested E j fs v of Some j' \<Rightarrow> j' | None \<Rightarrow> j)"

section \<open>Outcomes of a handler\<close>

text \<open>\<^verbatim>\<open>ctrl.Result\<close>, and what a handler returns: a result, an error, or a runtime panic.\<close>

datatype ctrl_result = NoRequeue | RequeueNow | RequeueAfter int

datatype outcome = Done ctrl_result | Err string | Panic string

definition requeueInterval :: int where "requeueInterval = 30"

text \<open>The verb \<^verbatim>\<open>%q\<close>: the string in double quotes with quotes, backslashes and control bytes escaped.\<close>

definition hex_digit :: "nat \<Rightarrow> char" where
  "hex_digit d = ''0123456789abcdef'' ! d"

definition quote_char :: "char \<Rightarrow> string" where
  "quote_char c =
     (let n = of_char c :: nat
      in if n = 34 then [CHR 0x5C, CHR 0x22] else if n = 92 then [CHR 0x5C, CHR 0x5C]
         else if n = 7 then [CHR 0x5C, CHR ''a''] else if n = 8 then [CHR 0x5C, CHR ''b'']
         else if n = 9 then [CHR 0x5C, CHR ''t''] else if n = 10 then [CHR 0x5C, CHR ''n'']
         else if n = 11 then [CHR 0x5C, CHR ''v''] else if n = 12 then [CHR 0x5C, CHR ''f'']
         else if n = 13 then [CHR 0x5C, CHR ''r'']
         else if n < 32 \<or> n = 127 then [CHR 0x5C, CHR ''x'', hex_digit (n div 16), hex_digit (n mod 16)]
         else [c])"

definition go_quote :: "string \<Rightarrow> string" where
  "go_quote s = [CHR 0x22] @ concat (map quote_char s) @ [CHR 0x22]"


section \<open>An environment for examples\<close>

text \<open>Nothing exists, nothing can be reached, writes succeed and the clock stands still.\<close>

definition idle_env :: env where
  "idle_env = \<lparr>
     ansMigration = (\<lambda>t ns n. Inl (NotFound n)),
     ansPatchStatus = (\<lambda>t st. None),
     ansGetSecret = (\<lambda>t ns n. Inl (NotFound n)),
     ansCreateSecret = (\<lambda>t s. None),
     ansGetObj = (\<lambda>t k ns n. Inl (NotFound n)),
     ansCreateObj = (\<lambda>t k j. None),
     ansPatchObj = (\<lambda>t k j. None),
     ansDeleteObj = (\<lambda>t k ns n. None),
     ansCreateConfigMap = (\<lambda>t c. None),
     ansDeleteConfigMap = (\<lambda>t ns n. None),
     ansGetJob = (\<lambda>t ns n. Inl (NotFound n)),
     ansCreateJob = (\<lambda>t j. None),
     ansDeleteJob = (\<lambda>t ns n. None),
     ansHttp = (\<lambda>t m url u b. DoErr ''connection refused''),
     ansCtxDone = (\<lambda>t. None),
     ansSleep = (\<lambda>t n. None),
     ansNow = (\<lambda>t. 0),
     ansSshParseKey = (\<lambda>t k. None),
     ansSshDial = (\<lambda>t h. None),
     ansSshSession = (\<lambda>t. None),
     ansSshRun = (\<lambda>t s. Inr []),
     ansWinrmClient = (\<lambda>t h. None),
     ansWinrmRun = (\<lambda>t s. Inr ([], [], 0)),
     ansGetenv = (\<lambda>k. []),
     nestedString = (\<lambda>j fs. as_string (path_get j fs)),
     nestedBool = (\<lambda>j fs. as_bool (path_get j fs)),
     nestedMap = path_get,
     setNested = path_put,
     quantity = (\<lambda>s. s)\<rparr>"

lemma idle_env_laws: "unstructured_laws idle_env"
  by (simp add: unstructured_laws_def idle_env_def)

text \<open>A successful response with a JSON document.\<close>

definition ok_json :: "json \<Rightarrow> http_result" where
  "ok_json j = Resp 200 \<lparr>rawBody = [], parsed = Inr j\<rparr>"

end
