(* ===== verification/Prism.thy ===== *)
theory Prism
  imports Cluster Regions "HOL-Library.Multiset" "HOL-Library.Char_ord" "HOL-Library.List_Lexorder" "HOL-Library.Product_Lexorder"
begin

text \<open>
  The Prism Central REST client, \<^verbatim>\<open>controllers/prism_client.go\<close>: one definition per function, in the
  order of the file.  A function that returns a value and an error returns \<open>Inl\<close> of the error text or
  \<open>Inr\<close> of the value; an error alone is an option.
\<close>

section \<open>Types\<close>

record PrismConn =
  baseURL :: string
  username :: string
  password :: string

text \<open>The client proper: a connection and an optional connection to Prism Element for power operations.\<close>

record PrismClient = PrismConn +
  pe :: "PrismConn option"

record DiskInfo =
  diIndex :: int
  diUUID :: string
  SizeMB :: int
  DeviceType :: string
  SourceURL :: string
  IsBare :: bool

record NICInfo =
  NetworkName :: string
  MACAddress :: string

record VMInfo =
  viUUID :: string
  viName :: string
  NumCPUs :: int
  MemoryMB :: int
  DiskList :: "DiskInfo list"
  NICList :: "NICInfo list"
  IsUEFI :: bool

section \<open>Construction and requests\<close>

definition secret_data :: "(string \<times> string) list \<Rightarrow> string \<Rightarrow> string" where
  "secret_data d k = (case map_of d k of Some v \<Rightarrow> v | None \<Rightarrow> [])"

definition NewPrismClient :: "env \<Rightarrow> AHVMigration \<Rightarrow> (string + PrismClient) cmd" where
  "NewPrismClient E mig =
     do { secret \<leftarrow> k8s_get_secret E (Namespace mig) (SecretRef (sourceOf mig));
          case secret of
            Inl err \<Rightarrow> return (Inl (''secret '' @ SecretRef (sourceOf mig) @ '' not found: '' @ kerr_text err))
          | Inr d \<Rightarrow>
              let user = secret_data d ''user''; pass = secret_data d ''password''
              in if user = [] \<or> pass = [] then
                   return (Inl (''secret '' @ SecretRef (sourceOf mig) @ '' must have 'user' and 'password' keys''))
                 else
                   let conn = \<lparr>baseURL = trim_right (Endpoint (sourceOf mig)) (CHR ''/''), username = user,
                               password = pass, pe = None\<rparr>
                   in if PEEndpoint (sourceOf mig) = [] then return (Inr conn)
                      else
                        let peURL = trim_right (PEEndpoint (sourceOf mig)) (CHR ''/'')
                        in case PESecretRef (sourceOf mig) of
                             None \<Rightarrow> return (Inr (conn\<lparr>pe := Some \<lparr>baseURL = peURL, username = user, password = pass\<rparr>\<rparr>))
                           | Some ref \<Rightarrow>
                               do { peSecret \<leftarrow> k8s_get_secret E (Namespace mig) ref;
                                    case peSecret of
                                      Inl err \<Rightarrow> return (Inl (''PE secret '' @ ref @ '' not found: '' @ kerr_text err))
                                    | Inr pd \<Rightarrow>
                                        let peUser = secret_data pd ''user''; pePass = secret_data pd ''password''
                                        in if peUser = [] \<or> pePass = [] then
                                             return (Inl (''PE secret '' @ ref @ '' must have 'user' and 'password' keys''))
                                           else
                                             return (Inr (conn\<lparr>pe := Some \<lparr>baseURL = peURL, username = peUser,
                                                                           password = pePass\<rparr>\<rparr>)) } }"

text \<open>\<open>doRequest\<close>: what the caller sees of an answer, and the request itself.\<close>

definition responseResult :: "string \<Rightarrow> string \<Rightarrow> http_result \<Rightarrow> string + Body" where
  "responseResult method path r =
     (case r of
        ReqErr e \<Rightarrow> Inl e
      | DoErr e \<Rightarrow> Inl (''request '' @ method @ '' '' @ path @ '': '' @ e)
      | ReadErr e \<Rightarrow> Inl e
      | Resp status b \<Rightarrow>
          if status < 200 \<or> status \<ge> 300 then
            Inl (''Prism API '' @ method @ '' '' @ path @ '': HTTP '' @ fmt_d status @ '': '' @ clip 200 (rawBody b))
          else Inr b)"

definition doRequest :: "env \<Rightarrow> 'a PrismConn_scheme \<Rightarrow> string \<Rightarrow> string \<Rightarrow> json option \<Rightarrow> (string + Body) cmd" where
  "doRequest E p method path body =
     do { r \<leftarrow> http_do E (baseURL p) (username p) (password p) method path body;
          return (responseResult method path r) }"

text \<open>\<^verbatim>\<open>json.Unmarshal\<close> of a response body.\<close>

definition unmarshal :: "(json \<Rightarrow> 'a decoded) \<Rightarrow> Body \<Rightarrow> 'a decoded" where
  "unmarshal dec b = (case parsed b of Inl e \<Rightarrow> Inl e | Inr j \<Rightarrow> dec j)"

text \<open>The paths of the API.\<close>

definition vmPath :: "string \<Rightarrow> string" where "vmPath u = ''/api/nutanix/v3/vms/'' @ u"
definition snapshotPath :: "string \<Rightarrow> string" where "snapshotPath u = ''/api/nutanix/v3/vm_snapshots/'' @ u"
definition imagePath :: "string \<Rightarrow> string" where "imagePath u = ''/api/nutanix/v3/images/'' @ u"
definition taskPath :: "string \<Rightarrow> string" where "taskPath u = ''/api/nutanix/v3/tasks/'' @ u"
definition powerPath :: "string \<Rightarrow> string" where "powerPath u = ''/api/nutanix/v2.0/vms/'' @ u @ ''/set_power_state''"

section \<open>Virtual machines\<close>

definition imageURL :: "'a PrismConn_scheme \<Rightarrow> string \<Rightarrow> string" where
  "imageURL p img = baseURL p @ imagePath img @ ''/file''"

text \<open>One entry of \<^verbatim>\<open>disk_list\<close>; \<open>None\<close> for a CD-ROM, which is skipped.\<close>

definition parseDisk :: "'a PrismConn_scheme \<Rightarrow> nat \<Rightarrow> json \<Rightarrow> DiskInfo option" where
  "parseDisk p idx disk =
     (let deviceType = as_string (jget (jget disk ''device_properties'') ''device_type'')
      in if deviceType = ''CDROM'' then None
         else
           let sz = (case as_int64 (jget disk ''disk_size_mib'') of Some v \<Rightarrow> v | None \<Rightarrow> 0);
               size = (if sz = 0 then 20480 else sz);
               ref = jget disk ''data_source_reference'';
               imgUUID = (if is_obj ref then as_string (jget ref ''uuid'') else []);
               url = (if imgUUID \<noteq> [] then imageURL p imgUUID else []);
               diskUUID = as_string (jget disk ''uuid'');
               bare = (url = [] \<and> diskUUID \<noteq> [])
           in Some \<lparr>diIndex = int idx, diUUID = (if bare then diskUUID else imgUUID), SizeMB = size,
                    DeviceType = deviceType, SourceURL = url, IsBare = bare\<rparr>)"

text \<open>The loop over \<^verbatim>\<open>disk_list\<close>; \<open>acc\<close> is \<^verbatim>\<open>info.DiskList\<close> so far, whose length is the next index.\<close>

fun parseDisks :: "'a PrismConn_scheme \<Rightarrow> DiskInfo list \<Rightarrow> json list \<Rightarrow> DiskInfo list" where
  "parseDisks p acc [] = acc"
| "parseDisks p acc (d # ds) =
     (case parseDisk p (length acc) d of None \<Rightarrow> parseDisks p acc ds | Some i \<Rightarrow> parseDisks p (acc @ [i]) ds)"

definition parseNIC :: "json \<Rightarrow> NICInfo" where
  "parseNIC n = \<lparr>NetworkName = as_string (jget (jget n ''subnet_reference'') ''name''),
                 MACAddress = as_string (jget n ''mac_address'')\<rparr>"

definition parseVM :: "'a PrismConn_scheme \<Rightarrow> string \<Rightarrow> json \<Rightarrow> VMInfo" where
  "parseVM p uuid vm =
     (let spec = jget vm ''spec''; resources = jget spec ''resources'';
          cpus0 = (case as_int64 (jget resources ''num_vcpus_per_socket'') of Some v \<Rightarrow> v | None \<Rightarrow> 0);
          cpus = (case as_int64 (jget resources ''num_sockets'') of Some v \<Rightarrow> wrap64 (cpus0 * v) | None \<Rightarrow> cpus0);
          mem = (case as_int64 (jget resources ''memory_size_mib'') of Some v \<Rightarrow> v | None \<Rightarrow> 0);
          bootCfg = jget resources ''boot_config''
      in \<lparr>viUUID = uuid, viName = as_string (jget spec ''name''),
          NumCPUs = (if cpus = 0 then 1 else cpus),
          MemoryMB = (if mem = 0 then 2048 else mem),
          DiskList = parseDisks p [] (as_list (jget resources ''disk_list'')),
          NICList = map parseNIC (as_list (jget resources ''nic_list'')),
          IsUEFI = (is_obj bootCfg \<and> equal_fold (as_string (jget bootCfg ''boot_type'')) ''UEFI'')\<rparr>)"

definition GetVMByUUID :: "env \<Rightarrow> 'a PrismConn_scheme \<Rightarrow> string \<Rightarrow> (string + VMInfo) cmd" where
  "GetVMByUUID E p uuid =
     do { data \<leftarrow> doRequest E p ''GET'' (vmPath uuid) None;
          return (case data of Inl err \<Rightarrow> Inl err
          | Inr b \<Rightarrow> (case unmarshal decode_map b of
              Inl err \<Rightarrow> Inl (''parse VM: '' @ err)
            | Inr vm \<Rightarrow> Inr (parseVM p uuid vm))) }"

text \<open>The UUID of the first entity of the list response whose \<^verbatim>\<open>spec.name\<close> is the name asked for.\<close>

fun firstEntity :: "string \<Rightarrow> json list \<Rightarrow> string option" where
  "firstEntity name [] = None"
| "firstEntity name (ent # ents) =
     (if as_string (jget (jget ent ''spec'') ''name'') \<noteq> name then firstEntity name ents
      else Some (as_string (jget (jget ent ''metadata'') ''uuid'')))"

definition GetVMByName :: "env \<Rightarrow> 'a PrismConn_scheme \<Rightarrow> string \<Rightarrow> (string + VMInfo) cmd" where
  "GetVMByName E p name =
     do { data \<leftarrow> doRequest E p ''POST'' ''/api/nutanix/v3/vms/list''
            (Some (JObj [(''kind'', JStr ''vm''), (''filter'', JStr (''vm_name=='' @ name))]));
          case data of Inl err \<Rightarrow> return (Inl err)
          | Inr b \<Rightarrow> (case unmarshal (decode_field ''entities'' (decode_list decode_map)) b of
              Inl err \<Rightarrow> return (Inl (''parse VMs list: '' @ err))
            | Inr entities \<Rightarrow> (case firstEntity name entities of
                Some uuid \<Rightarrow> GetVMByUUID E p uuid
              | None \<Rightarrow> return (Inl (''VM '' @ go_quote name @ '' not found in Prism'')))) }"

section \<open>Snapshots\<close>

text \<open>
  A polling loop: at most \<open>n\<close> attempts, each of which either ends the function or asks for another one,
  and an error when the attempts are used up.
\<close>

definition poll :: "nat \<Rightarrow> (unit, 'r) ctl cmd \<Rightarrow> 'r \<Rightarrow> 'r cmd" where
  "poll n probe timeout = after (foreach [0..<n] () (\<lambda>i s. probe)) (\<lambda>s. return timeout)"

definition probeSnapshot :: "env \<Rightarrow> 'a PrismConn_scheme \<Rightarrow> string \<Rightarrow> (unit, string + string) ctl cmd" where
  "probeSnapshot E p snapUUID =
     do { data \<leftarrow> doRequest E p ''GET'' (snapshotPath snapUUID) None;
          case data of Inl err \<Rightarrow> return (Ret (Inl err))
          | Inr b \<Rightarrow> (case unmarshal decode_map b of Inl err \<Rightarrow> return (Ret (Inl err))
            | Inr snap \<Rightarrow>
                let state = fst (unstructuredNestedString snap [''status'', ''state''])
                in if state = ''COMPLETE'' then return (Ret (Inr snapUUID))
                   else if state = ''ERROR'' then return (Ret (Inl (''vm_snapshot '' @ snapUUID @ '' in ERROR state'')))
                   else do { w \<leftarrow> go_sleep E 10;
                             case w of Some err \<Rightarrow> return (Ret (Inl err)) | None \<Rightarrow> return (Next ()) }) }"

definition CreateVMSnapshot :: "env \<Rightarrow> 'a PrismConn_scheme \<Rightarrow> string \<Rightarrow> string \<Rightarrow> (string + string) cmd" where
  "CreateVMSnapshot E p vmUUID name =
     do { data \<leftarrow> doRequest E p ''POST'' ''/api/nutanix/v3/vm_snapshots''
            (Some (JObj [(''spec'', JObj [(''name'', JStr name),
                                          (''resources'', JObj [(''entity_uuid'', JStr vmUUID)])]),
                         (''metadata'', JObj [(''kind'', JStr ''vm_snapshot'')])]));
          case data of Inl err \<Rightarrow> return (Inl (''CreateVMSnapshot '' @ vmUUID @ '': '' @ err))
          | Inr b \<Rightarrow> (case unmarshal decode_map b of Inl err \<Rightarrow> return (Inl err)
            | Inr resp \<Rightarrow>
                let snapUUID = fst (unstructuredNestedString resp [''metadata'', ''uuid''])
                in if snapUUID = [] then
                     return (Inl (''CreateVMSnapshot: no uuid in response: '' @ clip 200 (rawBody b)))
                   else poll 60 (probeSnapshot E p snapUUID)
                          (Inl (''vm_snapshot '' @ snapUUID @ '' not COMPLETE after 60 attempts''))) }"

record diskPath =
  dpBus :: string
  dpIndex :: int
  dpPath :: string

text \<open>The two decoded structs of \<open>GetVMSnapshotPaths\<close>.\<close>

definition decode_file :: "json \<Rightarrow> (string \<times> string) decoded" where
  "decode_file j = (case decode_field ''file_path'' decode_string j of Inl e \<Rightarrow> Inl e
     | Inr f \<Rightarrow> (case decode_field ''snapshot_file_path'' decode_string j of Inl e \<Rightarrow> Inl e | Inr s \<Rightarrow> Inr (f, s)))"

definition decode_vdisk :: "json \<Rightarrow> (string \<times> string) decoded" where
  "decode_vdisk j = (case decode_field ''attached_vm_uuid'' decode_string j of Inl e \<Rightarrow> Inl e
     | Inr v \<Rightarrow> (case decode_field ''disk_address'' decode_string j of Inl e \<Rightarrow> Inl e | Inr a \<Rightarrow> Inr (v, a)))"

text \<open>What one virtual-disk answer contributes: nothing unless the disk is attached to the VM at a bus address.\<close>

definition diskPathOf :: "string \<Rightarrow> string \<Rightarrow> string + Body \<Rightarrow> diskPath option" where
  "diskPathOf vmUUID snapPath answer =
     (case answer of Inl err \<Rightarrow> None
      | Inr b \<Rightarrow> (case unmarshal decode_vdisk b of Inl err \<Rightarrow> None
        | Inr (attached, address) \<Rightarrow>
            if attached \<noteq> vmUUID \<or> address = [] then None
            else (case cut (CHR ''.'') address of (bus, idxStr, ok) \<Rightarrow>
              if \<not> ok then None
              else Some \<lparr>dpBus = bus,
                         dpIndex = (case scan_d idxStr of Some (v, rest) \<Rightarrow> v | None \<Rightarrow> 0),
                         dpPath = snapPath\<rparr>)))"

definition sortPaths :: "diskPath list \<Rightarrow> diskPath list" where
  "sortPaths found = sort_key (\<lambda>d. (dpBus d, dpIndex d)) found"

text \<open>The virtual disk of a snapshot file is named by the last element of its path.\<close>

definition vdiskPath :: "string \<Rightarrow> string" where
  "vdiskPath f = ''/api/nutanix/v2.0/virtual_disks/'' @ last (split_on (CHR ''/'') f)"

definition GetVMSnapshotPaths :: "env \<Rightarrow> 'a PrismConn_scheme \<Rightarrow> string \<Rightarrow> string \<Rightarrow> (string + string list) cmd" where
  "GetVMSnapshotPaths E p snapUUID vmUUID =
     do { data \<leftarrow> doRequest E p ''GET'' (snapshotPath snapUUID) None;
          case data of Inl err \<Rightarrow> return (Inl err)
          | Inr b \<Rightarrow>
              (case unmarshal (decode_field ''status'' (decode_field ''snapshot_file_list'' (decode_list decode_file))) b of
                 Inl err \<Rightarrow> return (Inl (''parse vm_snapshot '' @ snapUUID @ '': '' @ err))
               | Inr files \<Rightarrow>
                   after (foreach files []
                     (\<lambda>(filePath, snapPath) found.
                        do { vd \<leftarrow> doRequest E p ''GET'' (vdiskPath filePath) None;
                             return (Next (case diskPathOf vmUUID snapPath vd of
                               None \<Rightarrow> found | Some d \<Rightarrow> found @ [d])) }))
                   (\<lambda>found.
                      let paths = map dpPath (sortPaths found)
                      in return (if paths = [] then
                           Inl (''vm_snapshot '' @ snapUUID @ '': no disk snapshot paths found for vm '' @ vmUUID)
                         else Inr paths))) }"

definition DeleteVMSnapshot :: "env \<Rightarrow> 'a PrismConn_scheme \<Rightarrow> string \<Rightarrow> string option cmd" where
  "DeleteVMSnapshot E p snapUUID =
     do { r \<leftarrow> doRequest E p ''DELETE'' (snapshotPath snapUUID) None;
          return (case r of Inl err \<Rightarrow> Some err | Inr b \<Rightarrow> None) }"


section \<open>Changed regions and images\<close>

definition decode_region :: "json \<Rightarrow> ChangedRegion decoded" where
  "decode_region j =
     (case decode_field ''offset'' decode_int64 j of Inl e \<Rightarrow> Inl e
      | Inr off \<Rightarrow> (case decode_field ''length'' decode_int64 j of Inl e \<Rightarrow> Inl e
        | Inr len \<Rightarrow> (case decode_field ''type'' decode_string j of Inl e \<Rightarrow> Inl e
          | Inr ty \<Rightarrow> Inr (region off len ty))))"

definition decode_changed :: "json \<Rightarrow> (int \<times> ChangedRegion list \<times> int) decoded" where
  "decode_changed j =
     (case decode_field ''file_size'' decode_int64 j of Inl e \<Rightarrow> Inl e
      | Inr sz \<Rightarrow> (case decode_field ''region_list'' (decode_list decode_region) j of Inl e \<Rightarrow> Inl e
        | Inr rs \<Rightarrow> (case decode_field ''next_offset'' decode_int64 j of Inl e \<Rightarrow> Inl e
          | Inr nx \<Rightarrow> Inr (sz, rs, nx))))"

definition ChangedRegions :: "env \<Rightarrow> 'a PrismConn_scheme \<Rightarrow> string \<Rightarrow> string \<Rightarrow> (string + ChangedRegion list \<times> int) cmd" where
  "ChangedRegions E p path refPath =
     do { data \<leftarrow> doRequest E p ''POST'' ''/api/nutanix/v3/data/changed_regions''
            (Some (JObj ((''snapshot_file_path'', JStr path) #
                         (if refPath \<noteq> [] then [(''reference_snapshot_file_path'', JStr refPath)] else []))));
          return (case data of Inl err \<Rightarrow> Inl (''ChangedRegions '' @ path @ '': '' @ err)
          | Inr b \<Rightarrow> (case unmarshal decode_changed b of Inl err \<Rightarrow> Inl (''parse changed_regions: '' @ err)
            | Inr (fileSize, regions, nextOffset) \<Rightarrow>
                if nextOffset > 0 then
                  Inl (''changed_regions returned next_offset='' @ fmt_d nextOffset @ '' (pagination not supported)'')
                else Inr (regions, fileSize))) }"

definition GetImageSizeBytes :: "env \<Rightarrow> 'a PrismConn_scheme \<Rightarrow> string \<Rightarrow> (string + int) cmd" where
  "GetImageSizeBytes E p imageUUID =
     do { data \<leftarrow> doRequest E p ''GET'' (imagePath imageUUID) None;
          return (case data of Inl err \<Rightarrow> Inl err
          | Inr b \<Rightarrow> (case unmarshal (decode_field ''status'' (decode_field ''resources''
                                       (decode_field ''size_bytes'' decode_int64))) b of
              Inl err \<Rightarrow> Inl (''parse image '' @ imageUUID @ '': '' @ err)
            | Inr sz \<Rightarrow> if sz = 0 then Inl (''image '' @ imageUUID @ '' has no size_bytes'') else Inr sz)) }"

definition DiskImageURL :: "'a PrismConn_scheme \<Rightarrow> string \<Rightarrow> string" where
  "DiskImageURL p imageUUID = baseURL p @ imagePath imageUUID @ ''/file''"

definition Credentials :: "'a PrismConn_scheme \<Rightarrow> string \<times> string" where
  "Credentials p = (username p, password p)"

section \<open>Power operations\<close>

definition GetVMPowerState :: "env \<Rightarrow> 'a PrismConn_scheme \<Rightarrow> string \<Rightarrow> (string + string) cmd" where
  "GetVMPowerState E p vmUUID =
     do { data \<leftarrow> doRequest E p ''GET'' (vmPath vmUUID) None;
          return (case data of Inl err \<Rightarrow> Inl err
          | Inr b \<Rightarrow> (case unmarshal decode_map b of Inl err \<Rightarrow> Inl err
            | Inr vm \<Rightarrow> Inr (fst (unstructuredNestedString vm [''status'', ''resources'', ''power_state''])))) }"

definition acpiShutdown :: json where
  "acpiShutdown = JObj [(''transition'', JStr ''ACPI_SHUTDOWN'')]"

text \<open>
  The intent document sent back by \<open>ShutdownVM\<close>: the VM without its status and with the power state set
  to OFF, missing maps created.  A JSON \<^verbatim>\<open>null\<close> document is a nil map, and writing to it panics.
\<close>

definition powerOffIntent :: "json \<Rightarrow> json" where
  "powerOffIntent vm0 =
     (let vm = jdelete vm0 ''status'';
          spec = (if is_obj (jget vm ''spec'') then jget vm ''spec'' else JObj []);
          resources = (if is_obj (jget spec ''resources'') then jget spec ''resources'' else JObj [])
      in jput vm ''spec'' (jput spec ''resources'' (jput resources ''power_state'' (JStr ''OFF''))))"

datatype shutdown_outcome = ShutdownOK | ShutdownErr string | ShutdownPanic

definition ShutdownVM :: "env \<Rightarrow> PrismClient \<Rightarrow> string \<Rightarrow> shutdown_outcome cmd" where
  "ShutdownVM E p vmUUID =
     do { state \<leftarrow> GetVMPowerState E p vmUUID;
          case state of
            Inl err \<Rightarrow> return (ShutdownErr (''ShutdownVM: GetVMPowerState '' @ vmUUID @ '': '' @ err))
          | Inr st \<Rightarrow>
              if st = ''OFF'' then return ShutdownOK
              else (case pe p of
                Some conn \<Rightarrow>
                  do { r \<leftarrow> doRequest E conn ''POST'' (powerPath vmUUID) (Some acpiShutdown);
                       return (case r of
                         Inl err \<Rightarrow> ShutdownErr (''ShutdownVM '' @ vmUUID @ '': PE v2 set_power_state failed: '' @ err)
                       | Inr b \<Rightarrow> ShutdownOK) }
              | None \<Rightarrow>
                  do { data \<leftarrow> doRequest E p ''GET'' (vmPath vmUUID) None;
                       case data of
                         Inl err \<Rightarrow> return (ShutdownErr (''ShutdownVM: GET VM '' @ vmUUID @ '': '' @ err))
                       | Inr b \<Rightarrow> (case unmarshal decode_map b of
                           Inl err \<Rightarrow> return (ShutdownErr (''ShutdownVM: parse VM: '' @ err))
                         | Inr vm \<Rightarrow>
                             if \<not> is_obj vm then return ShutdownPanic
                             else do { put \<leftarrow> doRequest E p ''PUT'' (vmPath vmUUID) (Some (powerOffIntent vm));
                                       case put of
                                         Inr b' \<Rightarrow> return ShutdownOK
                                       | Inl putErr \<Rightarrow>
                                           if contains putErr ''405'' \<or> contains putErr ''REQUEST_NOT_SUPPORTED'' then
                                             do { r \<leftarrow> doRequest E p ''POST'' (powerPath vmUUID) (Some acpiShutdown);
                                                  return (case r of
                                                    Inl err2 \<Rightarrow> ShutdownErr (''ShutdownVM '' @ vmUUID @ '': v2 set_power_state failed: '' @ err2)
                                                  | Inr b' \<Rightarrow> ShutdownOK) }
                                           else return (ShutdownErr (''ShutdownVM '' @ vmUUID @ '': PUT failed: '' @ putErr)) }) }) }"

text \<open>The check of the context between two attempts: a \<^verbatim>\<open>select\<close> with a default case does not wait.\<close>

definition next_attempt :: "env \<Rightarrow> (string \<Rightarrow> 'r) \<Rightarrow> (unit, 'r) ctl cmd" where
  "next_attempt E fail = do { d \<leftarrow> ctx_done E; return (case d of Some err \<Rightarrow> Ret (fail err) | None \<Rightarrow> Next ()) }"

definition probeVMOff :: "env \<Rightarrow> 'a PrismConn_scheme \<Rightarrow> string \<Rightarrow> (unit, string option) ctl cmd" where
  "probeVMOff E p vmUUID =
     do { data \<leftarrow> doRequest E p ''GET'' (vmPath vmUUID) None;
          case data of Inl err \<Rightarrow> return (Ret (Some err))
          | Inr b \<Rightarrow> (case unmarshal decode_map b of Inl err \<Rightarrow> return (Ret (Some err))
            | Inr vm \<Rightarrow>
                if fst (unstructuredNestedString vm [''status'', ''resources'', ''power_state'']) = ''OFF''
                then return (Ret None) else next_attempt E Some) }"

definition WaitVMOff :: "env \<Rightarrow> 'a PrismConn_scheme \<Rightarrow> string \<Rightarrow> int \<Rightarrow> string option cmd" where
  "WaitVMOff E p vmUUID maxWait =
     poll (nat maxWait) (probeVMOff E p vmUUID)
       (Some (''VM '' @ vmUUID @ '' did not power off after '' @ fmt_d maxWait @ '' attempts''))"

section \<open>Images\<close>

text \<open>The first entity of kind \<^verbatim>\<open>image\<close> with a non-empty UUID.\<close>

fun firstImage :: "json list \<Rightarrow> string option" where
  "firstImage [] = None"
| "firstImage (e # es) =
     (if is_obj e \<and> fst (unstructuredNestedString e [''kind'']) = ''image'' \<and>
         fst (unstructuredNestedString e [''uuid'']) \<noteq> []
      then Some (fst (unstructuredNestedString e [''uuid''])) else firstImage es)"

definition probeTask :: "env \<Rightarrow> 'a PrismConn_scheme \<Rightarrow> string \<Rightarrow> (unit, string + string) ctl cmd" where
  "probeTask E p taskUUID =
     do { data \<leftarrow> doRequest E p ''GET'' (taskPath taskUUID) None;
          case data of Inl err \<Rightarrow> return (Ret (Inl err))
          | Inr b \<Rightarrow> (case unmarshal decode_map b of Inl err \<Rightarrow> return (Ret (Inl err))
            | Inr task \<Rightarrow>
                let status = fst (unstructuredNestedString task [''status''])
                in if status = ''SUCCEEDED'' then
                     return (Ret (case firstImage (fst (unstructuredNestedSlice task [''entity_reference_list''])) of
                       Some img \<Rightarrow> Inr img | None \<Rightarrow> Inl ''task succeeded but no image entity found''))
                   else if status = ''FAILED'' then
                     return (Ret (Inl (''image creation task failed: '' @ fst (unstructuredNestedString task [''error_detail'']))))
                   else next_attempt E Inl) }"

definition waitTaskAndGetImageUUID :: "env \<Rightarrow> 'a PrismConn_scheme \<Rightarrow> string \<Rightarrow> (string + string) cmd" where
  "waitTaskAndGetImageUUID E p taskUUID =
     poll 60 (probeTask E p taskUUID)
       (Inl (''image creation timed out after 60 attempts (task: '' @ taskUUID @ '')''))"

definition CreateImageFromDisk :: "env \<Rightarrow> 'a PrismConn_scheme \<Rightarrow> string \<Rightarrow> string \<Rightarrow> (string + string) cmd" where
  "CreateImageFromDisk E p diskUUID imageName =
     do { data \<leftarrow> doRequest E p ''POST'' ''/api/nutanix/v3/images''
            (Some (JObj [(''metadata'', JObj [(''kind'', JStr ''image'')]),
                         (''spec'', JObj [(''name'', JStr imageName),
                            (''resources'', JObj [(''image_type'', JStr ''DISK_IMAGE''),
                               (''data_source_reference'', JObj [(''kind'', JStr ''vm_disk''), (''uuid'', JStr diskUUID)])])])]));
          case data of Inl err \<Rightarrow> return (Inl (''CreateImageFromDisk '' @ diskUUID @ '': '' @ err))
          | Inr b \<Rightarrow> (case unmarshal decode_map b of Inl err \<Rightarrow> return (Inl err)
            | Inr resp \<Rightarrow>
                let t0 = fst (unstructuredNestedString resp [''status'', ''execution_context'', ''task_uuid'']);
                    taskUUID = (if t0 = [] then fst (unstructuredNestedString resp [''metadata'', ''uuid'']) else t0)
                in if taskUUID = [] then
                     return (Inl (''CreateImageFromDisk: no task_uuid in response: '' @ clip 200 (rawBody b)))
                   else waitTaskAndGetImageUUID E p taskUUID) }"

definition probeImage :: "env \<Rightarrow> 'a PrismConn_scheme \<Rightarrow> string \<Rightarrow> (unit, string option) ctl cmd" where
  "probeImage E p imageUUID =
     do { data \<leftarrow> doRequest E p ''GET'' (imagePath imageUUID) None;
          case data of Inl err \<Rightarrow> return (Ret (Some err))
          | Inr b \<Rightarrow> (case unmarshal decode_map b of Inl err \<Rightarrow> return (Ret (Some err))
            | Inr img \<Rightarrow>
                let state = fst (unstructuredNestedString img [''status'', ''state''])
                in if state = ''COMPLETE'' then return (Ret None)
                   else if state = ''ERROR'' then
                     return (Ret (Some (''image '' @ imageUUID @ '' in ERROR state: '' @
                       fst (unstructuredNestedString img [''status'', ''message_list'', ''0'', ''message'']))))
                   else next_attempt E Some) }"

definition WaitImageReady :: "env \<Rightarrow> 'a PrismConn_scheme \<Rightarrow> string \<Rightarrow> string option cmd" where
  "WaitImageReady E p imageUUID =
     poll 60 (probeImage E p imageUUID) (Some (''image '' @ imageUUID @ '' not ready after 60 attempts''))"

definition DeleteImage :: "env \<Rightarrow> 'a PrismConn_scheme \<Rightarrow> string \<Rightarrow> string option cmd" where
  "DeleteImage E p imageUUID =
     do { r \<leftarrow> doRequest E p ''DELETE'' (imagePath imageUUID) None;
          return (case r of Inl err \<Rightarrow> Some err | Inr b \<Rightarrow> None) }"


section \<open>Requests\<close>

definition is_http :: "event \<Rightarrow> bool" where
  "is_http e = (case e of Http _ _ _ _ _ _ _ \<Rightarrow> True | _ \<Rightarrow> False)"

definition requests :: "event list \<Rightarrow> nat" where
  "requests es = length (filter is_http es)"

lemma requests_simps [simp]:
  "requests [] = 0" "requests (es @ es') = requests es + requests es'"
  "requests (e # es) = (if is_http e then 1 else 0) + requests es"
  "is_http (Http a b c d f g h)" "\<not> is_http (CtxDone x)" "\<not> is_http (Sleep n x)"
  by (simp_all add: requests_def is_http_def)

lemma wp_doRequest [wp_rules]:
  assumes "\<And>r. Q (responseResult method path r) [Http (baseURL p) (username p) (password p) method path body r]"
  shows "wp (doRequest E p method path body) Q"
  unfolding doRequest_def http_do_def
  by (intro wp_rules) (simp add: assms)

text \<open>
  \<open>reports p path fs v e\<close>: the event is a successful \<^verbatim>\<open>GET\<close> of \<open>path\<close> whose document has the text \<open>v\<close> at
  the keys \<open>fs\<close>.
\<close>

definition reports :: "'a PrismConn_scheme \<Rightarrow> string \<Rightarrow> string list \<Rightarrow> string \<Rightarrow> event \<Rightarrow> bool" where
  "reports p path fs v e =
     (case e of
        Http base user pass method path' body (Resp st b) \<Rightarrow>
          base = baseURL p \<and> method = ''GET'' \<and> path' = path \<and> 200 \<le> st \<and> st < 300 \<and>
          (case parsed b of Inl err \<Rightarrow> False | Inr j \<Rightarrow> as_string (path_get j fs) = v)
      | _ \<Rightarrow> False)"

lemma reports_answer:
  assumes "responseResult ''GET'' path r = Inr b" and "unmarshal decode_map b = Inr j"
    and "fst (unstructuredNestedString j fs) = v"
  shows "reports p path fs v (Http (baseURL p) u pw ''GET'' path body r)"
  using assms
  by (auto simp: reports_def responseResult_def unmarshal_def decode_map_def unstructuredNestedString_path
      split: http_result.splits if_splits sum.splits json.splits)

section \<open>Polling\<close>

text \<open>
  The contract of one attempt: it makes exactly one request, never breaks out of the loop, and when it
  ends the function its result is justified by the events of this attempt.
\<close>

locale poller =
  fixes probe :: "(unit, 'r) ctl cmd"
    and justified :: "'r \<Rightarrow> event \<Rightarrow> bool"
  assumes attempt: "wp probe (\<lambda>c es. requests es = 1 \<and>
      (case c of Next _ \<Rightarrow> True | Break _ \<Rightarrow> False | Ret r \<Rightarrow> es \<noteq> [] \<and> justified r (last es)))"
begin

lemma attempts_spec:
  "wp (foreach [0..<n] () (\<lambda>i s. probe)) (\<lambda>c es. requests es \<le> n \<and>
     (case c of Inl r \<Rightarrow> es \<noteq> [] \<and> justified r (last es) | Inr s \<Rightarrow> True))"
proof (rule wp_foreach [where I = "\<lambda>pre s es. requests es = length pre"], goal_cases)
  case (2 pre x post s es)
  have "length [0..<n] = length (pre @ x # post)" by (simp only: 2(1))
  then have "length pre < n" by simp
  with 2 show ?case
    by (intro wp_mono [OF attempt]) (auto split: ctl.splits)
qed auto

lemma poll_spec:
  "wp (poll n probe timeout) (\<lambda>r es. requests es \<le> n \<and> (r = timeout \<or> (es \<noteq> [] \<and> justified r (last es))))"
  unfolding poll_def
  by (intro wp_after, rule wp_mono [OF attempts_spec]) (auto split: sum.splits intro: wp_return)

end


lemma next_attempt_spec: "wp (next_attempt E f) (\<lambda>c es. requests es = 0 \<and> es \<noteq> [] \<and> (c = Next () \<or> (\<exists>e. c = Ret (f e))) \<and> \<not> is_http (last es))"
  unfolding next_attempt_def op_defs
  by (intro wp_rules) (auto split: option.splits)

interpretation snapshot_poller: poller "probeSnapshot E p snap"
    "\<lambda>r e. isl r \<or> (r = Inr snap \<and> reports p (snapshotPath snap) [''status'', ''state''] ''COMPLETE'' e)"
  for E :: env and p :: "'a PrismConn_scheme" and snap :: string
  by unfold_locales
     (auto simp: probeSnapshot_def go_sleep_def intro!: wp_rules reports_answer)

interpretation image_poller: poller "probeImage E p img"
    "\<lambda>r e. r \<noteq> None \<or> reports p (imagePath img) [''status'', ''state''] ''COMPLETE'' e"
  for E :: env and p :: "'a PrismConn_scheme" and img :: string
  by unfold_locales
     (auto simp: probeImage_def intro!: wp_rules reports_answer wp_mono [OF next_attempt_spec])

interpretation vm_off_poller: poller "probeVMOff E p vm"
    "\<lambda>r e. r \<noteq> None \<or> reports p (vmPath vm) [''status'', ''resources'', ''power_state''] ''OFF'' e"
  for E :: env and p :: "'a PrismConn_scheme" and vm :: string
  by unfold_locales
     (auto simp: probeVMOff_def intro!: wp_rules reports_answer wp_mono [OF next_attempt_spec])

interpretation task_poller: poller "probeTask E p task"
    "\<lambda>r e. isl r \<or> (projr r \<noteq> [] \<and> reports p (taskPath task) [''status''] ''SUCCEEDED'' e)"
  for E :: env and p :: "'a PrismConn_scheme" and task :: string
proof unfold_locales
  have img: "firstImage es = Some u \<Longrightarrow> u \<noteq> []" for es u
    by (induction es) (auto split: if_splits)
  show "wp (probeTask E p task) (\<lambda>c es. requests es = 1 \<and> (case c of Next _ \<Rightarrow> True | Break _ \<Rightarrow> False
      | Ret r \<Rightarrow> es \<noteq> [] \<and> (isl r \<or> (projr r \<noteq> [] \<and>
          reports p (taskPath task) [''status''] ''SUCCEEDED'' (last es)))))"
    by (auto simp: probeTask_def img split: option.splits intro!: wp_rules reports_answer wp_mono [OF next_attempt_spec])
qed

text \<open>C34: The three waits of the migration make at most sixty requests each and succeed only on evidence: an
  image counts as ready only when the last answer gave its state as COMPLETE, a snapshot is returned only
  when its state was COMPLETE, an image UUID only when its task SUCCEEDED, and a machine counts as off
  only when its power state was OFF.\<close>

theorem polling_sound:
  "wp (WaitImageReady E p img) (\<lambda>r es. requests es \<le> 60 \<and>
     (case r of Some err \<Rightarrow> True
      | None \<Rightarrow> es \<noteq> [] \<and> reports p (imagePath img) [''status'', ''state''] ''COMPLETE'' (last es))) \<and>
   wp (waitTaskAndGetImageUUID E p task) (\<lambda>r es. requests es \<le> 60 \<and>
     (case r of Inl err \<Rightarrow> True
      | Inr u \<Rightarrow> u \<noteq> [] \<and> es \<noteq> [] \<and> reports p (taskPath task) [''status''] ''SUCCEEDED'' (last es))) \<and>
   wp (WaitVMOff E p vm n) (\<lambda>r es. requests es \<le> nat n \<and>
     (case r of Some err \<Rightarrow> True
      | None \<Rightarrow> es \<noteq> [] \<and>
        reports p (vmPath vm) [''status'', ''resources'', ''power_state''] ''OFF'' (last es))) \<and>
   wp (CreateVMSnapshot E p vm name) (\<lambda>r es. requests es \<le> 61 \<and>
     (case r of Inl err \<Rightarrow> True
      | Inr snap \<Rightarrow> snap \<noteq> [] \<and> es \<noteq> [] \<and>
        reports p (snapshotPath snap) [''status'', ''state''] ''COMPLETE'' (last es)))"
proof (intro conjI)
  show "wp (CreateVMSnapshot E p vm name) (\<lambda>r es. requests es \<le> 61 \<and>
     (case r of Inl err \<Rightarrow> True
      | Inr snap \<Rightarrow> snap \<noteq> [] \<and> es \<noteq> [] \<and>
        reports p (snapshotPath snap) [''status'', ''state''] ''COMPLETE'' (last es)))"
    unfolding CreateVMSnapshot_def
    by (intro wp_rules wp_mono [OF snapshot_poller.poll_spec]) (auto split: sum.splits)
qed (unfold WaitImageReady_def waitTaskAndGetImageUUID_def WaitVMOff_def,
     (rule wp_mono [OF image_poller.poll_spec] wp_mono [OF task_poller.poll_spec]
           wp_mono [OF vm_off_poller.poll_spec], auto split: option.splits sum.splits)+)

section \<open>Descriptions of virtual machines\<close>

definition deviceTypeOf :: "json \<Rightarrow> string" where
  "deviceTypeOf disk = as_string (jget (jget disk ''device_properties'') ''device_type'')"

lemma parseDisk_None: "parseDisk p i d = None \<longleftrightarrow> deviceTypeOf d = ''CDROM''"
  by (simp add: parseDisk_def deviceTypeOf_def Let_def)

lemma parseDisk_Some:
  assumes "parseDisk p i d = Some k"
  shows "diIndex k = int i" and "DeviceType k = deviceTypeOf d" and "DeviceType k \<noteq> ''CDROM''"
    and "SizeMB k \<noteq> 0" and "IsBare k \<longleftrightarrow> SourceURL k = [] \<and> diUUID k \<noteq> []"
    and "SourceURL k \<in> {[], imageURL p (diUUID k)}"
  using assms by (auto simp: parseDisk_def deviceTypeOf_def Let_def imageURL_def split: if_splits)

definition disk_ok :: "'a PrismConn_scheme \<Rightarrow> DiskInfo \<Rightarrow> bool" where
  "disk_ok p k \<longleftrightarrow> DeviceType k \<noteq> ''CDROM'' \<and> SizeMB k \<noteq> 0 \<and>
     (IsBare k \<longleftrightarrow> SourceURL k = [] \<and> diUUID k \<noteq> []) \<and> SourceURL k \<in> {[], imageURL p (diUUID k)}"

lemma parseDisks_spec:
  assumes "map diIndex acc = map int [0..<length acc]" and "list_all (disk_ok p) acc"
  shows "map diIndex (parseDisks p acc ds) = map int [0..<length (parseDisks p acc ds)] \<and>
    list_all (disk_ok p) (parseDisks p acc ds) \<and>
    map DeviceType (parseDisks p acc ds) = map DeviceType acc @ filter (\<lambda>t. t \<noteq> ''CDROM'') (map deviceTypeOf ds)"
  using assms
proof (induction p acc ds rule: parseDisks.induct)
  case (2 p acc d ds)
  show ?case
  proof (cases "parseDisk p (length acc) d")
    case None
    then have "deviceTypeOf d = ''CDROM''" by (simp add: parseDisk_None)
    with 2 None show ?thesis by simp
  next
    case (Some k)
    note k = parseDisk_Some [OF Some]
    have "disk_ok p k" using k by (simp add: disk_ok_def)
    with 2 Some k show ?thesis by simp
  qed
qed simp

text \<open>C37: \<open>GetVMByUUID\<close> describes a machine consistently: it has a non-zero number of CPUs and amount of memory,
  its disks are exactly the non-CD-ROM entries of the disk list in their order, numbered from zero
  without gaps, each with a non-zero size, and a disk is either backed by an image, with the download
  URL of that image, or bare with its own UUID, or unusable.\<close>

theorem parseVM_wf:
  "NumCPUs (parseVM p uuid vm) \<noteq> 0 \<and> MemoryMB (parseVM p uuid vm) \<noteq> 0 \<and>
   map diIndex (DiskList (parseVM p uuid vm)) = map int [0..<length (DiskList (parseVM p uuid vm))] \<and>
   list_all (disk_ok p) (DiskList (parseVM p uuid vm)) \<and>
   map DeviceType (DiskList (parseVM p uuid vm)) =
     filter (\<lambda>t. t \<noteq> ''CDROM'') (map deviceTypeOf (as_list (path_get vm [''spec'', ''resources'', ''disk_list''])))"
  using parseDisks_spec [of "[]" p "as_list (path_get vm [''spec'', ''resources'', ''disk_list''])"]
  by (simp add: parseVM_def Let_def path_get_def)

section \<open>Snapshot paths\<close>

definition contributions :: "string \<Rightarrow> (string \<times> string) list \<Rightarrow> http_result list \<Rightarrow> diskPath list" where
  "contributions vm files answers =
     List.map_filter (\<lambda>((f, s), a). diskPathOf vm s (responseResult ''GET'' (vdiskPath f) a)) (zip files answers)"

definition vdiskRequests :: "'a PrismConn_scheme \<Rightarrow> (string \<times> string) list \<Rightarrow> http_result list \<Rightarrow> event list" where
  "vdiskRequests p files answers =
     map (\<lambda>((f, s), a). Http (baseURL p) (username p) (password p) ''GET'' (vdiskPath f) None a) (zip files answers)"

lemma contributions_snoc:
  assumes "length as = length fs"
  shows "contributions vm (fs @ [(f, s)]) (as @ [a]) =
    contributions vm fs as @ (case diskPathOf vm s (responseResult ''GET'' (vdiskPath f) a) of None \<Rightarrow> [] | Some d \<Rightarrow> [d])"
  using assms by (simp add: contributions_def List.map_filter_def split: option.splits)

lemma vdiskRequests_snoc:
  assumes "length as = length fs"
  shows "vdiskRequests p (fs @ [(f, s)]) (as @ [a]) =
    vdiskRequests p fs as @ [Http (baseURL p) (username p) (password p) ''GET'' (vdiskPath f) None a]"
  using assms by (simp add: vdiskRequests_def)


section \<open>Shutting a machine down\<close>

lemma powerOffIntent_spec [simplified]:
  assumes "is_obj vm"
  shows "path_get (powerOffIntent vm) [''spec'', ''resources'', ''power_state''] = JStr ''OFF''"
    and "jget (powerOffIntent vm) ''status'' = JNull"
    and "k \<notin> {''spec'', ''status''} \<Longrightarrow> jget (powerOffIntent vm) k = jget vm k"
    and "k \<noteq> ''power_state'' \<Longrightarrow> path_get (powerOffIntent vm) [''spec'', ''resources'', k] = path_get vm [''spec'', ''resources'', k]"
proof -
  have del: "is_obj (jdelete vm k)" for k
    using assms by (cases vm) (simp_all add: jdelete_def is_obj_def)
  have obj: "is_obj (JObj m)" for m by (simp add: is_obj_def)
  have nul: "jget (JObj []) k = JNull" "jget JNull k = JNull" for k by (simp_all add: jget_def)
  show "path_get (powerOffIntent vm) [''spec'', ''resources'', ''power_state''] = JStr ''OFF''"
    and "jget (powerOffIntent vm) ''status'' = JNull"
    and "k \<notin> {''spec'', ''status''} \<Longrightarrow> jget (powerOffIntent vm) k = jget vm k"
    and "k \<noteq> ''power_state'' \<Longrightarrow> path_get (powerOffIntent vm) [''spec'', ''resources'', k] = path_get vm [''spec'', ''resources'', k]"
    by (simp_all add: powerOffIntent_def Let_def path_get_def del obj nul jget_nonobj)
qed

text \<open>\<open>accepted p vm e\<close>: the event is a request to power the machine off that the server accepted.\<close>

definition power_request :: "PrismClient \<Rightarrow> string \<Rightarrow> event \<Rightarrow> bool" where
  "power_request p vm e =
     (case e of
        Http base user pass method path body r \<Rightarrow>
          (method = ''PUT'' \<and> base = baseURL p \<and> path = vmPath vm \<and>
             (case body of Some j \<Rightarrow> path_get j [''spec'', ''resources'', ''power_state''] = JStr ''OFF'' | None \<Rightarrow> False)) \<or>
          (method = ''POST'' \<and> base = (case pe p of Some c \<Rightarrow> baseURL c | None \<Rightarrow> baseURL p) \<and>
             path = powerPath vm \<and> body = Some acpiShutdown)
      | _ \<Rightarrow> False)"

definition succeeded :: "event \<Rightarrow> bool" where
  "succeeded e = (case e of Http base user pass method path body (Resp st b) \<Rightarrow> 200 \<le> st \<and> st < 300 | _ \<Rightarrow> False)"

definition vm_query :: "PrismClient \<Rightarrow> string \<Rightarrow> event \<Rightarrow> bool" where
  "vm_query p vm e = (case e of Http base user pass method path body r \<Rightarrow>
     method = ''GET'' \<and> base = baseURL p \<and> path = vmPath vm | _ \<Rightarrow> False)"

lemma succeeded_answer: "responseResult m path r = Inr b \<Longrightarrow> succeeded (Http base u pw m path body r)"
  by (auto simp: succeeded_def responseResult_def split: http_result.splits if_splits)

lemma reports_unique: "reports p path fs v e \<Longrightarrow> reports p path fs v' e \<Longrightarrow> v = v'"
  by (auto simp: reports_def split: event.splits http_result.splits sum.splits)

lemma reports_failed:
  assumes "case responseResult ''GET'' path r of Inl err \<Rightarrow> True | Inr b \<Rightarrow> isl (unmarshal decode_map b)"
    and "v \<noteq> []"
  shows "\<not> reports p path (f # fs) v (Http base u pw ''GET'' path body r)"
  using assms path_get_nonobj [of _ f fs]
  by (auto simp: reports_def responseResult_def unmarshal_def decode_map_def as_string_def is_obj_def
      split: http_result.splits sum.splits json.splits if_splits)

lemma wp_GetVMPowerState:
  assumes "\<And>r err. \<not> reports p (vmPath vm) [''status'', ''resources'', ''power_state''] ''OFF''
            (Http (baseURL p) (username p) (password p) ''GET'' (vmPath vm) None r) \<Longrightarrow>
          Q (Inl err) [Http (baseURL p) (username p) (password p) ''GET'' (vmPath vm) None r]"
    and "\<And>r st. reports p (vmPath vm) [''status'', ''resources'', ''power_state''] st
            (Http (baseURL p) (username p) (password p) ''GET'' (vmPath vm) None r) \<Longrightarrow>
          Q (Inr st) [Http (baseURL p) (username p) (password p) ''GET'' (vmPath vm) None r]"
  shows "wp (GetVMPowerState E p vm) Q"
  unfolding GetVMPowerState_def
  by (intro wp_rules) (auto split: sum.splits intro!: assms reports_answer simp: reports_failed)

text \<open>C36: \<open>ShutdownVM\<close> first asks for the power state; when the machine is off it sends nothing else, otherwise every
  further request either reads this machine or asks for this machine to be powered off, over Prism
  Element exactly when that is configured.  It reports success only when the machine was seen off or the
  server accepted the last such request.\<close>

theorem ShutdownVM_sound:
  "wp (ShutdownVM E p vm) (\<lambda>r es. \<exists>e es'. es = e # es' \<and> vm_query p vm e \<and>
     list_all (\<lambda>e. vm_query p vm e \<or> power_request p vm e) es' \<and>
     (if reports p (vmPath vm) [''status'', ''resources'', ''power_state''] ''OFF'' e
      then r = ShutdownOK \<and> es' = []
      else case r of ShutdownOK \<Rightarrow> es' \<noteq> [] \<and> power_request p vm (last es') \<and> succeeded (last es') | _ \<Rightarrow> True))"
  unfolding ShutdownVM_def
  by (intro wp_rules wp_GetVMPowerState)
     (auto simp: vm_query_def power_request_def powerOffIntent_spec succeeded_answer
       split: sum.splits option.splits intro!: succeeded_answer dest: reports_unique)

text \<open>The fall-back of \<open>ShutdownVM\<close> looks for \<^verbatim>\<open>405\<close> anywhere in the error text, which contains the UUID of the
  machine: for a machine whose UUID contains these digits, a \<^verbatim>\<open>PUT\<close> that failed with status 500 is taken
  for an unsupported method, and success is reported after the v2 call.\<close>

theorem shutdown_405_in_uuid:
  "result (ShutdownVM (idle_env\<lparr>ansHttp := (\<lambda>t m url u b.
      if m = ''PUT'' then Resp 500 \<lparr>rawBody = ''internal error'', parsed = Inl []\<rparr> else ok_json (JObj []))\<rparr>)
      \<lparr>baseURL = ''https://pc'', username = ''u'', password = ''p'', pe = None\<rparr> ''a405b'') = ShutdownOK \<and>
   result (ShutdownVM (idle_env\<lparr>ansHttp := (\<lambda>t m url u b.
      if m = ''PUT'' then Resp 500 \<lparr>rawBody = ''internal error'', parsed = Inl []\<rparr> else ok_json (JObj []))\<rparr>)
      \<lparr>baseURL = ''https://pc'', username = ''u'', password = ''p'', pe = None\<rparr> ''abc'') \<noteq> ShutdownOK"
  by code_simp

section \<open>What the client does to the world\<close>

text \<open>
  Requests of the client are HTTP requests, checks of the context and waits; only \<open>ShutdownVM\<close> changes
  the power state of a machine.
\<close>

definition prism_event :: "event \<Rightarrow> bool" where
  "prism_event e = (case e of Http _ _ _ _ _ _ _ \<Rightarrow> True | CtxDone _ \<Rightarrow> True | Sleep _ _ \<Rightarrow> True | _ \<Rightarrow> False)"

definition power_event :: "event \<Rightarrow> bool" where
  "power_event e = (case e of Http base user pass method path body r \<Rightarrow>
     method = ''PUT'' \<or> (method = ''POST'' \<and> body = Some acpiShutdown) | _ \<Rightarrow> False)"

definition calm_event :: "event \<Rightarrow> bool" where
  "calm_event e \<longleftrightarrow> prism_event e \<and> \<not> power_event e"

lemma emits_doRequest:
  assumes "\<And>r. P (Http (baseURL p) (username p) (password p) method path body r)"
  shows "emits P (doRequest E p method path body)"
  unfolding doRequest_def http_do_def by (intro emits_rules assms)

lemma emits_poll [emits_rules]: "emits P probe \<Longrightarrow> emits P (poll n probe timeout)"
  unfolding poll_def by (intro emits_rules)

lemmas calm_defs = calm_event_def prism_event_def power_event_def acpiShutdown_def

lemma calm_requests [emits_rules]:
  "emits calm_event (GetVMByUUID E p u)" "emits calm_event (GetVMPowerState E p u)"
  "emits calm_event (DeleteVMSnapshot E p u)" "emits calm_event (ChangedRegions E p a b)"
  "emits calm_event (GetImageSizeBytes E p u)" "emits calm_event (DeleteImage E p u)"
  "emits calm_event (next_attempt E f)"
  unfolding GetVMByUUID_def GetVMPowerState_def DeleteVMSnapshot_def ChangedRegions_def GetImageSizeBytes_def
    DeleteImage_def next_attempt_def ctx_done_def
  by (intro emits_rules emits_doRequest; simp add: calm_defs)+

lemma calm_probes [emits_rules]:
  "emits calm_event (probeSnapshot E p u)" "emits calm_event (probeVMOff E p u)"
  "emits calm_event (probeTask E p u)" "emits calm_event (probeImage E p u)"
  unfolding probeSnapshot_def probeVMOff_def probeTask_def probeImage_def go_sleep_def
  by (intro emits_rules emits_doRequest; simp add: calm_defs)+

lemma calm_operations [emits_rules]:
  "emits calm_event (GetVMByName E p n)" "emits calm_event (CreateVMSnapshot E p u n)"
  "emits calm_event (GetVMSnapshotPaths E p u v)" "emits calm_event (WaitImageReady E p u)"
  "emits calm_event (waitTaskAndGetImageUUID E p u)" "emits calm_event (WaitVMOff E p u k)"
  unfolding GetVMByName_def CreateVMSnapshot_def GetVMSnapshotPaths_def WaitImageReady_def
    waitTaskAndGetImageUUID_def WaitVMOff_def
  by (intro emits_rules emits_doRequest; simp add: calm_defs)+

lemma calm_CreateImageFromDisk [emits_rules]: "emits calm_event (CreateImageFromDisk E p u n)"
  unfolding CreateImageFromDisk_def
  by (intro emits_rules emits_doRequest; simp add: calm_defs)

lemma prism_ShutdownVM: "emits prism_event (ShutdownVM E p vm)"
proof -
  have req: "emits prism_event (doRequest E c m path b)" for c :: "'x PrismConn_scheme" and m path b
    by (intro emits_doRequest) (simp add: prism_event_def)
  have pow: "emits prism_event (GetVMPowerState E p vm)"
    by (rule emits_mono [OF calm_requests(2)]) (simp add: calm_event_def)
  show ?thesis unfolding ShutdownVM_def by (intro emits_rules pow req)
qed

end
