(* ===== verification/Cdi.thy ===== *)
theory Cdi
  imports Prism
begin

text \<open>
  The CDI objects of \<^verbatim>\<open>controllers/cdi_resources.go\<close>: names, the authentication Secret, DataVolumes (as the
  JSON objects the code builds) and what is read back of them.
\<close>

section \<open>Definitions\<close>

text \<open>The size with ten percent of overhead, in MiB, and the text of the quantity.\<close>

definition requestedMi :: "int \<Rightarrow> int" where
  "requestedMi sizeMB = go_div (wrap64 (sizeMB * 110)) 100"

definition dvStorageSize :: "env \<Rightarrow> int \<Rightarrow> string" where
  "dvStorageSize E sizeMB = quantity E (fmt_d (requestedMi sizeMB) @ ''Mi'')"

definition dvName :: "string \<Rightarrow> int \<Rightarrow> int \<Rightarrow> string" where
  "dvName migName vmIdx diskIdx =
     (let prefix = (if length migName > 40 then take 40 migName else migName)
      in ''dv-'' @ prefix @ ''-'' @ fmt_d vmIdx @ ''-'' @ fmt_d diskIdx)"

definition ownerLabelsTyped :: "AHVMigration \<Rightarrow> labels" where
  "ownerLabelsTyped mig = [(''app.kubernetes.io/managed-by'', ''ahv-to-ove-operator''),
     (''migration.lightwell.co.jp/owner'', Name mig)]"

definition ownerLabelsMap :: "AHVMigration \<Rightarrow> json" where
  "ownerLabelsMap mig = JObj [(''app.kubernetes.io/managed-by'', JStr ''ahv-to-ove-operator''),
     (''migration.lightwell.co.jp/owner'', JStr (Name mig))]"

definition cdiAuthSecretName :: "AHVMigration \<Rightarrow> string" where
  "cdiAuthSecretName mig = Name mig @ ''-prism-auth''"

definition buildCDIAuthSecret :: "AHVMigration \<Rightarrow> string \<Rightarrow> string \<Rightarrow> Secret" where
  "buildCDIAuthSecret mig user pass =
     \<lparr>secName = cdiAuthSecretName mig, secNamespace = targetNS mig, secLabels = ownerLabelsTyped mig,
      secType = ''Opaque'', secStringData = [(''accessKeyId'', user), (''secretKey'', pass)]\<rparr>"

text \<open>\<open>resolveStorage\<close>: storage class, access mode and volume mode of the first matching mapping.\<close>

definition storageOf :: "StorageMapping \<Rightarrow> string \<times> string \<times> string" where
  "storageOf sm = (TargetStorageClass sm,
     (if AccessMode sm = [] then ''ReadWriteMany'' else AccessMode sm),
     (if VolumeMode sm = [] then ''Block'' else VolumeMode sm))"

fun resolveStorage_in :: "StorageMapping list \<Rightarrow> string \<Rightarrow> string \<times> string \<times> string" where
  "resolveStorage_in [] containerName = (''ocs-storagecluster-ceph-rbd'', ''ReadWriteMany'', ''Block'')"
| "resolveStorage_in (sm # sms) containerName =
     (if smSource sm = containerName \<or> containerName = [] then storageOf sm else resolveStorage_in sms containerName)"

definition resolveStorage :: "AHVMigration \<Rightarrow> string \<Rightarrow> string \<times> string \<times> string" where
  "resolveStorage mig containerName = resolveStorage_in (StorageMappings (Spec mig)) containerName"

text \<open>The claim template both kinds of DataVolume share.\<close>

definition pvcSpec :: "env \<Rightarrow> AHVMigration \<Rightarrow> int \<Rightarrow> json" where
  "pvcSpec E mig sizeMB =
     (case resolveStorage mig [] of (storageClass, accessMode, volumeMode) \<Rightarrow>
        JObj [(''accessModes'', JArr [JStr accessMode]), (''volumeMode'', JStr volumeMode),
              (''resources'', JObj [(''requests'', JObj [(''storage'', JStr (dvStorageSize E sizeMB))])]),
              (''storageClassName'', JStr storageClass)])"

definition buildDataVolume :: "env \<Rightarrow> AHVMigration \<Rightarrow> int \<Rightarrow> DiskInfo \<Rightarrow> string \<Rightarrow> json" where
  "buildDataVolume E mig vmIdx disk sourceURL =
     JObj [(''apiVersion'', JStr ''cdi.kubevirt.io/v1beta1''), (''kind'', JStr ''DataVolume''),
       (''metadata'', JObj [(''name'', JStr (dvName (Name mig) vmIdx (diIndex disk))),
          (''namespace'', JStr (targetNS mig)), (''labels'', ownerLabelsMap mig),
          (''annotations'', JObj [(''cdi.kubevirt.io/storage.bind.immediate.requested'', JStr ''true'')])]),
       (''spec'', JObj [(''source'', JObj [(''http'', JObj [(''url'', JStr sourceURL),
             (''secretRef'', JStr (cdiAuthSecretName mig)), (''certConfigMap'', JStr ''prism-ca-cert'')])]),
          (''pvc'', pvcSpec E mig (SizeMB disk))])]"

definition buildBlankDataVolume :: "env \<Rightarrow> AHVMigration \<Rightarrow> int \<Rightarrow> DiskInfo \<Rightarrow> json" where
  "buildBlankDataVolume E mig vmIdx disk =
     JObj [(''apiVersion'', JStr ''cdi.kubevirt.io/v1beta1''), (''kind'', JStr ''DataVolume''),
       (''metadata'', JObj [(''name'', JStr (dvName (Name mig) vmIdx (diIndex disk))),
          (''namespace'', JStr (targetNS mig)), (''labels'', ownerLabelsMap mig),
          (''annotations'', JObj [(''migration.lightwell.co.jp/bare-disk'', JStr ''true''),
                                  (''migration.lightwell.co.jp/source-disk-uuid'', JStr (diUUID disk))])]),
       (''spec'', JObj [(''source'', JObj [(''blank'', JObj [])]), (''pvc'', pvcSpec E mig (SizeMB disk))])]"

definition isDVSucceeded :: "env \<Rightarrow> json \<Rightarrow> bool" where
  "isDVSucceeded E dv = (nestedString E dv [''status'', ''phase''] = ''Succeeded'')"

text \<open>\<open>dvProgress\<close>: \<^verbatim>\<open>Sscanf\<close> into an \<^verbatim>\<open>int32\<close> that stays 0 when nothing in range can be read.\<close>

definition dvProgress :: "env \<Rightarrow> json \<Rightarrow> int" where
  "dvProgress E dv =
     (let prog = nestedString E dv [''status'', ''progress'']
      in if prog = [] then 0
         else (case scan_d prog of Some (v, rest) \<Rightarrow> if in32 v then v else 0 | None \<Rightarrow> 0))"

section \<open>Names\<close>

lemma show_nat_no_dash: "CHR ''-'' \<notin> set (show_nat n)"
  using show_nat_digits digit_not_special(1) by blast

lemma fmt_d_nonneg: "0 \<le> x \<Longrightarrow> fmt_d x = show_nat (nat x)"
  by (simp add: fmt_d_def)

lemma fmt_d_no_dash: "0 \<le> x \<Longrightarrow> CHR ''-'' \<notin> set (fmt_d x)"
  by (simp add: fmt_d_nonneg show_nat_no_dash)

lemma append_sep_eq:
  assumes "a @ c # b = a' @ c # b'" and "c \<notin> set a" and "c \<notin> set a'"
  shows "a = a' \<and> b = b'"
  using assms
proof (induction a arbitrary: a')
  case Nil
  then show ?case by (cases a') auto
next
  case (Cons x a)
  then show ?case by (cases a') auto
qed

text \<open>
  The interface of a naming scheme: within one migration the name of an object determines the indices it
  was made from.
\<close>

locale indexed_name =
  fixes name :: "string \<Rightarrow> int \<Rightarrow> int \<Rightarrow> string"
  assumes name_inj: "0 \<le> i \<Longrightarrow> 0 \<le> j \<Longrightarrow> 0 \<le> i' \<Longrightarrow> 0 \<le> j' \<Longrightarrow> name m i j = name m i' j' \<Longrightarrow> i = i' \<and> j = j'"
begin

lemma names_distinct:
  assumes "distinct ijs" and "\<forall>(i, j) \<in> set ijs. 0 \<le> i \<and> 0 \<le> j"
  shows "distinct (map (\<lambda>(i, j). name m i j) ijs)"
proof -
  have "inj_on (\<lambda>(i, j). name m i j) (set ijs)"
  proof (rule inj_onI)
    fix a b
    assume "a \<in> set ijs" "b \<in> set ijs" and eq: "(case a of (i, j) \<Rightarrow> name m i j) = (case b of (i, j) \<Rightarrow> name m i j)"
    with assms(2) show "a = b" using name_inj [of "fst a" "snd a" "fst b" "snd b" m]
      by (auto split: prod.splits)
  qed
  with assms(1) show ?thesis by (simp add: distinct_map)
qed

lemma disk_names_distinct: "0 \<le> i \<Longrightarrow> distinct (map (\<lambda>d. name m i (int d)) [0..<n])"
proof -
  assume "0 \<le> i"
  have "distinct (map (\<lambda>(i, j). name m i j) (map (\<lambda>d. (i, int d)) [0..<n]))"
    by (rule names_distinct) (auto simp: distinct_map inj_on_def \<open>0 \<le> i\<close>)
  then show ?thesis by (simp add: comp_def)
qed

end

interpretation dv_names: indexed_name dvName
proof unfold_locales
  fix i j i' j' :: int and m :: string
  assume "0 \<le> i" "0 \<le> j" "0 \<le> i'" "0 \<le> j'" and "dvName m i j = dvName m i' j'"
  then have "fmt_d i @ CHR ''-'' # fmt_d j = fmt_d i' @ CHR ''-'' # fmt_d j'"
    by (simp add: dvName_def Let_def)
  then have "fmt_d i = fmt_d i' \<and> fmt_d j = fmt_d j'"
    by (rule append_sep_eq) (simp_all add: fmt_d_no_dash \<open>0 \<le> i\<close> \<open>0 \<le> i'\<close>)
  then show "i = i' \<and> j = j'" by (blast dest: fmt_d_inj)
qed

text \<open>Within one migration different disks have different DataVolume names, and a name fits into the 63 characters
  of a DNS label for up to a thousand million machines and disks.\<close>

theorem dvName_injective_short:
  assumes "0 \<le> i" and "0 \<le> j" and "0 \<le> i'" and "0 \<le> j'"
  shows "(dvName m i j = dvName m i' j') = (i = i' \<and> j = j') \<and>
    (i < 10 ^ 9 \<longrightarrow> j < 10 ^ 9 \<longrightarrow> length (dvName m i j) \<le> 63)"
proof (intro conjI impI)
  show "(dvName m i j = dvName m i' j') = (i = i' \<and> j = j')"
    using dv_names.name_inj [OF assms] by blast
  assume "i < 10 ^ 9" "j < 10 ^ 9"
  then have "length (fmt_d i) \<le> 9" "length (fmt_d j) \<le> 9"
    using assms length_show_nat [of "nat i" 9] length_show_nat [of "nat j" 9] by (simp_all add: fmt_d_nonneg)
  then show "length (dvName m i j) \<le> 63" by (simp add: dvName_def Let_def min_def)
qed

theorem dvName_injective_short_witness:
  "dvName ''mig'' 0 1 \<noteq> dvName ''mig'' 1 0 \<and> length (dvName ''mig'' 0 1) \<le> 63"
  using dvName_injective_short [of 0 1 1 0 "''mig''"] by simp

text \<open>Two migrations in the same namespace whose names agree in their first forty characters give their
  DataVolumes the same names.\<close>

theorem dvName_collision:
  "dvName (replicate 40 (CHR ''a'') @ ''-one'') i j = dvName (replicate 40 (CHR ''a'') @ ''-two'') i j"
  by (simp add: dvName_def Let_def)

section \<open>Sizes\<close>

text \<open>The requested claim is at least as large as the disk and at most ten percent larger, for sizes whose
  product with 110 stays below the 64-bit bound.\<close>

theorem requestedMi_bounds:
  assumes "0 \<le> sz" and "sz * 110 < 2 ^ 63"
  shows "sz \<le> requestedMi sz \<and> 100 * requestedMi sz \<le> 110 * sz \<and> 110 * sz < 100 * (requestedMi sz + 1)"
proof -
  have "requestedMi sz = sz * 110 div 100"
    using assms by (simp add: requestedMi_def wrap64_nonneg go_div_nonneg)
  then show ?thesis using assms(1) by auto
qed

theorem requestedMi_bounds_witness: "(20480::int) \<le> requestedMi 20480 \<and> requestedMi 20480 = 22528"
  using requestedMi_bounds [of 20480] by (simp add: requestedMi_def go_div_def wrap64_def)

section \<open>DataVolumes\<close>

lemma objName_DataVolume:
  assumes "unstructured_laws E"
  shows "objName E (buildDataVolume E mig i d url) = dvName (Name mig) i (diIndex d)"
    and "objName E (buildBlankDataVolume E mig i d) = dvName (Name mig) i (diIndex d)"
  using assms
  by (simp_all add: objName_def unstructured_laws_def path_get_def jget_def as_string_def
      buildDataVolume_def buildBlankDataVolume_def)

lemma buildDataVolume_fields:
  "path_get (buildDataVolume E mig i d url) [''spec'', ''source'', ''http'', ''url''] = JStr url"
  "path_get (buildDataVolume E mig i d url) [''spec'', ''source'', ''http'', ''secretRef''] =
     JStr (secName (buildCDIAuthSecret mig user pass))"
  "path_get (buildDataVolume E mig i d url) [''metadata'', ''namespace''] = JStr (targetNS mig)"
  "path_get (buildDataVolume E mig i d url) [''spec'', ''pvc''] = path_get (buildBlankDataVolume E mig i d) [''spec'', ''pvc'']"
  by (simp_all add: path_get_def jget_def buildDataVolume_def buildBlankDataVolume_def buildCDIAuthSecret_def)

end
