(* ===== verification/Kubevirt.thy ===== *)
theory Kubevirt
  imports Cdi
begin

text \<open>
  The KubeVirt objects of \<^verbatim>\<open>controllers/kubevirt_resources.go\<close>: the VirtualMachine for a migrated machine,
  its variant on the test network and the patch that moves it to the production network.  The list
  \<^verbatim>\<open>dvTemplates\<close> that \<^verbatim>\<open>buildVirtualMachine\<close> fills is never read and has no counterpart here.
\<close>

section \<open>Definitions\<close>

definition vmTargetName :: "VMSpec \<Rightarrow> string" where
  "vmTargetName vmSpec = (if TargetName vmSpec \<noteq> [] then TargetName vmSpec else vmName vmSpec)"

definition pickTarget :: "bool \<Rightarrow> NetworkMapping \<Rightarrow> string" where
  "pickTarget useTestTarget nm =
     (let target = (if useTestTarget \<and> TestTarget nm \<noteq> [] then TestTarget nm else nmTarget nm)
      in if nmTargetNamespace nm \<noteq> [] then nmTargetNamespace nm @ ''/'' @ target else target)"

definition resolveNetwork :: "AHVMigration \<Rightarrow> string \<Rightarrow> bool \<Rightarrow> string" where
  "resolveNetwork mig ahvNetwork useTestTarget =
     (case List.find (\<lambda>nm. nmSource nm = ahvNetwork) (NetworkMappings (Spec mig)) of
        Some nm \<Rightarrow> pickTarget useTestTarget nm
      | None \<Rightarrow> (case NetworkMappings (Spec mig) of
          nm # nms \<Rightarrow> pickTarget useTestTarget nm
        | [] \<Rightarrow> ''example-bridge''))"

definition nicModelOf :: "VMSpec \<Rightarrow> string" where
  "nicModelOf vmSpec = (if NICModel vmSpec = [] then ''virtio'' else NICModel vmSpec)"

definition keepMACOf :: "VMSpec \<Rightarrow> bool" where
  "keepMACOf vmSpec = (case KeepMAC vmSpec of None \<Rightarrow> True | Some b \<Rightarrow> b)"

definition nicName :: "nat \<Rightarrow> string" where
  "nicName i = ''nic'' @ fmt_d (int i)"

text \<open>The loop over the NICs that the three functions share: interfaces and Multus networks.\<close>

definition nicInterface :: "VMSpec \<Rightarrow> nat \<times> NICInfo \<Rightarrow> json" where
  "nicInterface vmSpec inic =
     (case inic of (i, nic) \<Rightarrow>
        JObj ([(''name'', JStr (nicName i)), (''bridge'', JObj []), (''model'', JStr (nicModelOf vmSpec))] @
              (if keepMACOf vmSpec \<and> MACAddress nic \<noteq> [] then [(''macAddress'', JStr (MACAddress nic))] else [])))"

definition nicNetwork :: "AHVMigration \<Rightarrow> bool \<Rightarrow> nat \<times> NICInfo \<Rightarrow> json" where
  "nicNetwork mig useTestTarget inic =
     (case inic of (i, nic) \<Rightarrow>
        JObj [(''name'', JStr (nicName i)),
              (''multus'', JObj [(''networkName'', JStr (resolveNetwork mig (NetworkName nic) useTestTarget))])])"

definition buildNetworks :: "AHVMigration \<Rightarrow> VMSpec \<Rightarrow> VMInfo \<Rightarrow> bool \<Rightarrow> json list \<times> json list" where
  "buildNetworks mig vmSpec vmInfo useTestTarget =
     (map (nicNetwork mig useTestTarget) (enumerate 0 (NICList vmInfo)),
      map (nicInterface vmSpec) (enumerate 0 (NICList vmInfo)))"

definition diskName :: "nat \<Rightarrow> string" where
  "diskName i = ''disk'' @ fmt_d (int i)"

definition diskBusOf :: "VMSpec \<Rightarrow> string" where
  "diskBusOf vmSpec = (if DiskBus vmSpec = [] then ''scsi'' else DiskBus vmSpec)"

definition vmDisks :: "VMSpec \<Rightarrow> VMInfo \<Rightarrow> json list" where
  "vmDisks vmSpec vmInfo =
     map (\<lambda>i. JObj [(''name'', JStr (diskName i)), (''disk'', JObj [(''bus'', JStr (diskBusOf vmSpec))])])
       [0..<length (DiskList vmInfo)]"

definition vmVolumes :: "AHVMigration \<Rightarrow> int \<Rightarrow> VMInfo \<Rightarrow> json list" where
  "vmVolumes mig vmIdx vmInfo =
     map (\<lambda>i. JObj [(''name'', JStr (diskName i)),
                    (''dataVolume'', JObj [(''name'', JStr (dvName (Name mig) vmIdx (int i)))])])
       [0..<length (DiskList vmInfo)]"

definition useUEFI :: "VMSpec \<Rightarrow> VMInfo \<Rightarrow> bool" where
  "useUEFI vmSpec vmInfo = (case UEFI vmSpec of Some b \<Rightarrow> b | None \<Rightarrow> IsUEFI vmInfo)"

text \<open>Networks and interfaces of the machine, with the pod network when it has no NIC.\<close>

definition vmNetworks :: "AHVMigration \<Rightarrow> VMSpec \<Rightarrow> VMInfo \<Rightarrow> json list \<times> json list" where
  "vmNetworks mig vmSpec vmInfo =
     (if NICList vmInfo \<noteq> [] then buildNetworks mig vmSpec vmInfo False
      else ([JObj [(''name'', JStr ''default''), (''pod'', JObj [])]],
            [JObj [(''name'', JStr ''default''), (''masquerade'', JObj [])]]))"

definition buildVirtualMachine :: "AHVMigration \<Rightarrow> VMSpec \<Rightarrow> int \<Rightarrow> VMInfo \<Rightarrow> json" where
  "buildVirtualMachine mig vmSpec vmIdx vmInfo =
     (case vmNetworks mig vmSpec vmInfo of (networks, interfaces) \<Rightarrow>
        let name = vmTargetName vmSpec; uefi = useUEFI vmSpec vmInfo;
            domain = JObj ([(''cpu'', JObj [(''cores'', JInt (NumCPUs vmInfo))]),
               (''resources'', JObj [(''requests'', JObj [(''memory'', JStr (fmt_d (MemoryMB vmInfo) @ ''Mi''))])]),
               (''devices'', JObj [(''disks'', JArr (vmDisks vmSpec vmInfo)), (''interfaces'', JArr interfaces)])] @
              (if uefi then [(''firmware'', JObj [(''bootloader'', JObj [(''efi'', JObj [(''secureBoot'', JBool False)])])])]
               else []))
        in JObj [(''apiVersion'', JStr ''kubevirt.io/v1''), (''kind'', JStr ''VirtualMachine''),
             (''metadata'', JObj [(''name'', JStr name), (''namespace'', JStr (targetNS mig)), (''labels'', ownerLabelsMap mig),
                (''annotations'', JObj [(''migration.lightwell.co.jp/source-vm'', JStr (vmName vmSpec)),
                   (''migration.lightwell.co.jp/uefi'', JStr (if uefi then ''true'' else ''false''))])]),
             (''spec'', JObj [(''running'', JBool False),
                (''template'', JObj [(''metadata'', JObj [(''labels'', JObj [(''kubevirt.io/vm'', JStr name)])]),
                   (''spec'', JObj [(''domain'', domain), (''networks'', JArr networks),
                                    (''volumes'', JArr (vmVolumes mig vmIdx vmInfo))])])])])"

definition buildVirtualMachineWithNetwork :: "env \<Rightarrow> AHVMigration \<Rightarrow> VMSpec \<Rightarrow> int \<Rightarrow> VMInfo \<Rightarrow> bool \<Rightarrow> json" where
  "buildVirtualMachineWithNetwork E mig vmSpec vmIdx vmInfo useTestTarget =
     (let vm = buildVirtualMachine mig vmSpec vmIdx vmInfo
      in if \<not> useTestTarget then vm
         else (case buildNetworks mig vmSpec vmInfo True of (networks, interfaces) \<Rightarrow>
           let spec = jput (nestedMap E vm [''spec'', ''template'', ''spec'']) ''networks'' (JArr networks);
               domain = nestedMap E vm [''spec'', ''template'', ''spec'', ''domain''];
               devices = jput (nestedMap E domain [''devices'']) ''interfaces'' (JArr interfaces)
           in set_or_keep E vm [''spec'', ''template'', ''spec''] (jput spec ''domain'' (jput domain ''devices'' devices))))"

definition buildNetworkPatchToProd :: "AHVMigration \<Rightarrow> VMInfo \<Rightarrow> VMSpec \<Rightarrow> json list \<times> json list" where
  "buildNetworkPatchToProd mig vmInfo vmSpec = buildNetworks mig vmSpec vmInfo False"

text \<open>The three updates of \<open>handleSwitchingNetwork\<close>: networks, interfaces, and the machine is started.\<close>

definition switchNetworks :: "env \<Rightarrow> json \<Rightarrow> json list \<times> json list \<Rightarrow> json" where
  "switchNetworks E vm patch =
     set_or_keep E
       (set_or_keep E
         (set_or_keep E vm [''spec'', ''template'', ''spec'', ''networks''] (JArr (fst patch)))
         [''spec'', ''template'', ''spec'', ''domain'', ''devices'', ''interfaces''] (JArr (snd patch)))
       [''spec'', ''running''] (JBool True)"

section \<open>Consistency of the machine\<close>

text \<open>The value under a key of every element of a list.\<close>

definition names_in :: "json \<Rightarrow> string list" where
  "names_in j = map (\<lambda>x. as_string (jget x ''name'')) (as_list j)"

lemma fmt_index_inj: "fmt_d (int i) = fmt_d (int j) \<Longrightarrow> i = j"
  using fmt_d_inj by fastforce

lemma distinct_indexed: "distinct (map (\<lambda>i. pre @ fmt_d (int i)) [0..<n])"
  by (auto simp: distinct_map inj_on_def dest: fmt_index_inj)

lemma enumerate_names: "map (\<lambda>x. f (fst x)) (enumerate 0 xs) = map f [0..<length xs]"
  by (rule nth_equalityI) (simp_all add: nth_enumerate_eq)

lemma names_in_networks:
  "map (\<lambda>x. as_string (jget x ''name'')) (fst (buildNetworks mig vs info b)) = map nicName [0..<length (NICList info)]"
  "map (\<lambda>x. as_string (jget x ''name'')) (snd (buildNetworks mig vs info b)) = map nicName [0..<length (NICList info)]"
  using enumerate_names [of nicName "NICList info"]
  by (simp_all add: buildNetworks_def nicNetwork_def nicInterface_def comp_def case_prod_beta)

abbreviation "templatePath \<equiv> [''spec'', ''template'', ''spec'']"

lemma buildVirtualMachine_fields:
  "path_get (buildVirtualMachine mig vs i info) (templatePath @ [''volumes'']) = JArr (vmVolumes mig i info)"
  "path_get (buildVirtualMachine mig vs i info) (templatePath @ [''domain'', ''devices'', ''disks'']) = JArr (vmDisks vs info)"
  "path_get (buildVirtualMachine mig vs i info) (templatePath @ [''networks'']) = JArr (fst (vmNetworks mig vs info))"
  "path_get (buildVirtualMachine mig vs i info) (templatePath @ [''domain'', ''devices'', ''interfaces'']) =
     JArr (snd (vmNetworks mig vs info))"
  "path_get (buildVirtualMachine mig vs i info) [''spec'', ''running''] = JBool False"
  "path_get (buildVirtualMachine mig vs i info) [''metadata'', ''name''] = JStr (vmTargetName vs)"
  by (simp_all add: buildVirtualMachine_def Let_def case_prod_beta)

text \<open>C32: The virtual machine is consistent: it is created stopped, its volumes are exactly the DataVolumes named for
  its disks, every disk has the volume of its name and the names are distinct, every interface has the
  network of its name and there is at least one.\<close>

theorem buildVirtualMachine_consistent:
  "path_get (buildVirtualMachine mig vs i info) [''spec'', ''running''] = JBool False \<and>
   map (\<lambda>v. path_get v [''dataVolume'', ''name'']) (as_list (path_get (buildVirtualMachine mig vs i info) (templatePath @ [''volumes'']))) =
     map (\<lambda>d. JStr (dvName (Name mig) i (int d))) [0..<length (DiskList info)] \<and>
   names_in (path_get (buildVirtualMachine mig vs i info) (templatePath @ [''volumes''])) =
     names_in (path_get (buildVirtualMachine mig vs i info) (templatePath @ [''domain'', ''devices'', ''disks''])) \<and>
   distinct (names_in (path_get (buildVirtualMachine mig vs i info) (templatePath @ [''volumes'']))) \<and>
   names_in (path_get (buildVirtualMachine mig vs i info) (templatePath @ [''networks''])) =
     names_in (path_get (buildVirtualMachine mig vs i info) (templatePath @ [''domain'', ''devices'', ''interfaces''])) \<and>
   distinct (names_in (path_get (buildVirtualMachine mig vs i info) (templatePath @ [''networks'']))) \<and>
   names_in (path_get (buildVirtualMachine mig vs i info) (templatePath @ [''networks''])) \<noteq> []"
proof -
  have dist: "distinct (map nicName [0..<n])" "distinct (map diskName [0..<n])" for n
    using distinct_indexed [of "''nic''" n] distinct_indexed [of "''disk''" n]
    by (simp_all add: nicName_def [abs_def] diskName_def [abs_def])
  have ne: "NICList info \<noteq> [] \<Longrightarrow> fst (buildNetworks mig vs info b) \<noteq> []" for b
    using names_in_networks(1) [of mig vs info b] by auto
  show ?thesis
    unfolding buildVirtualMachine_fields
    by (simp add: names_in_def vmVolumes_def vmDisks_def vmNetworks_def names_in_networks dist ne comp_def)
qed

section \<open>Test and production networks\<close>

lemma test_vm_fields:
  assumes "unstructured_laws E"
  shows "buildVirtualMachineWithNetwork E mig vs i info True =
    the (path_put (the (path_put (buildVirtualMachine mig vs i info) (templatePath @ [''networks''])
          (JArr (fst (buildNetworks mig vs info True)))))
      (templatePath @ [''domain'', ''devices'', ''interfaces'']) (JArr (snd (buildNetworks mig vs info True))))"
  using assms
  by (simp add: buildVirtualMachineWithNetwork_def unstructured_laws_def set_or_keep_def buildVirtualMachine_def
      Let_def case_prod_beta jput_def)

text \<open>C31: Approving a test leads to the machine a direct migration would have built: when the source machine has a NIC,
  switching the networks of its test variant gives the production machine, started.\<close>

theorem switch_to_prod_is_production_vm:
  assumes "unstructured_laws E" and "NICList info \<noteq> []"
  shows "Some (switchNetworks E (buildVirtualMachineWithNetwork E mig vs i info True)
      (buildNetworkPatchToProd mig info vs)) =
    path_put (buildVirtualMachine mig vs i info) [''spec'', ''running''] (JBool True)"
  using assms
  by (simp add: test_vm_fields switchNetworks_def set_or_keep_def unstructured_laws_def buildVirtualMachine_def
      Let_def case_prod_beta jput_def buildNetworkPatchToProd_def vmNetworks_def)

definition exampleInfo :: VMInfo where
  "exampleInfo = \<lparr>viUUID = ''u'', viName = ''web'', NumCPUs = 2, MemoryMB = 2048,
     DiskList = [\<lparr>diIndex = 0, diUUID = ''d'', SizeMB = 20480, DeviceType = ''DISK'', SourceURL = [], IsBare = True\<rparr>],
     NICList = [\<lparr>NetworkName = ''lan'', MACAddress = ''50:6b:8d:00:00:01''\<rparr>], IsUEFI = False\<rparr>"

theorem switch_to_prod_is_production_vm_witness:
  "path_get (switchNetworks idle_env (buildVirtualMachineWithNetwork idle_env exampleMigration exampleVM 0 exampleInfo True)
      (buildNetworkPatchToProd exampleMigration exampleInfo exampleVM)) [''spec'', ''running''] = JBool True"
proof -
  have "NICList exampleInfo \<noteq> []" by (simp add: exampleInfo_def)
  from switch_to_prod_is_production_vm [OF idle_env_laws this, of exampleMigration exampleVM 0] show ?thesis
    by (metis path_get_path_put)
qed

text \<open>A machine without NICs gets the pod network in a direct migration, but no network at all in its test variant
  and after the switch to production.\<close>

theorem test_vm_without_nic:
  assumes "unstructured_laws E" and "NICList info = []"
  shows "path_get (buildVirtualMachine mig vs i info) (templatePath @ [''networks'']) =
      JArr [JObj [(''name'', JStr ''default''), (''pod'', JObj [])]] \<and>
    path_get (buildVirtualMachineWithNetwork E mig vs i info True) (templatePath @ [''networks'']) = JArr [] \<and>
    path_get (switchNetworks E (buildVirtualMachineWithNetwork E mig vs i info True)
      (buildNetworkPatchToProd mig info vs)) (templatePath @ [''networks'']) = JArr []"
  using assms
  by (simp add: test_vm_fields switchNetworks_def set_or_keep_def unstructured_laws_def buildVirtualMachine_def
      Let_def case_prod_beta jput_def buildNetworkPatchToProd_def vmNetworks_def buildNetworks_def)

theorem test_vm_without_nic_witness:
  "path_get (buildVirtualMachineWithNetwork idle_env exampleMigration exampleVM 0 (exampleInfo\<lparr>NICList := []\<rparr>) True)
     (templatePath @ [''networks'']) = JArr []"
  using test_vm_without_nic [OF idle_env_laws, of "exampleInfo\<lparr>NICList := []\<rparr>" exampleMigration exampleVM 0] by simp

end
