(* ===== verification/ControllerBase.thy ===== *)
theory ControllerBase
  imports Kubevirt
begin

text \<open>
  The helpers of \<^verbatim>\<open>controllers/ahvmigration_controller.go\<close> that every handler uses: writing the status,
  failing a migration, creating a missing Secret, rewriting download URLs, and creating the DataVolumes.
\<close>

section \<open>Status updates\<close>

definition set_cond :: "env \<Rightarrow> string \<Rightarrow> ConditionStatus \<Rightarrow> string \<Rightarrow> string \<Rightarrow> AHVMigration \<Rightarrow> AHVMigration cmd" where
  "set_cond E ty st reason msg mig = do { now \<leftarrow> metav1_now E; return (setCondition now ty st reason msg mig) }"

text \<open>The end of most handlers: patch the status, then return the error or the given result.\<close>

definition commit :: "env \<Rightarrow> AHVMigration \<Rightarrow> AHVMigration \<Rightarrow> ctrl_result \<Rightarrow> outcome cmd" where
  "commit E mig patch res =
     do { r \<leftarrow> k8s_patch_status E mig patch;
          return (case r of Some err \<Rightarrow> Err (kerr_text err) | None \<Rightarrow> Done res) }"

definition failMigration :: "env \<Rightarrow> AHVMigration \<Rightarrow> string \<Rightarrow> outcome cmd" where
  "failMigration E mig reason =
     do { patch \<leftarrow> set_cond E ConditionCompleted ConditionFalse ''Failed'' reason (setPhase PhaseFailed mig);
          commit E mig patch NoRequeue }"

definition ensureSecret :: "env \<Rightarrow> Secret \<Rightarrow> kerr option cmd" where
  "ensureSecret E secret =
     do { r \<leftarrow> k8s_get_secret E (secNamespace secret) (secName secret);
          case r of
            Inl err \<Rightarrow> if IsNotFound err then k8s_create_secret E secret else return (Some err)
          | Inr d \<Rightarrow> return None }"

definition replacePrismURLWithProxy :: "string \<Rightarrow> string \<Rightarrow> string \<Rightarrow> string" where
  "replacePrismURLWithProxy sourceURL prismEndpoint proxyURL =
     (if prismEndpoint = [] \<or> proxyURL = [] then sourceURL
      else if \<not> has_prefix sourceURL prismEndpoint then sourceURL
      else trim_right proxyURL (CHR ''/'') @ drop (length prismEndpoint) sourceURL)"

section \<open>DataVolumes\<close>

text \<open>Creating an object that does not exist yet; an existing one is left alone.\<close>

definition ensureObj :: "env \<Rightarrow> ukind \<Rightarrow> string \<Rightarrow> string \<Rightarrow> json \<Rightarrow> string \<Rightarrow> string option cmd" where
  "ensureObj E kind ns name obj what =
     do { existing \<leftarrow> k8s_get E kind ns name;
          case existing of
            Inl err \<Rightarrow>
              if IsNotFound err then
                do { c \<leftarrow> k8s_create E kind obj;
                     return (case c of Some e \<Rightarrow> Some (''create '' @ what @ '' '' @ name @ '': '' @ kerr_text e) | None \<Rightarrow> None) }
              else return (Some (kerr_text err))
          | Inr j \<Rightarrow> return None }"

definition proxied :: "AHVMigration \<Rightarrow> string \<Rightarrow> string" where
  "proxied mig url = (if CDIProxyURL (sourceOf mig) \<noteq> []
     then replacePrismURLWithProxy url (Endpoint (sourceOf mig)) (CDIProxyURL (sourceOf mig)) else url)"

text \<open>The DataVolume of a disk in the direct flow; \<open>None\<close> for a disk that has neither an image nor a UUID.\<close>

definition diskDataVolume :: "env \<Rightarrow> AHVMigration \<Rightarrow> int \<Rightarrow> DiskInfo \<Rightarrow> json option" where
  "diskDataVolume E mig vmIdx disk =
     (if SourceURL disk \<noteq> [] then Some (buildDataVolume E mig vmIdx disk (proxied mig (SourceURL disk)))
      else if IsBare disk then Some (buildBlankDataVolume E mig vmIdx disk)
      else None)"

definition createDataVolumes :: "env \<Rightarrow> AHVMigration \<Rightarrow> PrismClient \<Rightarrow> VMStatus list \<Rightarrow> (string + VMStatus list) cmd" where
  "createDataVolumes E mig prism vmStatuses =
     after (foreach (enumerate 0 (VMs (Spec mig))) vmStatuses (\<lambda>(vmIdx, vmSpec) vms.
       do { vmInfo \<leftarrow> GetVMByName E prism (vmName vmSpec);
            case vmInfo of
              Inl err \<Rightarrow> return (Ret (Inl (''VM '' @ go_quote (vmName vmSpec) @ '': '' @ err)))
            | Inr info \<Rightarrow>
                after_inner (foreach (DiskList info) [] (\<lambda>disk dvRefs.
                  case diskDataVolume E mig (int vmIdx) disk of
                    None \<Rightarrow> return (Next dvRefs)
                  | Some dv \<Rightarrow>
                      do { r \<leftarrow> ensureObj E DataVolume (targetNS mig) (objName E dv) dv ''DataVolume'';
                           return (case r of Some err \<Rightarrow> Ret (Inl err) | None \<Rightarrow> Next (dvRefs @ [objName E dv])) }))
                (\<lambda>dvRefs. return (Next (vms[vmIdx := (vms ! vmIdx)\<lparr>DataVolumeRefs := dvRefs, stPhase := ''ImportingDisks''\<rparr>]))) }))
     (\<lambda>vms. return (Inr vms))"

text \<open>The size of an image in MiB, rounded up.\<close>

definition imageSizeMB :: "int \<Rightarrow> int" where
  "imageSizeMB sizeBytes = go_div (wrap64 (wrap64 (sizeBytes + 1024 * 1024) - 1)) (1024 * 1024)"

definition createDataVolumesFromTempImages :: "env \<Rightarrow> AHVMigration \<Rightarrow> PrismClient \<Rightarrow> VMStatus list \<Rightarrow> (string + VMStatus list) cmd" where
  "createDataVolumesFromTempImages E mig prism vmStatuses =
     after (foreach (enumerate 0 vmStatuses) vmStatuses (\<lambda>(vmIdx, vmSt) vms.
       after_inner (foreach (enumerate 0 (TempImageRefs vmSt)) [] (\<lambda>(diskIdx, imgUUID) dvRefs.
         do { sz \<leftarrow> GetImageSizeBytes E prism imgUUID;
              let sizeMB = (case sz of Inl err \<Rightarrow> 51200 | Inr bytes \<Rightarrow> imageSizeMB bytes);
                  disk = \<lparr>diIndex = int diskIdx, diUUID = imgUUID, SizeMB = sizeMB, DeviceType = [], SourceURL = [], IsBare = False\<rparr>;
                  dv = buildDataVolume E mig (int vmIdx) disk (proxied mig (DiskImageURL prism imgUUID))
              in do { r \<leftarrow> ensureObj E DataVolume (targetNS mig) (objName E dv) dv ''DataVolume'';
                      return (case r of Some err \<Rightarrow> Ret (Inl err) | None \<Rightarrow> Next (dvRefs @ [objName E dv])) } }))
       (\<lambda>dvRefs. return (Next (vms[vmIdx := vmSt\<lparr>DataVolumeRefs := dvRefs, stPhase := ''ImportingDisks''\<rparr>])))))
     (\<lambda>vms. return (Inr vms))"

section \<open>Rewriting of download URLs\<close>

text \<open>With an endpoint that does not end in a slash, the download URL of an image that is handed to CDI is the
  proxy's address followed by the path of the image, and without a proxy it is the URL itself.\<close>

theorem proxied_image_url:
  assumes "Endpoint (sourceOf mig) \<noteq> []" and "last (Endpoint (sourceOf mig)) \<noteq> CHR ''/''"
    and "baseURL p = trim_right (Endpoint (sourceOf mig)) (CHR ''/'')"
  shows "proxied mig (DiskImageURL p img) =
    (if CDIProxyURL (sourceOf mig) = [] then DiskImageURL p img
     else trim_right (CDIProxyURL (sourceOf mig)) (CHR ''/'') @ imagePath img @ ''/file'')"
  using assms
  by (simp add: proxied_def replacePrismURLWithProxy_def DiskImageURL_def imagePath_def trim_right_no_trailing)

theorem proxied_image_url_witness:
  "proxied (exampleMigration\<lparr>Spec := (Spec exampleMigration)\<lparr>Source := exampleSource\<lparr>CDIProxyURL := ''http://proxy/''\<rparr>\<rparr>\<rparr>)
     (DiskImageURL \<lparr>baseURL = ''https://pc:9440'', username = ''u'', password = ''p''\<rparr> ''i'') = ''http://proxy'' @ imagePath ''i'' @ ''/file''"
  using proxied_image_url [of "exampleMigration\<lparr>Spec := (Spec exampleMigration)\<lparr>Source := exampleSource\<lparr>CDIProxyURL := ''http://proxy/''\<rparr>\<rparr>\<rparr>"
      "\<lparr>baseURL = ''https://pc:9440'', username = ''u'', password = ''p''\<rparr>" "''i''"]
  by (simp add: exampleSource_def trim_right_def)

text \<open>With an endpoint that ends in a slash the slash between the proxy's address and the path is lost.\<close>

theorem proxied_trailing_slash:
  "replacePrismURLWithProxy (DiskImageURL \<lparr>baseURL = trim_right ''https://pc:9440/'' (CHR ''/''), username = u, password = pw\<rparr> ''i'')
     ''https://pc:9440/'' ''http://proxy:9440'' = ''http://proxy:9440api/nutanix/v3/images/i/file''"
  by (simp add: replacePrismURLWithProxy_def DiskImageURL_def imagePath_def trim_right_def)

section \<open>Creating DataVolumes\<close>

lemma wp_ensureObj:
  assumes "\<And>err es. Q (Some err) es" and "\<And>es. Q None es"
  shows "wp (ensureObj E kind ns name obj what) Q"
  unfolding ensureObj_def op_defs
  by (intro wp_rules) (auto split: option.splits intro: assms)

lemma emits_ensureObj:
  assumes "\<And>r. P (GetObj kind ns name r)" and "\<And>r. P (CreateObj kind obj r)"
  shows "emits P (ensureObj E kind ns name obj what)"
  unfolding ensureObj_def op_defs by (intro emits_rules assms)

lemma wp_True: "emits P m \<Longrightarrow> wp m (\<lambda>r es. True)"
  unfolding emits_def by (erule wp_mono) simp

definition importingVM :: "AHVMigration \<Rightarrow> nat \<times> VMStatus \<Rightarrow> VMStatus" where
  "importingVM mig ist = (case ist of (i, st) \<Rightarrow>
     st\<lparr>DataVolumeRefs := map (\<lambda>d. dvName (Name mig) (int i) (int d)) [0..<length (TempImageRefs st)],
        stPhase := ''ImportingDisks''\<rparr>)"

lemma createDVs_disks:
  assumes "unstructured_laws E"
  shows "wp (foreach (enumerate 0 imgs) [] (\<lambda>(diskIdx, imgUUID) dvRefs.
      do { sz \<leftarrow> GetImageSizeBytes E prism imgUUID;
           let sizeMB = (case sz of Inl err \<Rightarrow> 51200 | Inr bytes \<Rightarrow> imageSizeMB bytes);
               disk = \<lparr>diIndex = int diskIdx, diUUID = imgUUID, SizeMB = sizeMB, DeviceType = [], SourceURL = [], IsBare = False\<rparr>;
               dv = buildDataVolume E mig (int vmIdx) disk (proxied mig (DiskImageURL prism imgUUID))
           in do { r \<leftarrow> ensureObj E DataVolume (targetNS mig) (objName E dv) dv ''DataVolume'';
                   return (case r of Some err \<Rightarrow> Ret (Inl err :: string + 'v) | None \<Rightarrow> Next (dvRefs @ [objName E dv])) } }))
    (\<lambda>c es. case c of Inl r \<Rightarrow> isl r | Inr dvRefs \<Rightarrow> dvRefs = map (\<lambda>d. dvName (Name mig) (int vmIdx) (int d)) [0..<length imgs])"
proof (rule wp_foreach [where I = "\<lambda>pre dvRefs es. dvRefs = map (\<lambda>d. dvName (Name mig) (int vmIdx) (int d)) [0..<length pre]"], goal_cases)
  case (2 pre x post dvRefs es)
  note x = enumerate_split [OF 2(1)]
  show ?case
    unfolding x(1) prod.case
    by (intro wp_rules wp_mono [OF wp_True [OF calm_requests(5)]])
       (auto simp: Let_def objName_DataVolume [OF assms] 2 intro!: wp_rules wp_ensureObj)
qed auto

text \<open>C33: When \<open>createDataVolumesFromTempImages\<close> succeeds, every machine has one DataVolume reference per image, with the
  name of its index, and no other field of the machines has changed apart from the phase.\<close>

theorem createDataVolumesFromTempImages_refs:
  assumes "unstructured_laws E"
  shows "wp (createDataVolumesFromTempImages E mig prism vms) (\<lambda>r es. case r of Inl err \<Rightarrow> True
    | Inr vms' \<Rightarrow> vms' = map (importingVM mig) (enumerate 0 vms))"
  unfolding createDataVolumesFromTempImages_def
proof (rule wp_after, rule wp_foreach [where I = "\<lambda>pre s es. s = map (importingVM mig) pre @ drop (length pre) vms"], goal_cases)
  case (2 pre x post s es)
  note x = enumerate_split [OF 2(1)]
  show ?case
    unfolding x(1) prod.case
    by (rule wp_after_inner, rule wp_mono [OF createDVs_disks [OF assms]])
       (auto simp: 2 x(2) list_update_append_drop importingVM_def split: sum.splits intro!: wp_return)
qed (auto intro: wp_return)

theorem createDataVolumesFromTempImages_refs_witness:
  "wp (createDataVolumesFromTempImages idle_env exampleMigration \<lparr>baseURL = [], username = [], password = [], pe = None\<rparr>
       [emptyVMStatus\<lparr>TempImageRefs := [''i'', ''j'']\<rparr>])
     (\<lambda>r es. case r of Inl err \<Rightarrow> True | Inr vms \<Rightarrow> map DataVolumeRefs vms = [[dvName ''mig'' 0 0, dvName ''mig'' 0 1]])"
  by (rule wp_mono [OF createDataVolumesFromTempImages_refs [OF idle_env_laws]])
     (auto simp: importingVM_def emptyVMStatus_def exampleMigration_def upt_rec split: sum.splits)

end
