(* ===== verification/Controller.thy ===== *)
theory Controller
  imports ControllerBase
begin

text \<open>
  The phase handlers of \<^verbatim>\<open>controllers/ahvmigration_controller.go\<close>.  A handler reads the migration it was given,
  talks to Prism and to the cluster, and ends in a status patch; a slice that the Go code copies and
  updates is a list in the loop state.
\<close>

section \<open>Initialisation and inventory\<close>

definition handleInit :: "env \<Rightarrow> AHVMigration \<Rightarrow> outcome cmd" where
  "handleInit E mig =
     do { now \<leftarrow> metav1_now E;
          commit E mig (mig\<lparr>Status := (Status mig)\<lparr>Phase := PhasePending,
              TotalVMs := wrap32 (int (length (VMs (Spec mig)))), StartTime := Some now\<rparr>\<rparr>) RequeueNow }"

definition prismClientError :: "env \<Rightarrow> AHVMigration \<Rightarrow> string \<Rightarrow> outcome cmd" where
  "prismClientError E mig err = failMigration E mig (''Prism client error: '' @ err)"

definition handlePending :: "env \<Rightarrow> AHVMigration \<Rightarrow> outcome cmd" where
  "handlePending E mig =
     do { client \<leftarrow> NewPrismClient E mig;
          case client of
            Inl err \<Rightarrow> prismClientError E mig err
          | Inr prism \<Rightarrow>
              do { ens \<leftarrow> ensureSecret E (buildCDIAuthSecret mig (fst (Credentials prism)) (snd (Credentials prism)));
                   case ens of
                     Some err \<Rightarrow> return (Err (''ensure CDI auth secret: '' @ kerr_text err))
                   | None \<Rightarrow>
                       after (foreach (VMs (Spec mig)) [] (\<lambda>vmSpec vms.
                         do { vmInfo \<leftarrow> GetVMByName E prism (vmName vmSpec);
                              case vmInfo of
                                Inl err \<Rightarrow> do { r \<leftarrow> failMigration E mig (''VM '' @ go_quote (vmName vmSpec) @ '': '' @ err);
                                                return (Ret r) }
                              | Inr info \<Rightarrow> return (Next (vms @ [emptyVMStatus\<lparr>stName := vmName vmSpec,
                                              AHVUUID := viUUID info, stPhase := ''Pending''\<rparr>])) }))
                       (\<lambda>vmStatuses.
                          do { patch \<leftarrow> set_cond E ConditionVMInfoFetched ConditionTrue ''Fetched'' ''VM info fetched from Prism''
                                 (setVMs vmStatuses mig);
                               if needsGuestPrep mig then
                                 do { patch \<leftarrow> set_cond E ''GuestPrepComplete'' ConditionFalse ''Pending''
                                        ''Running pre-migration guest preparation scripts'' (setPhase PhaseGuestPrepping patch);
                                      commit E mig patch (RequeueAfter requeueInterval) }
                               else if WarmMigration (sourceOf mig) then
                                 do { patch \<leftarrow> set_cond E ConditionImagesReady ConditionFalse ''WarmPreSync''
                                        ''Creating disk images from running VMs'' (setPhase PhaseWarmPreSync patch);
                                      commit E mig patch (RequeueAfter requeueInterval) }
                               else if ShutdownBeforeMigration (sourceOf mig) then
                                 do { patch \<leftarrow> set_cond E ConditionImagesReady ConditionFalse ''Preparing''
                                        ''Shutting down VMs and creating disk images'' (setPhase PhasePreparingImages patch);
                                      commit E mig patch (RequeueAfter requeueInterval) }
                               else
                                 do { dvs \<leftarrow> createDataVolumes E mig prism vmStatuses;
                                      case dvs of
                                        Inl err \<Rightarrow> return (Err err)
                                      | Inr vms \<Rightarrow>
                                          do { patch \<leftarrow> set_cond E ConditionDisksImported ConditionFalse ''Importing''
                                                 ''DataVolumes are being imported'' (setVMs vms (setPhase PhaseImportingDisks patch));
                                               commit E mig patch (RequeueAfter requeueInterval) } } }) } }"

section \<open>Images of stopped machines\<close>

text \<open>The name of a temporary image, and the loop that creates an image of every disk with a UUID.\<close>

definition imageName :: "string \<Rightarrow> AHVMigration \<Rightarrow> VMStatus \<Rightarrow> DiskInfo \<Rightarrow> string" where
  "imageName prefix mig vmSt disk =
     prefix @ ''-'' @ clip 20 (Name mig) @ ''-'' @ clip 10 (stName vmSt) @ ''-d'' @ fmt_d (diIndex disk)"

text \<open>In \<open>handlePrepareImages\<close> a disk whose image cannot be created is skipped.\<close>

definition createImagesSkipping :: "env \<Rightarrow> AHVMigration \<Rightarrow> PrismClient \<Rightarrow> VMStatus \<Rightarrow> VMInfo \<Rightarrow> string list cmd" where
  "createImagesSkipping E mig prism vmSt vmInfo =
     loop (DiskList vmInfo) [] (\<lambda>disk tempImages.
       if diUUID disk = [] then return tempImages
       else do { img \<leftarrow> CreateImageFromDisk E prism (diUUID disk) (imageName ''mig'' mig vmSt disk);
                 return (case img of Inl err \<Rightarrow> tempImages | Inr imgUUID \<Rightarrow> tempImages @ [imgUUID]) })"

text \<open>Whether all images of a machine are ready; the first one that is not ends the loop.\<close>

definition imagesReady :: "env \<Rightarrow> PrismClient \<Rightarrow> string list \<Rightarrow> bool cmd" where
  "imagesReady E prism imgs =
     after (foreach imgs () (\<lambda>img s.
       do { w \<leftarrow> WaitImageReady E prism img;
            return (case w of Some err \<Rightarrow> Ret False | None \<Rightarrow> Next ()) }))
     (\<lambda>s. return True)"

definition handlePrepareImages :: "env \<Rightarrow> AHVMigration \<Rightarrow> outcome cmd" where
  "handlePrepareImages E mig =
     do { client \<leftarrow> NewPrismClient E mig;
          case client of
            Inl err \<Rightarrow> prismClientError E mig err
          | Inr prism \<Rightarrow>
              after (foreach (enumerate 0 (StatusVMs (Status mig))) (StatusVMs (Status mig), True) (\<lambda>(i, vmSt) (vms, allReady).
                if AHVUUID vmSt = [] then return (Next (vms, allReady))
                else
                  do { power \<leftarrow> GetVMPowerState E prism (AHVUUID vmSt);
                       case power of
                         Inl err \<Rightarrow> return (Next (vms, False))
                       | Inr powerState \<Rightarrow>
                           if powerState = ''ON'' then
                             do { s \<leftarrow> ShutdownVM E prism (AHVUUID vmSt);
                                  return (if s = ShutdownPanic then Ret (Panic ''assignment to entry in nil map'')
                                          else Next (vms[i := vmSt\<lparr>stPhase := ''ShuttingDown''\<rparr>], False)) }
                           else
                             do { vmInfo \<leftarrow> GetVMByName E prism (stName vmSt);
                                  case vmInfo of
                                    Inl err \<Rightarrow> do { r \<leftarrow> failMigration E mig (''VM '' @ go_quote (stName vmSt) @ '': '' @ err);
                                                    return (Ret r) }
                                  | Inr info \<Rightarrow>
                                      if TempImageRefs vmSt = [] then
                                        do { imgs \<leftarrow> createImagesSkipping E mig prism vmSt info;
                                             return (Next (vms[i := vmSt\<lparr>TempImageRefs := imgs, stPhase := ''CreatingImages''\<rparr>], False)) }
                                      else
                                        do { ready \<leftarrow> imagesReady E prism (TempImageRefs vmSt);
                                             return (Next (if ready then (vms[i := vmSt\<lparr>stPhase := ''ImagesReady''\<rparr>], allReady)
                                                           else (vms, False))) } } }))
              (\<lambda>(newVMStatuses, allReady).
                 if allReady then
                   do { dvs \<leftarrow> createDataVolumesFromTempImages E mig prism newVMStatuses;
                        case dvs of
                          Inl err \<Rightarrow> return (Err err)
                        | Inr vms \<Rightarrow>
                            do { patch \<leftarrow> set_cond E ConditionImagesReady ConditionTrue ''Ready'' ''All disk images created in Prism''
                                   (setPhase PhaseImportingDisks (setVMs vms mig));
                                 patch \<leftarrow> set_cond E ConditionDisksImported ConditionFalse ''Importing''
                                   ''DataVolumes are being imported'' patch;
                                 commit E mig patch (RequeueAfter requeueInterval) } }
                 else commit E mig (setVMs newVMStatuses mig) (RequeueAfter requeueInterval)) }"

section \<open>Warm migration\<close>

text \<open>The loop that creates an image of every disk with a UUID and fails the migration on an error.\<close>

definition createImages ::
  "env \<Rightarrow> AHVMigration \<Rightarrow> PrismClient \<Rightarrow> string \<Rightarrow> string \<Rightarrow> VMStatus \<Rightarrow> VMInfo \<Rightarrow> (outcome + string list) cmd" where
  "createImages E mig prism namePrefix msgPrefix vmSt vmInfo =
     foreach (DiskList vmInfo) [] (\<lambda>disk tempImages.
       if diUUID disk = [] then return (Next tempImages)
       else do { img \<leftarrow> CreateImageFromDisk E prism (diUUID disk) (imageName namePrefix mig vmSt disk);
                 case img of
                   Inl err \<Rightarrow> do { r \<leftarrow> failMigration E mig (msgPrefix @ ''CreateImageFromDisk '' @ go_quote (stName vmSt) @
                                      '' disk'' @ fmt_d (diIndex disk) @ '': '' @ err);
                                   return (Ret r) }
                 | Inr imgUUID \<Rightarrow> return (Next (tempImages @ [imgUUID])) })"

text \<open>The base snapshot of a machine when change tracking is enabled.\<close>

definition baseSnapshot :: "env \<Rightarrow> AHVMigration \<Rightarrow> PrismClient \<Rightarrow> VMStatus \<Rightarrow> VMInfo \<Rightarrow> (outcome + VMStatus) cmd" where
  "baseSnapshot E mig prism vmSt vmInfo =
     (if cbtEnabled mig \<and> LastSnapshotUUID vmSt = [] then
        do { snap \<leftarrow> CreateVMSnapshot E prism (viUUID vmInfo) (''cbt-base-'' @ clip 20 (Name mig) @ ''-'' @ clip 10 (stName vmSt));
             case snap of
               Inl err \<Rightarrow> do { r \<leftarrow> failMigration E mig (''CBT base snapshot '' @ go_quote (stName vmSt) @ '': '' @ err);
                               return (Inl r) }
             | Inr snapUUID \<Rightarrow>
                 do { paths \<leftarrow> GetVMSnapshotPaths E prism snapUUID (viUUID vmInfo);
                      case paths of
                        Inl err \<Rightarrow> do { r \<leftarrow> failMigration E mig (''CBT base snapshot paths '' @ go_quote (stName vmSt) @ '': '' @ err);
                                        return (Inl r) }
                      | Inr ps \<Rightarrow> return (Inr (vmSt\<lparr>LastSnapshotUUID := snapUUID, SnapshotPaths := ps\<rparr>)) } }
      else return (Inr vmSt))"

definition handleWarmPreSync :: "env \<Rightarrow> AHVMigration \<Rightarrow> outcome cmd" where
  "handleWarmPreSync E mig =
     do { client \<leftarrow> NewPrismClient E mig;
          case client of
            Inl err \<Rightarrow> prismClientError E mig err
          | Inr prism \<Rightarrow>
              after (foreach (enumerate 0 (StatusVMs (Status mig))) (StatusVMs (Status mig)) (\<lambda>(i, vmSt) vms.
                if TempImageRefs vmSt \<noteq> [] then return (Next vms)
                else
                  do { vmInfo \<leftarrow> GetVMByName E prism (stName vmSt);
                       case vmInfo of
                         Inl err \<Rightarrow> do { r \<leftarrow> failMigration E mig (''VM '' @ go_quote (stName vmSt) @ '': '' @ err);
                                         return (Ret r) }
                       | Inr info \<Rightarrow>
                           after_inner (baseSnapshot E mig prism vmSt info) (\<lambda>st.
                             after_inner (createImages E mig prism ''warm'' [] vmSt info) (\<lambda>imgs.
                               return (Next (vms[i := st\<lparr>TempImageRefs := imgs, AHVUUID := viUUID info, stPhase := ''WarmPreSync''\<rparr>])))) }))
              (\<lambda>newVMStatuses.
                 do { dvs \<leftarrow> createDataVolumesFromTempImages E mig prism newVMStatuses;
                      case dvs of
                        Inl err \<Rightarrow> return (Err err)
                      | Inr vms \<Rightarrow>
                          do { patch \<leftarrow> set_cond E ConditionImagesReady ConditionTrue ''Created'' ''Disk images created from running VMs''
                                 (setPhase PhaseWarmSyncing (setVMs vms mig));
                               patch \<leftarrow> set_cond E ConditionDisksImported ConditionFalse ''WarmSyncing''
                                 ''CDI importing disks (VM still running)'' patch;
                               commit E mig patch (RequeueAfter requeueInterval) } }) }"

text \<open>
  The loop over the DataVolumes of one machine (in \<open>handleWarmSyncing\<close> and \<open>handleWaitImport\<close>): whether all
  of them succeeded, and the sum of their progress.
\<close>

definition checkDVs :: "env \<Rightarrow> AHVMigration \<Rightarrow> string list \<Rightarrow> (bool \<times> int) cmd" where
  "checkDVs E mig refs =
     loop refs (True, 0) (\<lambda>dvRef (allDVsDone, totalProgress).
       do { dv \<leftarrow> k8s_get E DataVolume (targetNS mig) dvRef;
            return (case dv of
              Inl err \<Rightarrow> (False, totalProgress)
            | Inr obj \<Rightarrow> if \<not> isDVSucceeded E obj then (False, wrap32 (totalProgress + dvProgress E obj))
                         else (allDVsDone, wrap32 (totalProgress + 100))) })"

definition importedVM :: "string \<Rightarrow> VMStatus \<Rightarrow> bool \<times> int \<Rightarrow> VMStatus" where
  "importedVM doneMark vmSt res =
     (let st = (if DataVolumeRefs vmSt \<noteq> []
                then vmSt\<lparr>Progress := go_div (snd res) (wrap32 (int (length (DataVolumeRefs vmSt))))\<rparr> else vmSt)
      in if fst res then st\<lparr>stPhase := doneMark\<rparr> else st)"

definition checkImports :: "env \<Rightarrow> AHVMigration \<Rightarrow> string \<Rightarrow> (VMStatus list \<times> bool) cmd" where
  "checkImports E mig doneMark =
     loop (enumerate 0 (StatusVMs (Status mig))) (StatusVMs (Status mig), True) (\<lambda>(i, vmSt) (vms, allReady).
       do { res \<leftarrow> checkDVs E mig (DataVolumeRefs vmSt);
            return (vms[i := importedVM doneMark vmSt res], allReady \<and> fst res) })"

definition handleWarmSyncing :: "env \<Rightarrow> AHVMigration \<Rightarrow> outcome cmd" where
  "handleWarmSyncing E mig =
     do { res \<leftarrow> checkImports E mig ''WarmSyncDone'';
          let patch = setVMs (fst res) mig
          in if snd res then
               if cbtEnabled mig then
                 do { patch \<leftarrow> set_cond E ConditionWarmSyncDone ConditionTrue ''Done''
                        ''Pre-copy sync complete, delta sync loop starting'' (setPhase PhaseWarmDeltaSync patch);
                      commit E mig patch (RequeueAfter requeueInterval) }
               else if PauseBeforeCutover (sourceOf mig) then
                 do { patch \<leftarrow> set_cond E ConditionWarmSyncDone ConditionTrue ''Done''
                        ''Pre-copy sync complete. Add annotation cutover-approved=true to proceed'' (setPhase PhaseReadyForCutover patch);
                      commit E mig patch (RequeueAfter requeueInterval) }
               else
                 do { patch \<leftarrow> set_cond E ConditionWarmSyncDone ConditionTrue ''Done''
                        ''Pre-copy sync complete, ready for cutover'' (setPhase PhaseWarmCutover patch);
                      commit E mig patch (RequeueAfter requeueInterval) }
             else commit E mig patch (RequeueAfter requeueInterval) }"

text \<open>The two stages of the final full copy of one machine.\<close>

definition finalSyncGone :: "env \<Rightarrow> AHVMigration \<Rightarrow> VMStatus \<Rightarrow> (outcome + bool) cmd" where
  "finalSyncGone E mig vmSt =
     foreach (DataVolumeRefs vmSt) True (\<lambda>dvRef gone.
       do { dv \<leftarrow> k8s_get E DataVolume (targetNS mig) dvRef;
            return (case dv of
              Inr obj \<Rightarrow> Next False
            | Inl err \<Rightarrow> if IsNotFound err then Next gone else Ret (Err (kerr_text err))) })"

definition finalSyncImage :: "env \<Rightarrow> AHVMigration \<Rightarrow> PrismClient \<Rightarrow> VMStatus \<Rightarrow> (VMStatus, outcome) ctl cmd" where
  "finalSyncImage E mig prism vmSt =
     do { vmInfo \<leftarrow> GetVMByName E prism (stName vmSt);
          case vmInfo of
            Inl err \<Rightarrow> do { r \<leftarrow> failMigration E mig (''FinalSync: VM '' @ go_quote (stName vmSt) @ '': '' @ err);
                            return (Ret r) }
          | Inr info \<Rightarrow>
              after_inner (createImages E mig prism ''final'' ''FinalSync: '' vmSt info) (\<lambda>newImages.
                after_inner (foreach (DataVolumeRefs vmSt) () (\<lambda>dvRef s.
                  do { d \<leftarrow> k8s_delete E DataVolume (targetNS mig) dvRef;
                       return (case d of
                         Some err \<Rightarrow> if IsNotFound err then Next ()
                                     else Ret (Err (''FinalSync: delete DataVolume '' @ dvRef @ '': '' @ kerr_text err))
                       | None \<Rightarrow> Next ()) }))
                (\<lambda>s. do { loop (TempImageRefs vmSt) () (\<lambda>img s. do { DeleteImage E prism img; return () });
                          return (Next (vmSt\<lparr>TempImageRefs := newImages, stPhase := ''FinalSyncImaged''\<rparr>)) })) }"

definition handleWarmFinalSync :: "env \<Rightarrow> AHVMigration \<Rightarrow> outcome cmd" where
  "handleWarmFinalSync E mig =
     do { client \<leftarrow> NewPrismClient E mig;
          case client of
            Inl err \<Rightarrow> prismClientError E mig err
          | Inr prism \<Rightarrow>
              after (foreach (enumerate 0 (StatusVMs (Status mig))) (StatusVMs (Status mig), True) (\<lambda>(i, vmSt) (vms, allStaged).
                if AHVUUID vmSt = [] then return (Next (vms, allStaged))
                else if stPhase vmSt = ''FinalSyncImaged'' then
                  after_inner (finalSyncGone E mig vmSt) (\<lambda>gone. return (Next (vms, allStaged \<and> gone)))
                else
                  do { c \<leftarrow> finalSyncImage E mig prism vmSt;
                       return (case c of Ret r \<Rightarrow> Ret r | Next st \<Rightarrow> Next (vms[i := st], False) | Break st \<Rightarrow> Next (vms[i := st], False)) }))
              (\<lambda>(newVMStatuses, allStaged).
                 if allStaged then
                   do { dvs \<leftarrow> createDataVolumesFromTempImages E mig prism newVMStatuses;
                        case dvs of
                          Inl err \<Rightarrow> return (Err err)
                        | Inr vms \<Rightarrow>
                            do { patch \<leftarrow> set_cond E ConditionDisksImported ConditionFalse ''FinalSyncing''
                                   ''Re-importing disks from post-shutdown images (final sync)''
                                   (setPhase PhaseImportingDisks (setVMs vms mig));
                                 commit E mig patch (RequeueAfter requeueInterval) } }
                 else commit E mig (setVMs newVMStatuses mig) (RequeueAfter requeueInterval)) }"

section \<open>Cutover\<close>

definition handleReadyForCutover :: "env \<Rightarrow> AHVMigration \<Rightarrow> outcome cmd" where
  "handleReadyForCutover E mig =
     (if Annotations mig AnnotationCutoverApproved = Some ''true''
      then commit E mig (setPhase PhaseWarmCutover mig) RequeueNow
      else return (Done (RequeueAfter requeueInterval)))"

definition handleWarmCutover :: "env \<Rightarrow> AHVMigration \<Rightarrow> outcome cmd" where
  "handleWarmCutover E mig =
     do { client \<leftarrow> NewPrismClient E mig;
          case client of
            Inl err \<Rightarrow> prismClientError E mig err
          | Inr prism \<Rightarrow>
              after (foreach (enumerate 0 (StatusVMs (Status mig))) (StatusVMs (Status mig), True) (\<lambda>(i, vmSt) (vms, allOff).
                if AHVUUID vmSt = [] then return (Next (vms, allOff))
                else
                  do { power \<leftarrow> GetVMPowerState E prism (AHVUUID vmSt);
                       case power of
                         Inl err \<Rightarrow> return (Next (vms, False))
                       | Inr powerState \<Rightarrow>
                           if powerState = ''ON'' then
                             do { s \<leftarrow> ShutdownVM E prism (AHVUUID vmSt);
                                  return (if s = ShutdownPanic then Ret (Panic ''assignment to entry in nil map'')
                                          else Next (vms[i := vmSt\<lparr>stPhase := ''ShuttingDown''\<rparr>], False)) }
                           else return (Next (vms, allOff)) }))
              (\<lambda>(newVMStatuses, allOff).
                 let patch = setVMs newVMStatuses mig
                 in if allOff then
                      if cbtEnabled mig then
                        do { patch \<leftarrow> set_cond E ConditionDisksImported ConditionFalse ''FinalDelta''
                               ''VMs shut down; syncing final delta regions'' (setPhase PhaseWarmFinalDelta patch);
                             commit E mig patch (RequeueAfter requeueInterval) }
                      else if warmFinalSyncEnabled mig then
                        do { patch \<leftarrow> set_cond E ConditionDisksImported ConditionFalse ''FinalSyncing''
                               ''VMs shut down; re-syncing disks to capture writes since pre-copy'' (setPhase PhaseWarmFinalSync patch);
                             commit E mig patch (RequeueAfter requeueInterval) }
                      else
                        do { patch \<leftarrow> set_cond E ConditionDisksImported ConditionTrue ''Imported''
                               ''Pre-copy complete, VMs shut down'' (setPhase PhaseCreatingVMs patch);
                             commit E mig patch (RequeueAfter requeueInterval) }
                    else commit E mig patch (RequeueAfter requeueInterval)) }"

definition handleWaitImport :: "env \<Rightarrow> AHVMigration \<Rightarrow> outcome cmd" where
  "handleWaitImport E mig =
     do { res \<leftarrow> checkImports E mig ''ReadyForVM'';
          let patch = setVMs (fst res) mig
          in if snd res then
               do { patch \<leftarrow> set_cond E ConditionDisksImported ConditionTrue ''Imported''
                      ''All DataVolumes imported successfully'' (setPhase PhaseCreatingVMs patch);
                    commit E mig patch (RequeueAfter requeueInterval) }
             else commit E mig patch (RequeueAfter requeueInterval) }"

section \<open>Virtual machines and test runs\<close>

definition completed :: "env \<Rightarrow> AHVMigration \<Rightarrow> AHVMigration cmd" where
  "completed E mig =
     do { now \<leftarrow> metav1_now E;
          return (mig\<lparr>Status := (Status mig)\<lparr>Phase := PhaseCompleted, CompletionTime := Some now,
                        CompletedVMs := wrap32 (int (length (VMs (Spec mig))))\<rparr>\<rparr>) }"

definition handleCreateVMs :: "env \<Rightarrow> AHVMigration \<Rightarrow> outcome cmd" where
  "handleCreateVMs E mig =
     do { client \<leftarrow> NewPrismClient E mig;
          case client of
            Inl err \<Rightarrow> prismClientError E mig err
          | Inr prism \<Rightarrow>
              after (foreach (enumerate 0 (VMs (Spec mig))) (StatusVMs (Status mig)) (\<lambda>(vmIdx, vmSpec) vms.
                if vmIdx \<ge> length vms then return (Next vms)
                else
                  do { vmInfo \<leftarrow> GetVMByName E prism (vmName vmSpec);
                       case vmInfo of
                         Inl err \<Rightarrow> return (Next (vms[vmIdx := (vms ! vmIdx)\<lparr>stError := ''Prism API error: '' @ err\<rparr>]))
                       | Inr info \<Rightarrow>
                           let vmObj = (if hasTestTarget mig then buildVirtualMachineWithNetwork E mig vmSpec (int vmIdx) info True
                                        else buildVirtualMachine mig vmSpec (int vmIdx) info)
                           in do { r \<leftarrow> ensureObj E VirtualMachine (targetNS mig) (objName E vmObj) vmObj ''VirtualMachine'';
                                   return (case r of
                                     Some err \<Rightarrow> Ret (Err err)
                                   | None \<Rightarrow> Next (vms[vmIdx := (vms ! vmIdx)\<lparr>VMRef := objName E vmObj,
                                               stPhase := ''VMCreated'', Progress := 100\<rparr>])) } }))
              (\<lambda>newVMStatuses.
                 do { patch \<leftarrow> set_cond E ConditionVMsCreated ConditionTrue ''Created'' ''All VirtualMachines created''
                        (setVMs newVMStatuses mig);
                      if hasTestTarget mig then
                        do { patch \<leftarrow> set_cond E ConditionTestApproved ConditionFalse ''Pending''
                               (''VMs running on test VLAN. Start VMs and verify, then add annotation: '' @ AnnotationTestApproved @ ''=true'')
                               (setPhase PhaseTestRunning patch);
                             commit E mig patch NoRequeue }
                      else
                        do { patch \<leftarrow> completed E patch;
                             patch \<leftarrow> set_cond E ConditionCompleted ConditionTrue ''Completed''
                               (''Migration completed: '' @ fmt_d (int (length (VMs (Spec mig)))) @ '' VMs created'') patch;
                             commit E mig patch NoRequeue } }) }"

definition handleTestRunning :: "env \<Rightarrow> AHVMigration \<Rightarrow> outcome cmd" where
  "handleTestRunning E mig =
     do { loop (StatusVMs (Status mig)) () (\<lambda>vmSt s.
            if VMRef vmSt = [] then return ()
            else do { vm \<leftarrow> k8s_get E VirtualMachine (targetNS mig) (VMRef vmSt);
                      case vm of
                        Inl err \<Rightarrow> return ()
                      | Inr obj \<Rightarrow>
                          if nestedBool E obj [''spec'', ''running''] then return ()
                          else (case setNested E obj [''spec'', ''running''] (JBool True) of
                                  None \<Rightarrow> return ()
                                | Some obj' \<Rightarrow> do { k8s_patch E VirtualMachine obj obj'; return () }) });
          if Annotations mig AnnotationTestApproved = Some ''true''
          then commit E mig (setPhase PhaseTestPending mig) RequeueNow
          else return (Done (RequeueAfter requeueInterval)) }"

definition handleTestPending :: "env \<Rightarrow> AHVMigration \<Rightarrow> outcome cmd" where
  "handleTestPending E mig =
     do { allStopped \<leftarrow> loop (StatusVMs (Status mig)) True (\<lambda>vmSt allStopped.
            if VMRef vmSt = [] then return allStopped
            else do { vm \<leftarrow> k8s_get E VirtualMachine (targetNS mig) (VMRef vmSt);
                      case vm of
                        Inl err \<Rightarrow> return allStopped
                      | Inr obj \<Rightarrow>
                          do { stopped \<leftarrow>
                                 (if nestedBool E obj [''spec'', ''running''] then
                                    (case setNested E obj [''spec'', ''running''] (JBool False) of
                                       None \<Rightarrow> return False
                                     | Some obj' \<Rightarrow> do { k8s_patch E VirtualMachine obj obj'; return False })
                                  else return allStopped);
                               vmi \<leftarrow> k8s_get E VirtualMachineInstance (targetNS mig) (VMRef vmSt);
                               return (case vmi of Inr _ \<Rightarrow> False | Inl err \<Rightarrow> stopped) } });
          if \<not> allStopped then return (Done (RequeueAfter 10))
          else commit E mig (setPhase PhaseSwitchingNetwork mig) RequeueNow }"

definition handleSwitchingNetwork :: "env \<Rightarrow> AHVMigration \<Rightarrow> outcome cmd" where
  "handleSwitchingNetwork E mig =
     do { client \<leftarrow> NewPrismClient E mig;
          case client of
            Inl err \<Rightarrow> prismClientError E mig err
          | Inr prism \<Rightarrow>
              after (foreach (enumerate 0 (VMs (Spec mig))) () (\<lambda>(vmIdx, vmSpec) s.
                if vmIdx \<ge> length (StatusVMs (Status mig)) then return (Next ())
                else
                  let vmSt = StatusVMs (Status mig) ! vmIdx
                  in if VMRef vmSt = [] then return (Next ())
                     else
                       do { vmInfo \<leftarrow> GetVMByName E prism (vmName vmSpec);
                            case vmInfo of
                              Inl err \<Rightarrow> do { r \<leftarrow> failMigration E mig (''VM '' @ go_quote (vmName vmSpec) @ '' Prism error: '' @ err);
                                              return (Ret r) }
                            | Inr info \<Rightarrow>
                                do { vm \<leftarrow> k8s_get E VirtualMachine (targetNS mig) (VMRef vmSt);
                                     case vm of
                                       Inl err \<Rightarrow> return (Ret (Err (kerr_text err)))
                                     | Inr obj \<Rightarrow>
                                         do { p \<leftarrow> k8s_patch E VirtualMachine obj
                                                (switchNetworks E obj (buildNetworkPatchToProd mig info vmSpec));
                                              return (case p of
                                                Some err \<Rightarrow> Ret (Err (''patch VM '' @ VMRef vmSt @ '' network: '' @ kerr_text err))
                                              | None \<Rightarrow> Next ()) } } }))
              (\<lambda>s.
                 do { patch \<leftarrow> completed E mig;
                      patch \<leftarrow> set_cond E ConditionTestApproved ConditionTrue ''Approved'' ''Test validation passed'' patch;
                      patch \<leftarrow> set_cond E ConditionCompleted ConditionTrue ''Completed''
                        (''Migration completed after test validation: '' @ fmt_d (int (length (VMs (Spec mig)))) @
                         '' VMs on production VLAN'') patch;
                      commit E mig patch NoRequeue }) }"

end
