(* ===== verification/GuestPrep.thy ===== *)
theory GuestPrep
  imports ControllerBase
begin

text \<open>
  Guest preparation, \<^verbatim>\<open>controllers/guest_prep.go\<close>: running scripts in the source machines over SSH or WinRM before the
  migration.  The SSH and WinRM libraries are operations of the environment.
\<close>

section \<open>SSH\<close>

definition defaultSSHTimeout :: int where "defaultSSHTimeout = 300"

definition defaultWinRMTimeout :: int where "defaultWinRMTimeout = 600"

definition timeoutOf :: "int \<Rightarrow> int \<Rightarrow> int" where
  "timeoutOf configured standard = (if configured > 0 then configured else standard)"

text \<open>The authentication of \<open>runSSHGuestPrep\<close>: the private key first, then the password.\<close>

definition sshAuth :: "env \<Rightarrow> (string \<times> string) list \<Rightarrow> (string + string) cmd" where
  "sshAuth E data =
     (if secret_data data ''privateKey'' \<noteq> [] then
        do { k \<leftarrow> ssh_parse_key E (secret_data data ''privateKey'');
             return (case k of Some err \<Rightarrow> Inl (''parse SSH private key: '' @ err) | None \<Rightarrow> Inr ''publickey'') }
      else if secret_data data ''password'' \<noteq> [] then return (Inr ''password'')
      else return (Inl (''SSH secret must contain 'privateKey' or 'password'' @ [CHR 0x27])))"

definition withPort :: "string \<Rightarrow> string \<Rightarrow> string" where
  "withPort host port = (if contains host '':'' then host else host @ '':'' @ port)"

definition runSSHGuestPrep :: "env \<Rightarrow> AHVMigration \<Rightarrow> GuestPrepSSHConfig \<Rightarrow> string option cmd" where
  "runSSHGuestPrep E mig cfg =
     do { secret \<leftarrow> k8s_get_secret E (Namespace mig) (SSHSecretRef cfg);
          case secret of
            Inl err \<Rightarrow> return (Some (''SSH secret '' @ go_quote (SSHSecretRef cfg) @ '' not found: '' @ kerr_text err))
          | Inr data \<Rightarrow>
              let host = trim_space (secret_data data ''host''); user = trim_space (secret_data data ''user'')
              in if host = [] \<or> user = [] then return (Some ''SSH secret must contain 'host' and 'user' keys'')
                 else
                   do { auth \<leftarrow> sshAuth E data;
                        case auth of
                          Inl err \<Rightarrow> return (Some err)
                        | Inr method \<Rightarrow>
                            do { d \<leftarrow> ssh_dial E (withPort host ''22'') user method (timeoutOf (sshTimeoutSeconds cfg) defaultSSHTimeout);
                                 case d of
                                   Some err \<Rightarrow> return (Some (''SSH dial '' @ withPort host ''22'' @ '': '' @ err))
                                 | None \<Rightarrow>
                                     do { sess \<leftarrow> ssh_session E;
                                          case sess of
                                            Some err \<Rightarrow> return (Some (''SSH new session: '' @ err))
                                          | None \<Rightarrow>
                                              do { out \<leftarrow> ssh_run E (sshPreMigrationScript cfg);
                                                   return (case out of
                                                     Inl (err, output) \<Rightarrow> Some (''script failed: '' @ err @ [newline] @ ''output: '' @ output)
                                                   | Inr output \<Rightarrow> None) } } } } }"

section \<open>WinRM\<close>

text \<open>\<^verbatim>\<open>strings.ReplaceAll\<close> with a non-empty pattern.\<close>

function replace_all :: "string \<Rightarrow> string \<Rightarrow> string \<Rightarrow> string" where
  "replace_all [] old new = []"
| "replace_all (c # s) old new =
     (if old \<noteq> [] \<and> has_prefix (c # s) old then new @ replace_all (drop (length old) (c # s)) old new
      else c # replace_all s old new)"
  by pat_completeness auto
termination
  by (relation "measure (\<lambda>(s, old, new). length s)") (auto simp: neq_Nil_conv)

text \<open>The built-in script, and the script that is run: the configured one or the built-in one with the path filled in.\<close>

definition backslash :: char where "backslash = CHR 0x5C"

definition defaultVirtIOWinScript :: string where
  \<open>defaultVirtIOWinScript = concat (map (\<lambda>l. l @ [newline])
    [[],
     ''$ErrorActionPreference = "Stop"'',
     ''$isoPath = "{{ISO_PATH}}"'',
     [],
     ''if (-not (Test-Path $isoPath)) {'',
     ''    Write-Error "virtio-win ISO not found: $isoPath"'',
     ''    exit 1'',
     ''}'',
     [],
     ''Write-Host "Mounting virtio-win ISO: $isoPath"'',
     ''$disk = Mount-DiskImage -ImagePath $isoPath -PassThru'',
     ''$driveLetter = ($disk | Get-Volume).DriveLetter'',
     ''Write-Host "Mounted at ${driveLetter}:"'',
     [],
     ''Write-Host "Installing virtio drivers (add-only, no removal)..."'',
     ''$infFiles = Get-ChildItem "${driveLetter}:'' @ [backslash] @ ''amd64'' @ [backslash] @ ''w11'' @ [backslash] @ ''*.inf" -ErrorAction SilentlyContinue'',
     ''if (-not $infFiles) {'',
     ''    $infFiles = Get-ChildItem "${driveLetter}:'' @ [backslash] @ ''amd64'' @ [backslash] @ ''2k22'' @ [backslash] @ ''*.inf" -ErrorAction SilentlyContinue'',
     ''}'',
     ''if (-not $infFiles) {'',
     ''    Write-Error "No .inf files found for w11 or 2k22 in ${driveLetter}:'' @ [backslash] @ ''amd64'' @ [backslash] @ ''"'',
     ''    exit 1'',
     ''}'',
     [],
     ''foreach ($inf in $infFiles) {'',
     ''    Write-Host "Adding driver: $($inf.FullName)"'',
     ''    pnputil /add-driver $inf.FullName /install 2>&1 | Out-Null'',
     ''}'',
     [],
     ''Write-Host "Dismounting ISO..."'',
     ''Dismount-DiskImage -ImagePath $isoPath | Out-Null'',
     [],
     ''Write-Host "virtio-win driver installation complete."''])\<close>

definition winrmScript :: "GuestPrepWinRMConfig \<Rightarrow> string" where
  "winrmScript cfg =
     (if winrmPreMigrationScript cfg \<noteq> [] then winrmPreMigrationScript cfg
      else replace_all defaultVirtIOWinScript ''{{ISO_PATH}}''
             (if VirtIOWinISOPath cfg = [] then ''C:'' @ [backslash] @ ''virtio-win.iso'' else VirtIOWinISOPath cfg))"

text \<open>
  The connection and the script share the deadline \<open>timeout\<close> of the context.  Every reason for which \<^verbatim>\<open>Sscanf\<close> cannot
  read the port is given the same text.
\<close>

definition executeWinRM :: "env \<Rightarrow> int \<Rightarrow> string \<Rightarrow> string \<Rightarrow> string \<Rightarrow> string \<Rightarrow> string \<Rightarrow> string \<Rightarrow> string option cmd" where
  "executeWinRM E timeout scheme host user pass script vm =
     (let useHTTPS = (scheme = ''https''); port = (if useHTTPS then 5986 else 5985);
          hp = cut (CHR '':'') host;
          parsedPort = (if contains host '':'' then map_option fst (scan_d (fst (snd hp))) else Some port)
      in case parsedPort of
           None \<Rightarrow> return (Some (''invalid port in WinRM host '' @ go_quote host @ '': expected integer''))
         | Some prt \<Rightarrow>
             do { c \<leftarrow> winrm_client E (fst hp) prt useHTTPS user pass timeout;
                  case c of
                    Some err \<Rightarrow> return (Some (''WinRM client init for '' @ vm @ '': '' @ err))
                  | None \<Rightarrow>
                      do { r \<leftarrow> winrm_run E script;
                           return (case r of
                             Inl (err, out, errout) \<Rightarrow>
                               Some (''WinRM execute on '' @ vm @ '': '' @ err @ [newline] @ ''stdout: '' @ out @ [newline] @ ''stderr: '' @ errout)
                           | Inr (out, errout, exitCode) \<Rightarrow>
                               if exitCode \<noteq> 0 then
                                 Some (''PowerShell on '' @ vm @ '' exited with code '' @ fmt_d exitCode @ [newline] @ ''stdout: '' @ out @
                                       [newline] @ ''stderr: '' @ errout)
                               else None) } })"

definition runWinRMGuestPrep :: "env \<Rightarrow> AHVMigration \<Rightarrow> VMSpec \<Rightarrow> GuestPrepWinRMConfig \<Rightarrow> string option cmd" where
  "runWinRMGuestPrep E mig vmSpec cfg =
     do { secret \<leftarrow> k8s_get_secret E (Namespace mig) (WinRMSecretRef cfg);
          case secret of
            Inl err \<Rightarrow> return (Some (''WinRM secret '' @ go_quote (WinRMSecretRef cfg) @ '' not found: '' @ kerr_text err))
          | Inr data \<Rightarrow>
              let host = trim_space (secret_data data ''host''); user = trim_space (secret_data data ''username'');
                  pass = trim_space (secret_data data ''password'')
              in if host = [] \<or> user = [] \<or> pass = [] then
                   return (Some (''WinRM secret must contain 'host', 'username', 'password'' @ [CHR 0x27]))
                 else executeWinRM E (timeoutOf (winrmTimeoutSeconds cfg) defaultWinRMTimeout) (if UseHTTPS cfg then ''https'' else ''http'')
                        (withPort host (if UseHTTPS cfg then ''5986'' else ''5985'')) user pass (winrmScript cfg) (vmName vmSpec) }"

section \<open>The handler\<close>

definition nextPhaseAfterGuestPrep :: "AHVMigration \<Rightarrow> AHVMigrationPhase" where
  "nextPhaseAfterGuestPrep mig =
     (if WarmMigration (sourceOf mig) then PhaseWarmPreSync
      else if ShutdownBeforeMigration (sourceOf mig) then PhasePreparingImages
      else PhaseImportingDisks)"

text \<open>One guest preparation by its mode; \<open>None\<close> is success.\<close>

definition runGuestPrep :: "env \<Rightarrow> AHVMigration \<Rightarrow> VMSpec \<Rightarrow> string option cmd" where
  "runGuestPrep E mig vmSpec =
     (if GuestPrepMode vmSpec = ''winrm'' then runWinRMGuestPrep E mig vmSpec (the (WinRMConfig vmSpec))
      else runSSHGuestPrep E mig (the (GuestPrepConfig vmSpec)))"

definition preppedVM :: "VMStatus \<Rightarrow> string option \<Rightarrow> VMStatus" where
  "preppedVM vmSt err = (case err of
     Some e \<Rightarrow> vmSt\<lparr>stPhase := ''GuestPrepFailed'', stError := e\<rparr>
   | None \<Rightarrow> vmSt\<lparr>stPhase := ''GuestPrepped'', stError := []\<rparr>)"

text \<open>
  The second loop of the handler: the first failed machine fails the migration, after its status has been
  written; otherwise the prepared machines are counted.
\<close>

definition handleGuestPrepping :: "env \<Rightarrow> AHVMigration \<Rightarrow> outcome cmd" where
  "handleGuestPrepping E mig =
     after (foreach (enumerate 0 (VMs (Spec mig))) (StatusVMs (Status mig)) (\<lambda>(i, vmSpec) vms.
       if i \<ge> length vms then return (Ret (Panic ''index out of range''))
       else if \<not> needsGuestPrepVM vmSpec then
         return (Next (if stPhase (vms ! i) \<in> {''GuestPrepping'', ''Pending''}
                       then vms[i := (vms ! i)\<lparr>stPhase := ''GuestPrepped''\<rparr>] else vms))
       else if stPhase (vms ! i) = ''GuestPrepped'' then return (Next vms)
       else if stPhase (vms ! i) = ''GuestPrepFailed'' then
         do { r \<leftarrow> failMigration E mig (''VM '' @ go_quote (vmName vmSpec) @ '': guest prep failed''); return (Ret r) }
       else do { err \<leftarrow> runGuestPrep E mig vmSpec;
                 return (Next (vms[i := preppedVM (vms ! i) err])) }))
     (\<lambda>newVMStatuses.
        case List.find (\<lambda>st. stPhase st = ''GuestPrepFailed'') newVMStatuses of
          Some st \<Rightarrow>
            do { k8s_patch_status E mig (setVMs newVMStatuses mig);
                 failMigration E mig (''VM '' @ go_quote (stName st) @ '': guest prep failed: '' @ stError st) }
        | None \<Rightarrow>
            let completedCount = length (filter (\<lambda>st. stPhase st = ''GuestPrepped'') newVMStatuses);
                patch = setVMs newVMStatuses mig;
                res = (if completedCount < length (VMs (Spec mig)) then RequeueAfter 10 else RequeueNow)
            in if completedCount = length (VMs (Spec mig)) then
                 do { patch \<leftarrow> set_cond E ''GuestPrepComplete'' ConditionTrue ''Complete'' ''All VMs guest-prepped successfully''
                        (setPhase (nextPhaseAfterGuestPrep mig) patch);
                      commit E mig patch res }
               else commit E mig patch res)"

end
