(* ===== verification/CbtSync.thy ===== *)
theory CbtSync
  imports ControllerBase
begin

text \<open>
  Changed-block tracking, \<^verbatim>\<open>controllers/cbt_sync.go\<close>: names and objects of the delta-sync Jobs, and the round of the
  differential synchronisation, \<open>runDeltaRound\<close>.  The options of the specification are in \<open>ApiTypes\<close>, the
  arithmetic of regions is in \<open>Regions\<close>.
\<close>

section \<open>The NFS server\<close>

text \<open>
  \<^verbatim>\<open>url.Parse\<close> followed by \<^verbatim>\<open>Hostname\<close>, for texts without percent escapes in the authority: the host of the
  URL, empty when it has none, or \<open>None\<close> for a parse error.
\<close>

definition is_alpha :: "char \<Rightarrow> bool" where
  "is_alpha c \<longleftrightarrow> (let n = of_char c :: nat in (65 \<le> n \<and> n \<le> 90) \<or> (97 \<le> n \<and> n \<le> 122))"

fun url_scheme_loop :: "string \<Rightarrow> string \<Rightarrow> string \<Rightarrow> (string \<times> string) option" where
  "url_scheme_loop raw acc [] = Some ([], raw)"
| "url_scheme_loop raw acc (c # s) =
     (if is_alpha c then url_scheme_loop raw (acc @ [c]) s
      else if is_digit c \<or> c \<in> set ''+-.'' then
        (if acc = [] then Some ([], raw) else url_scheme_loop raw (acc @ [c]) s)
      else if c = CHR '':'' then (if acc = [] then None else Some (acc, s))
      else Some ([], raw))"

definition url_scheme :: "string \<Rightarrow> (string \<times> string) option" where
  "url_scheme raw = url_scheme_loop raw [] raw"

definition before :: "char \<Rightarrow> string \<Rightarrow> string" where
  "before c s = takeWhile (\<lambda>x. x \<noteq> c) s"

text \<open>The text behind the last occurrence of a character, and the text before it.\<close>

definition after_last :: "char \<Rightarrow> string \<Rightarrow> string" where
  "after_last c s = rev (takeWhile (\<lambda>x. x \<noteq> c) (rev s))"

definition upto_last :: "char \<Rightarrow> string \<Rightarrow> string" where
  "upto_last c s = take (length s - length (after_last c s) - 1) s"

definition host_char :: "char \<Rightarrow> bool" where
  "host_char c \<longleftrightarrow> is_alpha c \<or> is_digit c \<or> c \<in> set ''-_.~!$&()*+,;=:[]<>'' \<or> c \<in> {CHR 0x22, CHR 0x27} \<or> (of_char c :: nat) \<ge> 128"

definition valid_escapes :: "string \<Rightarrow> bool" where
  "valid_escapes s \<longleftrightarrow> list_all (\<lambda>i. s ! i \<noteq> CHR ''%'' \<or> (i + 2 < length s \<and>
     list_all (\<lambda>c. is_digit c \<or> c \<in> set ''abcdefABCDEF'') [s ! (i + 1), s ! (i + 2)])) [0..<length s]"

definition url_host :: "string \<Rightarrow> string option" where
  "url_host host =
     (if \<not> list_all host_char host then None
      else if has_prefix host ''['' then
        (if CHR '']'' \<notin> set host then None
         else let port = after_last (CHR '']'') host
              in if port = [] \<or> (hd port = CHR '':'' \<and> list_all is_digit (tl port))
                 then Some (tl (upto_last (CHR '']'') host)) else None)
      else if CHR '':'' \<in> set host then
        (if list_all is_digit (after_last (CHR '':'') host) then Some (upto_last (CHR '':'') host) else None)
      else Some host)"

definition url_hostname :: "string \<Rightarrow> string option" where
  "url_hostname raw =
     (let u = before (CHR ''#'') raw
      in if list_ex (\<lambda>c. (of_char c :: nat) < 32 \<or> (of_char c :: nat) = 127) u \<or> \<not> valid_escapes (drop (length u) raw) then None
         else (case url_scheme u of None \<Rightarrow> None
           | Some (scheme, rest0) \<Rightarrow>
               let rest = before (CHR ''?'') rest0
               in if \<not> has_prefix rest ''/'' then
                    (if scheme \<noteq> [] then Some [] else if CHR '':'' \<in> set (before (CHR ''/'') rest) then None
                     else if valid_escapes rest then Some [] else None)
                  else if has_prefix rest ''//'' \<and> (scheme \<noteq> [] \<or> \<not> has_prefix rest ''///'') then
                    let authority = before (CHR ''/'') (drop 2 rest)
                    in if valid_escapes (drop (2 + length authority) rest)
                       then url_host (after_last (CHR ''@'') authority) else None
                  else if valid_escapes rest then Some [] else None))"

definition nfsServerHost :: "AHVMigration \<Rightarrow> string" where
  "nfsServerHost mig =
     (let configured = (case CBT (sourceOf mig) of Some c \<Rightarrow> NFSServer c | None \<Rightarrow> [])
      in if configured \<noteq> [] then configured
         else
           let ep = (if PEEndpoint (sourceOf mig) = [] then Endpoint (sourceOf mig) else PEEndpoint (sourceOf mig))
           in case url_hostname ep of
                Some (c # h) \<Rightarrow> c # h
              | _ \<Rightarrow> before (CHR '':'') (before (CHR ''/'') (trim_prefix (trim_prefix ep ''https://'') ''http://'')))"

section \<open>Objects of a round\<close>

definition splitSnapshotPath :: "string \<Rightarrow> string \<times> string" where
  "splitSnapshotPath path =
     (let p = trim_prefix path ''/''
      in case index_byte p (CHR ''/'') of None \<Rightarrow> (p, []) | Some i \<Rightarrow> (take i p, drop (i + 1) p))"

definition operatorImage :: "env \<Rightarrow> string" where
  "operatorImage E = (let img = ansGetenv E ''OPERATOR_IMAGE''
     in if img \<noteq> [] then img else ''ghcr.io/lightwell-tech/ahv-to-ove-operator:v0.1.0'')"

definition deltaSyncName :: "string \<Rightarrow> int \<Rightarrow> int \<Rightarrow> int \<Rightarrow> string" where
  "deltaSyncName migName vmIdx diskIdx rnd =
     (let prefix = (if length migName > 30 then take 30 migName else migName)
      in ''delta-'' @ prefix @ ''-'' @ fmt_d vmIdx @ ''-'' @ fmt_d diskIdx @ ''-r'' @ fmt_d rnd)"

definition deltaSyncServiceAccount :: string where "deltaSyncServiceAccount = ''ahv-delta-sync''"

definition buildDeltaSyncConfigMap :: "AHVMigration \<Rightarrow> int \<Rightarrow> int \<Rightarrow> int \<Rightarrow> ChangedRegion list \<Rightarrow> ConfigMap" where
  "buildDeltaSyncConfigMap mig vmIdx diskIdx rnd regions =
     \<lparr>cmName = deltaSyncName (Name mig) vmIdx diskIdx rnd, cmNamespace = targetNS mig,
      cmLabels = ownerLabelsTyped mig, cmData = [(''regions'', renderRegions regions)]\<rparr>"

definition buildDeltaSyncJob :: "env \<Rightarrow> AHVMigration \<Rightarrow> int \<Rightarrow> int \<Rightarrow> int \<Rightarrow> string \<Rightarrow> string \<Rightarrow> string \<Rightarrow> Job" where
  "buildDeltaSyncJob E mig vmIdx diskIdx rnd snapPath nfsServer pvcName =
     (let name = deltaSyncName (Name mig) vmIdx diskIdx rnd;
          block = (snd (snd (resolveStorage mig [])) = ''Block'');
          containerName = fst (splitSnapshotPath snapPath);
          rel = snd (splitSnapshotPath snapPath);
          mounts = [\<lparr>mountName = ''regions'', mountPath = ''/config'', mountReadOnly = True\<rparr>,
                    \<lparr>mountName = ''src'', mountPath = ''/src'', mountReadOnly = True\<rparr>];
          container = \<lparr>ctrName = ''delta-sync'', ctrImage = operatorImage E,
             ctrArgs = [''delta-sync'', ''--source-file=/src/'' @ rel, ''--regions=/config/regions''] @
               (if block then [''--target=/dev/delta-target'', ''--block''] else [''--target=/target/disk.img'']),
             ctrVolumeMounts = mounts @
               (if block then [] else [\<lparr>mountName = ''target'', mountPath = ''/target'', mountReadOnly = False\<rparr>]),
             ctrVolumeDevices = (if block then [\<lparr>devName = ''target'', devicePath = ''/dev/delta-target''\<rparr>] else []),
             ctrRunAsUser = 107, ctrRunAsGroup = 107, ctrAllowPrivilegeEscalation = False, ctrDropCapabilities = [''ALL'']\<rparr>
      in \<lparr>jobName = name, jobNamespace = targetNS mig, jobLabels = ownerLabelsTyped mig,
          jobBackoffLimit = 3, jobTTLSecondsAfterFinished = 3600, jobTemplateLabels = ownerLabelsTyped mig,
          jobRestartPolicy = ''Never'', jobServiceAccountName = deltaSyncServiceAccount,
          jobContainers = [container],
          jobVolumes = [(''regions'', ConfigMapVolume name),
                        (''src'', NFSVolume nfsServer (''/'' @ containerName) True),
                        (''target'', PVCVolume pvcName)]\<rparr>)"

text \<open>\<open>jobFinished\<close>: (done, succeeded) by the first true condition Complete or Failed.\<close>

fun jobFinished :: "JobStatus \<Rightarrow> bool \<times> bool" where
  "jobFinished [] = (False, False)"
| "jobFinished ((ty, st) # cs) =
     (if ty = ''Complete'' \<and> st = ConditionTrue then (True, True)
      else if ty = ''Failed'' \<and> st = ConditionTrue then (True, False)
      else jobFinished cs)"

section \<open>One round\<close>

text \<open>The regions changed on every disk between the base and the new snapshot, and their total size.\<close>

definition deltaRegions :: "env \<Rightarrow> AHVMigration \<Rightarrow> PrismClient \<Rightarrow> VMStatus \<Rightarrow> string list \<Rightarrow> (outcome + ChangedRegion list list \<times> int) cmd" where
  "deltaRegions E mig prism vmSt paths =
     foreach [0..<length paths] ([], 0) (\<lambda>d (diskRegions, totalBytes).
       do { c \<leftarrow> ChangedRegions E prism (paths ! d) (SnapshotPaths vmSt ! d);
            case c of
              Inl err \<Rightarrow> do { r \<leftarrow> failMigration E mig (''CBT changed_regions '' @ go_quote (stName vmSt) @ '' disk'' @ fmt_d (int d) @ '': '' @ err);
                              return (Ret r) }
            | Inr (regions, fileSize) \<Rightarrow>
                return (Next (diskRegions @ [regions], wrap64 (totalBytes + totalRegionBytes regions))) })"

text \<open>The result of a creation that may find the object already there.\<close>

definition created :: "kerr option \<Rightarrow> bool" where
  "created r = (case r of None \<Rightarrow> True | Some err \<Rightarrow> IsAlreadyExists err)"

text \<open>A ConfigMap and a Job for every disk with something to copy.\<close>

definition startJobs :: "env \<Rightarrow> AHVMigration \<Rightarrow> nat \<Rightarrow> int \<Rightarrow> VMStatus \<Rightarrow> string list \<Rightarrow> ChangedRegion list list \<Rightarrow> (outcome + string list) cmd" where
  "startJobs E mig i rnd vmSt paths diskRegions =
     foreach [0..<length paths] [] (\<lambda>d jobRefs.
       let merged = prepareRegions (diskRegions ! d)
       in if merged = [] then return (Next jobRefs)
          else if d \<ge> length (DataVolumeRefs vmSt) then
            do { r \<leftarrow> failMigration E mig (''CBT: no DataVolume for disk '' @ fmt_d (int d) @ '' of '' @ go_quote (stName vmSt));
                 return (Ret r) }
          else
            do { c \<leftarrow> k8s_create_configmap E (buildDeltaSyncConfigMap mig (int i) (int d) rnd merged);
                 if created c then
                   do { let job = buildDeltaSyncJob E mig (int i) (int d) rnd (paths ! d) (nfsServerHost mig) (DataVolumeRefs vmSt ! d);
                        j \<leftarrow> k8s_create_job E job;
                        return (if created j then Next (jobRefs @ [jobName job])
                                else Ret (Err (''create delta Job: '' @ kerr_text (the j)))) }
                 else return (Ret (Err (''create delta ConfigMap: '' @ kerr_text (the c)))) })"

definition doneMark :: "bool \<Rightarrow> string" where
  "doneMark final = (if final then ''FinalDeltaDone'' else ''DeltaConverged'')"

definition snapPrefix :: "bool \<Rightarrow> string" where
  "snapPrefix final = (if final then ''cbt-final'' else ''cbt-delta'')"

text \<open>
  The start of a round for one machine: snapshot, changed regions, convergence test, Jobs.  The loop body ends
  with the new status and whether the machine counts as done.
\<close>

definition startRound :: "env \<Rightarrow> AHVMigration \<Rightarrow> PrismClient \<Rightarrow> bool \<Rightarrow> nat \<Rightarrow> VMStatus \<Rightarrow> (VMStatus \<times> bool, outcome) ctl cmd" where
  "startRound E mig prism final i vmSt =
     (let rnd = wrap32 (DeltaRounds vmSt + 1)
      in do { snap \<leftarrow> CreateVMSnapshot E prism (AHVUUID vmSt) (snapPrefix final @ ''-'' @ clip 10 (stName vmSt) @ ''-r'' @ fmt_d rnd);
              case snap of
                Inl err \<Rightarrow> do { r \<leftarrow> failMigration E mig (''CBT snapshot '' @ go_quote (stName vmSt) @ '': '' @ err); return (Ret r) }
              | Inr snapUUID \<Rightarrow>
                  do { ps \<leftarrow> GetVMSnapshotPaths E prism snapUUID (AHVUUID vmSt);
                       case ps of
                         Inl err \<Rightarrow> do { r \<leftarrow> failMigration E mig (''CBT snapshot paths '' @ go_quote (stName vmSt) @ '': '' @ err); return (Ret r) }
                       | Inr paths \<Rightarrow>
                           if length paths \<noteq> length (SnapshotPaths vmSt) then
                             do { r \<leftarrow> failMigration E mig (''CBT: disk count changed for '' @ go_quote (stName vmSt) @ '' ('' @
                                        fmt_d (int (length (SnapshotPaths vmSt))) @ '' -> '' @ fmt_d (int (length paths)) @ '')'');
                                  return (Ret r) }
                           else
                             after_inner (deltaRegions E mig prism vmSt paths) (\<lambda>(diskRegions, totalBytes).
                               let st = vmSt\<lparr>LastDeltaBytes := totalBytes\<rparr>
                               in if \<not> final \<and> (totalBytes \<le> deltaSyncThresholdBytes mig \<or> DeltaRounds st \<ge> maxDeltaRounds mig) then
                                    do { DeleteVMSnapshot E prism (LastSnapshotUUID st);
                                         return (Next (st\<lparr>LastSnapshotUUID := snapUUID, SnapshotPaths := paths, stPhase := doneMark final\<rparr>, True)) }
                                  else if final \<and> totalBytes = 0 then
                                    return (Next (st\<lparr>PendingSnapshotUUID := snapUUID, PendingSnapshotPaths := paths, stPhase := doneMark final\<rparr>, True))
                                  else
                                    after_inner (startJobs E mig i rnd st paths diskRegions) (\<lambda>jobRefs.
                                      return (Next (st\<lparr>PendingSnapshotUUID := snapUUID, PendingSnapshotPaths := paths,
                                                       SyncJobRefs := jobRefs, stPhase := ''DeltaSyncing''\<rparr>, False)))) } })"

text \<open>Waiting for the Jobs: a Job that does not exist any more counts as finished.\<close>

definition jobsDone :: "env \<Rightarrow> AHVMigration \<Rightarrow> VMStatus \<Rightarrow> (outcome + bool) cmd" where
  "jobsDone E mig vmSt =
     foreach (SyncJobRefs vmSt) True (\<lambda>name done.
       do { job \<leftarrow> k8s_get_job E (targetNS mig) name;
            case job of
              Inl err \<Rightarrow> return (if IsNotFound err then Next done else Ret (Err (kerr_text err)))
            | Inr status \<Rightarrow>
                (case jobFinished status of
                   (finished, ok) \<Rightarrow>
                     if \<not> finished then return (Next False)
                     else if \<not> ok then do { r \<leftarrow> failMigration E mig (''CBT: delta sync job '' @ name @ '' failed''); return (Ret r) }
                     else return (Next done)) })"

text \<open>The end of a round: clean up and make the pending snapshot the new base.\<close>

definition promoteVM :: "bool \<Rightarrow> VMStatus \<Rightarrow> VMStatus" where
  "promoteVM final vmSt =
     vmSt\<lparr>LastSnapshotUUID := PendingSnapshotUUID vmSt, SnapshotPaths := PendingSnapshotPaths vmSt,
          PendingSnapshotUUID := [], PendingSnapshotPaths := [], SyncJobRefs := [], DeltaImageRefs := [],
          DeltaRounds := wrap32 (DeltaRounds vmSt + 1),
          stPhase := (if final then doneMark final else ''DeltaIdle'')\<rparr>"

definition finishRound :: "env \<Rightarrow> AHVMigration \<Rightarrow> PrismClient \<Rightarrow> bool \<Rightarrow> VMStatus \<Rightarrow> (VMStatus \<times> bool, outcome) ctl cmd" where
  "finishRound E mig prism final vmSt =
     after_inner (jobsDone E mig vmSt) (\<lambda>done.
       if \<not> done then return (Next (vmSt, False))
       else
         do { loop (SyncJobRefs vmSt) () (\<lambda>name s.
                do { k8s_delete_job E (targetNS mig) name; k8s_delete_configmap E (targetNS mig) name; return () });
              DeleteVMSnapshot E prism (LastSnapshotUUID vmSt);
              return (Next (promoteVM final vmSt, final)) })"

definition advanceVM :: "env \<Rightarrow> AHVMigration \<Rightarrow> PrismClient \<Rightarrow> bool \<Rightarrow> nat \<Rightarrow> VMStatus \<Rightarrow> (VMStatus \<times> bool, outcome) ctl cmd" where
  "advanceVM E mig prism final i vmSt =
     (if AHVUUID vmSt = [] \<or> stPhase vmSt = doneMark final then return (Next (vmSt, True))
      else if SnapshotPaths vmSt = [] then
        do { r \<leftarrow> failMigration E mig (''CBT: VM '' @ go_quote (stName vmSt) @ '' has no base snapshot paths''); return (Ret r) }
      else if PendingSnapshotUUID vmSt = [] then startRound E mig prism final i vmSt
      else finishRound E mig prism final vmSt)"

text \<open>The clean-up after the final round: the remaining snapshots and the images of the first copy.\<close>

definition cleanupVM :: "env \<Rightarrow> PrismClient \<Rightarrow> VMStatus \<Rightarrow> unit cmd" where
  "cleanupVM E prism vmSt =
     do { loop [LastSnapshotUUID vmSt, PendingSnapshotUUID vmSt] () (\<lambda>snap s.
            if snap = [] then return () else do { DeleteVMSnapshot E prism snap; return () });
          loop (TempImageRefs vmSt) () (\<lambda>img s. do { DeleteImage E prism img; return () }) }"

definition runDeltaRound :: "env \<Rightarrow> AHVMigration \<Rightarrow> bool \<Rightarrow> outcome cmd" where
  "runDeltaRound E mig final =
     do { client \<leftarrow> NewPrismClient E mig;
          case client of
            Inl err \<Rightarrow> failMigration E mig (''Prism client error: '' @ err)
          | Inr prism \<Rightarrow>
              after (foreach (enumerate 0 (StatusVMs (Status mig))) (StatusVMs (Status mig), True) (\<lambda>(i, vmSt) (vms, allDone).
                do { c \<leftarrow> advanceVM E mig prism final i vmSt;
                     return (case c of
                       Next (st, done) \<Rightarrow> Next (vms[i := st], allDone \<and> done)
                     | Break (st, done) \<Rightarrow> Next (vms[i := st], allDone \<and> done)
                     | Ret r \<Rightarrow> Ret r) }))
              (\<lambda>(vms, allDone).
                 let patch = setVMs vms mig
                 in if \<not> allDone then commit E mig patch (RequeueAfter requeueInterval)
                    else if final then
                      do { loop vms () (\<lambda>vmSt s. cleanupVM E prism vmSt);
                           patch \<leftarrow> set_cond E ConditionDisksImported ConditionTrue ''Imported''
                             ''CBT final delta synced, disks consistent with shutdown state'' (setPhase PhaseCreatingVMs patch);
                           commit E mig patch (RequeueAfter requeueInterval) }
                    else if PauseBeforeCutover (sourceOf mig) then
                      do { patch \<leftarrow> set_cond E ConditionWarmSyncDone ConditionTrue ''Converged''
                             ''Delta sync converged. Add annotation cutover-approved=true to proceed'' (setPhase PhaseReadyForCutover patch);
                           commit E mig patch (RequeueAfter requeueInterval) }
                    else
                      do { patch \<leftarrow> set_cond E ConditionWarmSyncDone ConditionTrue ''Converged''
                             ''Delta sync converged, cutting over'' (setPhase PhaseWarmCutover patch);
                           commit E mig patch (RequeueAfter requeueInterval) }) }"

definition handleWarmDeltaSync :: "env \<Rightarrow> AHVMigration \<Rightarrow> outcome cmd" where
  "handleWarmDeltaSync E mig = runDeltaRound E mig False"

definition handleWarmFinalDelta :: "env \<Rightarrow> AHVMigration \<Rightarrow> outcome cmd" where
  "handleWarmFinalDelta E mig = runDeltaRound E mig True"

end
