(* ===== verification/Reconciler.thy ===== *)
theory Reconciler
  imports Controller GuestPrep CbtSync
begin

text \<open>
  The dispatch of \<^verbatim>\<open>Reconcile\<close>, the phases a handler may lead to, and what a handler may do to the world.  Every
  handler is an instance of one contract; the controller as a whole refines the phase machine
  \<open>nextPhases\<close>.
\<close>

section \<open>Reconcile\<close>

definition dispatch :: "env \<Rightarrow> AHVMigration \<Rightarrow> outcome cmd" where
  "dispatch E mig =
     (case phaseOf mig of
        PhaseEmpty \<Rightarrow> handleInit E mig
      | PhasePending \<Rightarrow> handlePending E mig
      | PhaseGuestPrepping \<Rightarrow> handleGuestPrepping E mig
      | PhasePreparingImages \<Rightarrow> handlePrepareImages E mig
      | PhaseWarmPreSync \<Rightarrow> handleWarmPreSync E mig
      | PhaseWarmSyncing \<Rightarrow> handleWarmSyncing E mig
      | PhaseReadyForCutover \<Rightarrow> handleReadyForCutover E mig
      | PhaseWarmCutover \<Rightarrow> handleWarmCutover E mig
      | PhaseWarmFinalSync \<Rightarrow> handleWarmFinalSync E mig
      | PhaseWarmDeltaSync \<Rightarrow> handleWarmDeltaSync E mig
      | PhaseWarmFinalDelta \<Rightarrow> handleWarmFinalDelta E mig
      | PhaseImportingDisks \<Rightarrow> handleWaitImport E mig
      | PhaseWaitingForImport \<Rightarrow> handleWaitImport E mig
      | PhaseCreatingVMs \<Rightarrow> handleCreateVMs E mig
      | PhaseTestRunning \<Rightarrow> handleTestRunning E mig
      | PhaseTestPending \<Rightarrow> handleTestPending E mig
      | PhaseSwitchingNetwork \<Rightarrow> handleSwitchingNetwork E mig
      | _ \<Rightarrow> return (Done NoRequeue))"

definition Reconcile :: "env \<Rightarrow> string \<Rightarrow> string \<Rightarrow> outcome cmd" where
  "Reconcile E ns name =
     do { r \<leftarrow> k8s_get_migration E ns name;
          case r of
            Inl err \<Rightarrow> return (if IsNotFound err then Done NoRequeue else Err (kerr_text err))
          | Inr mig \<Rightarrow>
              if phaseOf mig = PhaseCompleted \<or> phaseOf mig = PhaseFailed then return (Done NoRequeue)
              else dispatch E mig }"

section \<open>The phase machine\<close>

text \<open>The phases that a status patch may set, given the migration it starts from.\<close>

definition cutoverPhase :: "AHVMigration \<Rightarrow> AHVMigrationPhase" where
  "cutoverPhase mig = (if PauseBeforeCutover (sourceOf mig) then PhaseReadyForCutover else PhaseWarmCutover)"

definition approved :: "string \<Rightarrow> AHVMigration \<Rightarrow> bool" where
  "approved key mig \<longleftrightarrow> Annotations mig key = Some ''true''"

definition nextPhases :: "AHVMigration \<Rightarrow> AHVMigrationPhase list" where
  "nextPhases mig =
     (case phaseOf mig of
        PhaseEmpty \<Rightarrow> [PhasePending]
      | PhasePending \<Rightarrow> [PhaseFailed, if needsGuestPrep mig then PhaseGuestPrepping else nextPhaseAfterGuestPrep mig]
      | PhaseGuestPrepping \<Rightarrow> [PhaseGuestPrepping, PhaseFailed, nextPhaseAfterGuestPrep mig]
      | PhasePreparingImages \<Rightarrow> [PhasePreparingImages, PhaseFailed, PhaseImportingDisks]
      | PhaseWarmPreSync \<Rightarrow> [PhaseFailed, PhaseWarmSyncing]
      | PhaseWarmSyncing \<Rightarrow> [PhaseWarmSyncing, if cbtEnabled mig then PhaseWarmDeltaSync else cutoverPhase mig]
      | PhaseReadyForCutover \<Rightarrow> if approved AnnotationCutoverApproved mig then [PhaseWarmCutover] else []
      | PhaseWarmCutover \<Rightarrow> [PhaseWarmCutover, PhaseFailed,
          if cbtEnabled mig then PhaseWarmFinalDelta
          else if warmFinalSyncEnabled mig then PhaseWarmFinalSync else PhaseCreatingVMs]
      | PhaseWarmFinalSync \<Rightarrow> [PhaseWarmFinalSync, PhaseFailed, PhaseImportingDisks]
      | PhaseWarmDeltaSync \<Rightarrow> [PhaseWarmDeltaSync, PhaseFailed, cutoverPhase mig]
      | PhaseWarmFinalDelta \<Rightarrow> [PhaseWarmFinalDelta, PhaseFailed, PhaseCreatingVMs]
      | PhaseImportingDisks \<Rightarrow> [PhaseImportingDisks, PhaseCreatingVMs]
      | PhaseWaitingForImport \<Rightarrow> [PhaseWaitingForImport, PhaseCreatingVMs]
      | PhaseCreatingVMs \<Rightarrow> [PhaseFailed, if hasTestTarget mig then PhaseTestRunning else PhaseCompleted]
      | PhaseTestRunning \<Rightarrow> if approved AnnotationTestApproved mig then [PhaseTestPending] else []
      | PhaseTestPending \<Rightarrow> [PhaseSwitchingNetwork]
      | PhaseSwitchingNetwork \<Rightarrow> [PhaseFailed, PhaseCompleted]
      | _ \<Rightarrow> [])"

text \<open>The effects on the outside world that belong to a phase.\<close>

definition effect_ok :: "AHVMigrationPhase \<Rightarrow> event \<Rightarrow> bool" where
  "effect_ok ph e =
     (case e of
        Http _ _ _ _ _ _ _ \<Rightarrow> power_event e \<longrightarrow> ph \<in> {PhasePreparingImages, PhaseWarmCutover}
      | CreateSecret _ _ \<Rightarrow> ph = PhasePending
      | CreateObj DataVolume _ _ \<Rightarrow> ph \<in> {PhasePending, PhasePreparingImages, PhaseWarmPreSync, PhaseWarmFinalSync}
      | CreateObj VirtualMachine _ _ \<Rightarrow> ph = PhaseCreatingVMs
      | CreateObj VirtualMachineInstance _ _ \<Rightarrow> False
      | PatchObj kind _ _ _ \<Rightarrow> kind = VirtualMachine \<and> ph \<in> {PhaseTestRunning, PhaseTestPending, PhaseSwitchingNetwork}
      | DeleteObj kind _ _ _ \<Rightarrow> kind = DataVolume \<and> ph = PhaseWarmFinalSync
      | CreateConfigMap _ _ \<Rightarrow> ph \<in> {PhaseWarmDeltaSync, PhaseWarmFinalDelta}
      | DeleteConfigMap _ _ _ \<Rightarrow> ph \<in> {PhaseWarmDeltaSync, PhaseWarmFinalDelta}
      | CreateJob _ _ \<Rightarrow> ph \<in> {PhaseWarmDeltaSync, PhaseWarmFinalDelta}
      | DeleteJob _ _ _ \<Rightarrow> ph \<in> {PhaseWarmDeltaSync, PhaseWarmFinalDelta}
      | SshRun _ _ \<Rightarrow> ph = PhaseGuestPrepping
      | WinrmRun _ _ \<Rightarrow> ph = PhaseGuestPrepping
      | _ \<Rightarrow> True)"

text \<open>A step of the handlers: status patches start from the migration read and set an allowed phase.\<close>

definition patch_ok :: "AHVMigration \<Rightarrow> event \<Rightarrow> bool" where
  "patch_ok mig e = (case e of PatchStatus old new r \<Rightarrow> old = Status mig \<and> Phase new \<in> set (nextPhases mig) | _ \<Rightarrow> True)"

definition step_ok :: "AHVMigration \<Rightarrow> event \<Rightarrow> bool" where
  "step_ok mig e \<longleftrightarrow> patch_ok mig e \<and> effect_ok (phaseOf mig) e"

lemma step_ok_simps [simp]:
  "step_ok mig (PatchStatus old new r) \<longleftrightarrow> old = Status mig \<and> Phase new \<in> set (nextPhases mig)"
  "step_ok mig (Now n)" "step_ok mig (GetSecret a b c)" "step_ok mig (GetObj k a b kj)" "step_ok mig (GetJob a b js)"
  "step_ok mig (CreateObj k j r') \<longleftrightarrow> effect_ok (phaseOf mig) (CreateObj k j r')"
  "step_ok mig (PatchObj k j j' r') \<longleftrightarrow> effect_ok (phaseOf mig) (PatchObj k j j' r')"
  "step_ok mig (DeleteObj k a b r') \<longleftrightarrow> effect_ok (phaseOf mig) (DeleteObj k a b r')"
  "step_ok mig (CreateSecret sec r') \<longleftrightarrow> phaseOf mig = PhasePending"
  by (simp_all add: step_ok_def patch_ok_def effect_ok_def)

lemma calm_step_ok: "calm_event e \<Longrightarrow> step_ok mig e"
  by (auto simp: step_ok_def patch_ok_def effect_ok_def calm_event_def prism_event_def split: event.splits)

section \<open>The contract of a handler\<close>

locale phase_handler =
  fixes phases :: "AHVMigrationPhase list" and handler :: "env \<Rightarrow> AHVMigration \<Rightarrow> outcome cmd"
  assumes step: "phaseOf mig \<in> set phases \<Longrightarrow> emits (step_ok mig) (handler E mig)"
begin

lemma all_events: "phaseOf mig \<in> set phases \<Longrightarrow> list_all (step_ok mig) (events (handler E mig))"
  by (rule emits_events [OF step])

end

lemmas step_prism = calm_requests [THEN emits_mono, OF calm_step_ok] calm_operations [THEN emits_mono, OF calm_step_ok]
  calm_CreateImageFromDisk [THEN emits_mono, OF calm_step_ok]

lemma emits_NewPrismClient: "(\<And>a b r. P (GetSecret a b r)) \<Longrightarrow> emits P (NewPrismClient E mig)"
  unfolding NewPrismClient_def op_defs by (intro emits_rules) auto

lemma step_commit:
  "Phase (Status patch) \<in> set (nextPhases mig) \<Longrightarrow> emits (step_ok mig) (commit E mig patch res)"
  unfolding commit_def op_defs by (intro emits_rules) simp_all

lemma step_fail:
  "PhaseFailed \<in> set (nextPhases mig) \<Longrightarrow> emits (step_ok mig) (failMigration E mig reason)"
  unfolding failMigration_def set_cond_def metav1_now_def State_Monad.bind_assoc State_Monad.bind_left_identity
  by (intro emits_bind emits_op step_commit) simp_all

lemma step_client: "emits (step_ok mig) (NewPrismClient E mig)"
  by (rule emits_NewPrismClient) simp

lemma step_prismClientError:
  "PhaseFailed \<in> set (nextPhases mig) \<Longrightarrow> emits (step_ok mig) (prismClientError E mig err)"
  unfolding prismClientError_def by (rule step_fail)

lemma step_ensureDV:
  assumes "phaseOf mig \<in> {PhasePending, PhasePreparingImages, PhaseWarmPreSync, PhaseWarmFinalSync}"
  shows "emits (step_ok mig) (ensureObj E DataVolume ns n obj what)"
  using assms by (intro emits_ensureObj) (auto simp: effect_ok_def)

lemma step_createDataVolumes:
  assumes "phaseOf mig \<in> {PhasePending, PhasePreparingImages, PhaseWarmPreSync, PhaseWarmFinalSync}"
  shows "emits (step_ok mig) (createDataVolumes E mig prism vms)"
  unfolding createDataVolumes_def by (intro emits_rules step_prism step_ensureDV assms)

lemma step_createDataVolumesFromTempImages:
  assumes "phaseOf mig \<in> {PhasePending, PhasePreparingImages, PhaseWarmPreSync, PhaseWarmFinalSync}"
  shows "emits (step_ok mig) (createDataVolumesFromTempImages E mig prism vms)"
  unfolding createDataVolumesFromTempImages_def by (intro emits_rules step_prism step_ensureDV assms)

lemmas monad_laws = State_Monad.bind_assoc State_Monad.bind_left_identity
lemmas handler_unfolds = set_cond_def completed_def metav1_now_def monad_laws
lemmas step_rules = emits_rules step_prism step_client step_prismClientError step_fail step_commit
  step_ensureDV step_createDataVolumes step_createDataVolumesFromTempImages

text \<open>The pieces of the handlers that are definitions of their own.\<close>

lemma step_ShutdownVM:
  assumes "phaseOf mig \<in> {PhasePreparingImages, PhaseWarmCutover}"
  shows "emits (step_ok mig) (ShutdownVM E prism vm)"
  using assms
  by (auto intro!: emits_mono [OF prism_ShutdownVM] simp: step_ok_def patch_ok_def effect_ok_def prism_event_def
      split: event.splits)

lemma step_createImagesSkipping: "emits (step_ok mig) (createImagesSkipping E mig prism vmSt info)"
  unfolding createImagesSkipping_def by (intro step_rules)

lemma step_imagesReady: "emits (step_ok mig) (imagesReady E prism imgs)"
  unfolding imagesReady_def by (intro step_rules)

lemma step_createImages:
  "PhaseFailed \<in> set (nextPhases mig) \<Longrightarrow> emits (step_ok mig) (createImages E mig prism a b vmSt info)"
  unfolding createImages_def by (intro step_rules)

lemma step_baseSnapshot:
  "PhaseFailed \<in> set (nextPhases mig) \<Longrightarrow> emits (step_ok mig) (baseSnapshot E mig prism vmSt info)"
  unfolding baseSnapshot_def by (intro step_rules)

lemmas step_images = step_createImagesSkipping step_imagesReady
lemmas step_warm = step_createImages step_baseSnapshot

lemma step_checkImports: "emits (step_ok mig) (checkImports E mig mark)"
  unfolding checkImports_def checkDVs_def k8s_get_def by (intro step_rules) simp

lemma step_finalSync:
  assumes "phaseOf mig = PhaseWarmFinalSync"
  shows "emits (step_ok mig) (finalSyncGone E mig vmSt)" and "emits (step_ok mig) (finalSyncImage E mig prism vmSt)"
  unfolding finalSyncGone_def finalSyncImage_def k8s_get_def k8s_delete_def
  by (intro step_rules step_warm; simp add: assms nextPhases_def effect_ok_def)+

section \<open>Every handler meets the contract\<close>

interpretation init_handler: phase_handler "[PhaseEmpty]" handleInit
  by unfold_locales (unfold handleInit_def handler_unfolds, intro step_rules, simp_all add: nextPhases_def)

interpretation pending_handler: phase_handler "[PhasePending]" handlePending
  by unfold_locales
     (unfold handlePending_def ensureSecret_def handler_unfolds k8s_get_secret_def k8s_create_secret_def,
      intro step_rules, auto simp: nextPhases_def nextPhaseAfterGuestPrep_def)

interpretation prepare_handler: phase_handler "[PhasePreparingImages]" handlePrepareImages
  by unfold_locales
     (unfold handlePrepareImages_def handler_unfolds,
      intro step_rules step_ShutdownVM step_images, auto simp: nextPhases_def)

interpretation presync_handler: phase_handler "[PhaseWarmPreSync]" handleWarmPreSync
  by unfold_locales
     (unfold handleWarmPreSync_def handler_unfolds, intro step_rules step_warm, auto simp: nextPhases_def)

interpretation syncing_handler: phase_handler "[PhaseWarmSyncing]" handleWarmSyncing
  by unfold_locales
     (unfold handleWarmSyncing_def handler_unfolds, intro step_rules step_checkImports,
      auto simp: nextPhases_def cutoverPhase_def)

interpretation finalsync_handler: phase_handler "[PhaseWarmFinalSync]" handleWarmFinalSync
  by unfold_locales
     (unfold handleWarmFinalSync_def handler_unfolds, intro step_rules step_finalSync, auto simp: nextPhases_def)

interpretation ready_handler: phase_handler "[PhaseReadyForCutover]" handleReadyForCutover
  by unfold_locales
     (unfold handleReadyForCutover_def, intro step_rules, auto simp: nextPhases_def approved_def)

interpretation cutover_handler: phase_handler "[PhaseWarmCutover]" handleWarmCutover
  by unfold_locales
     (unfold handleWarmCutover_def handler_unfolds, intro step_rules step_ShutdownVM, auto simp: nextPhases_def)

interpretation import_handler: phase_handler "[PhaseImportingDisks, PhaseWaitingForImport]" handleWaitImport
  by unfold_locales
     (unfold handleWaitImport_def handler_unfolds, intro step_rules step_checkImports, auto simp: nextPhases_def)

lemma step_ensureVM:
  assumes "phaseOf mig = PhaseCreatingVMs"
  shows "emits (step_ok mig) (ensureObj E VirtualMachine ns n obj what)"
  using assms by (intro emits_ensureObj) (auto simp: effect_ok_def)

interpretation create_handler: phase_handler "[PhaseCreatingVMs]" handleCreateVMs
  by unfold_locales
     (unfold handleCreateVMs_def handler_unfolds, intro step_rules step_ensureVM, auto simp: nextPhases_def)

interpretation testrunning_handler: phase_handler "[PhaseTestRunning]" handleTestRunning
  by unfold_locales
     (unfold handleTestRunning_def k8s_get_def k8s_patch_def, intro step_rules,
      auto simp: nextPhases_def approved_def effect_ok_def)

interpretation testpending_handler: phase_handler "[PhaseTestPending]" handleTestPending
  by unfold_locales
     (unfold handleTestPending_def k8s_get_def k8s_patch_def, intro step_rules,
      auto simp: nextPhases_def effect_ok_def)

interpretation switching_handler: phase_handler "[PhaseSwitchingNetwork]" handleSwitchingNetwork
  by unfold_locales
     (unfold handleSwitchingNetwork_def handler_unfolds k8s_get_def k8s_patch_def, intro step_rules,
      auto simp: nextPhases_def effect_ok_def)

lemma step_runGuestPrep:
  assumes "phaseOf mig = PhaseGuestPrepping"
  shows "emits (step_ok mig) (runGuestPrep E mig vmSpec)"
  unfolding runGuestPrep_def runWinRMGuestPrep_def runSSHGuestPrep_def executeWinRM_def sshAuth_def op_defs
  by (intro step_rules) (simp_all add: assms step_ok_def patch_ok_def effect_ok_def)

interpretation guestprep_handler: phase_handler "[PhaseGuestPrepping]" handleGuestPrepping
  by unfold_locales
     (unfold handleGuestPrepping_def handler_unfolds k8s_patch_status_def, intro step_rules step_runGuestPrep,
      auto simp: nextPhases_def)

lemma step_job_events:
  assumes "phaseOf mig \<in> {PhaseWarmDeltaSync, PhaseWarmFinalDelta}"
  shows "step_ok mig (CreateConfigMap cm r)" "step_ok mig (DeleteConfigMap a b r)"
    "step_ok mig (CreateJob j r)" "step_ok mig (DeleteJob a b r)" "PhaseFailed \<in> set (nextPhases mig)"
  using assms by (auto simp: step_ok_def patch_ok_def effect_ok_def nextPhases_def)

lemma step_deltaRegions:
  "phaseOf mig \<in> {PhaseWarmDeltaSync, PhaseWarmFinalDelta} \<Longrightarrow> emits (step_ok mig) (deltaRegions E mig prism vmSt paths)"
  unfolding deltaRegions_def by (intro step_rules step_job_events)

lemma step_startJobs:
  "phaseOf mig \<in> {PhaseWarmDeltaSync, PhaseWarmFinalDelta} \<Longrightarrow> emits (step_ok mig) (startJobs E mig i rnd vmSt paths regs)"
  unfolding startJobs_def k8s_create_configmap_def k8s_create_job_def by (intro step_rules step_job_events)

lemma step_startRound:
  "phaseOf mig \<in> {PhaseWarmDeltaSync, PhaseWarmFinalDelta} \<Longrightarrow> emits (step_ok mig) (startRound E mig prism final i vmSt)"
  unfolding startRound_def by (intro step_rules step_job_events step_deltaRegions step_startJobs)

lemma step_jobsDone:
  "phaseOf mig \<in> {PhaseWarmDeltaSync, PhaseWarmFinalDelta} \<Longrightarrow> emits (step_ok mig) (jobsDone E mig vmSt)"
  unfolding jobsDone_def k8s_get_job_def by (intro step_rules step_job_events) simp

lemma step_finishRound:
  "phaseOf mig \<in> {PhaseWarmDeltaSync, PhaseWarmFinalDelta} \<Longrightarrow> emits (step_ok mig) (finishRound E mig prism final vmSt)"
  unfolding finishRound_def k8s_delete_job_def k8s_delete_configmap_def
  by (intro step_rules step_job_events step_jobsDone)

lemma step_advanceVM:
  "phaseOf mig \<in> {PhaseWarmDeltaSync, PhaseWarmFinalDelta} \<Longrightarrow> emits (step_ok mig) (advanceVM E mig prism final i vmSt)"
  unfolding advanceVM_def by (intro step_rules step_job_events step_startRound step_finishRound)

lemma step_cleanupVM: "emits (step_ok mig) (cleanupVM E prism vmSt)"
  unfolding cleanupVM_def by (intro step_rules)

interpretation delta_handler: phase_handler "[PhaseWarmDeltaSync]" handleWarmDeltaSync
  by unfold_locales
     (unfold handleWarmDeltaSync_def runDeltaRound_def handler_unfolds, intro step_rules step_advanceVM step_cleanupVM,
      auto simp: nextPhases_def cutoverPhase_def)

interpretation finaldelta_handler: phase_handler "[PhaseWarmFinalDelta]" handleWarmFinalDelta
  by unfold_locales
     (unfold handleWarmFinalDelta_def runDeltaRound_def handler_unfolds, intro step_rules step_advanceVM step_cleanupVM,
      auto simp: nextPhases_def)

lemma dispatch_step: "emits (step_ok mig) (dispatch E mig)"
proof (cases "phaseOf mig")
qed (simp_all add: dispatch_def emits_return init_handler.step pending_handler.step guestprep_handler.step
    prepare_handler.step presync_handler.step syncing_handler.step ready_handler.step cutover_handler.step
    finalsync_handler.step delta_handler.step finaldelta_handler.step import_handler.step create_handler.step
    testrunning_handler.step testpending_handler.step switching_handler.step)

text \<open>C6: Whatever the world answers, a reconciliation of a migration writes its status only as patches from the
  migration it read to a phase that the phase machine allows after the current one, and it touches the world
  only in the ways that belong to the phase: machines are powered off only while preparing images or
  cutting over, virtual machines are created only in CreatingVMs, DataVolumes are deleted only in the final
  full copy, delta-sync Jobs exist only in the two delta phases, scripts run only in GuestPrepping.\<close>

theorem dispatch_refines_phase_machine: "list_all (step_ok mig) (events (dispatch E mig))"
  by (rule emits_events [OF dispatch_step])

end
