(* ===== verification/HandlerSpecs.thy ===== *)
theory HandlerSpecs
  imports Reconciler
begin

text \<open>
  What the individual handlers promise beyond the phase machine: when they move on, what they have seen of the
  world by then, and what they write into the status.
\<close>

section \<open>Waiting for imports\<close>

definition status_patches :: "event list \<Rightarrow> (AHVMigrationStatus \<times> AHVMigrationStatus) list" where
  "status_patches es = List.map_filter (\<lambda>e. case e of PatchStatus old new r \<Rightarrow> Some (old, new) | _ \<Rightarrow> None) es"

definition dv_queries :: "event list \<Rightarrow> (string \<times> string) list" where
  "dv_queries es = List.map_filter (\<lambda>e. case e of GetObj DataVolume ns n r \<Rightarrow> Some (ns, n) | _ \<Rightarrow> None) es"

lemma map_filter_append: "List.map_filter f (xs @ ys) = List.map_filter f xs @ List.map_filter f ys"
  by (simp add: List.map_filter_def)

lemma status_patches_simps [simp]:
  "status_patches [] = []" "status_patches (es @ es') = status_patches es @ status_patches es'"
  "status_patches (PatchStatus old new r # es) = (old, new) # status_patches es"
  "status_patches (Http m1 m2 m3 m4 m5 m6 m7 # es) = status_patches es"
  "status_patches (Now n # es) = status_patches es" "status_patches (GetObj k a b j # es) = status_patches es"
  by (simp_all add: status_patches_def map_filter_append map_filter_simps)

lemma dv_queries_simps [simp]:
  "dv_queries [] = []" "dv_queries (es @ es') = dv_queries es @ dv_queries es'"
  "dv_queries (GetObj DataVolume ns n r # es) = (ns, n) # dv_queries es"
  "dv_queries (Now k # es) = dv_queries es" "dv_queries (PatchStatus old new r' # es) = dv_queries es"
  by (simp_all add: dv_queries_def map_filter_append map_filter_simps)

text \<open>An answer about a DataVolume that says it has succeeded.\<close>

definition dv_ok :: "env \<Rightarrow> event \<Rightarrow> bool" where
  "dv_ok E e = (case e of GetObj DataVolume ns n r \<Rightarrow> (case r of Inl err \<Rightarrow> False | Inr obj \<Rightarrow> isDVSucceeded E obj) | _ \<Rightarrow> True)"

lemma dv_ok_simps [simp]:
  "dv_ok E (GetObj DataVolume ns n (Inl err)) = False" "dv_ok E (GetObj DataVolume ns n (Inr obj)) = isDVSucceeded E obj"
  "dv_ok E (Now k)" "dv_ok E (PatchStatus old new r)"
  by (simp_all add: dv_ok_def)

lemma checkDVs_spec:
  "wp (checkDVs E mig refs) (\<lambda>r es. fst r = list_all (dv_ok E) es \<and> dv_queries es = map (Pair (targetNS mig)) refs \<and>
     status_patches es = [])"
  unfolding checkDVs_def
proof (rule wp_loop [where I = "\<lambda>pre s es. fst s = list_all (dv_ok E) es \<and>
    dv_queries es = map (Pair (targetNS mig)) pre \<and> status_patches es = []"], goal_cases)
  case (2 pre x post s es)
  then show ?case
    unfolding k8s_get_def
    by (intro wp_rules) (auto split: sum.splits)
qed auto

lemma checkImports_spec:
  "wp (checkImports E mig mark) (\<lambda>r es. snd r = list_all (dv_ok E) es \<and> status_patches es = [] \<and>
     dv_queries es = map (Pair (targetNS mig)) (concat (map DataVolumeRefs (StatusVMs (Status mig)))) \<and>
     map DataVolumeRefs (fst r) = map DataVolumeRefs (StatusVMs (Status mig)))"
  unfolding checkImports_def
proof (rule wp_loop [where I = "\<lambda>pre s es. snd s = list_all (dv_ok E) es \<and> status_patches es = [] \<and>
    dv_queries es = map (Pair (targetNS mig)) (concat (map DataVolumeRefs (map snd pre))) \<and>
    map DataVolumeRefs (fst s) = map DataVolumeRefs (StatusVMs (Status mig))"], goal_cases)
  case (2 pre x post s es)
  note x = enumerate_split [OF 2(1)]
  have refs: "DataVolumeRefs (importedVM mark st res) = DataVolumeRefs st" for st res
    by (simp add: importedVM_def Let_def)
  have upd: "map DataVolumeRefs (vms[length pre := importedVM mark (StatusVMs (Status mig) ! length pre) res]) =
      map DataVolumeRefs (StatusVMs (Status mig))"
    if "map DataVolumeRefs vms = map DataVolumeRefs (StatusVMs (Status mig))" for vms res
    using x(2) that by (simp add: map_update refs) (metis list_update_id nth_map)
  from 2(2) show ?case
    unfolding x(1) prod.case
    by (intro wp_rules wp_mono [OF checkDVs_spec]) (auto simp: upd)
qed auto

text \<open>C10: \<open>handleWaitImport\<close> asks for every DataVolume of every machine, in order, and writes the status exactly once;
  the phase becomes CreatingVMs if and only if all of them answered that they have succeeded.\<close>

theorem handleWaitImport_spec:
  "wp (handleWaitImport E mig) (\<lambda>r es. \<exists>st. status_patches es = [(Status mig, st)] \<and>
     dv_queries es = map (Pair (targetNS mig)) (concat (map DataVolumeRefs (StatusVMs (Status mig)))) \<and>
     Phase st = (if list_all (dv_ok E) es then PhaseCreatingVMs else phaseOf mig))"
  unfolding handleWaitImport_def handler_unfolds commit_def k8s_patch_status_def
  by (intro wp_bind wp_mono [OF checkImports_spec]) (auto simp: Let_def intro!: wp_rules)

text \<open>C26: \<open>handleWarmSyncing\<close> leaves WarmSyncing if and only if every DataVolume of every machine has succeeded, for the
  delta phase with change tracking, and otherwise for the approval phase or the cutover.\<close>

theorem handleWarmSyncing_spec:
  "wp (handleWarmSyncing E mig) (\<lambda>r es. \<exists>st. status_patches es = [(Status mig, st)] \<and>
     dv_queries es = map (Pair (targetNS mig)) (concat (map DataVolumeRefs (StatusVMs (Status mig)))) \<and>
     Phase st = (if list_all (dv_ok E) es then if cbtEnabled mig then PhaseWarmDeltaSync else cutoverPhase mig else phaseOf mig))"
  unfolding handleWarmSyncing_def handler_unfolds commit_def k8s_patch_status_def
  by (intro wp_bind wp_mono [OF checkImports_spec]) (auto simp: Let_def cutoverPhase_def intro!: wp_rules)

section \<open>Cutover\<close>

lemma prism_no_patches: "list_all prism_event es \<Longrightarrow> status_patches es = []"
  by (induction es) (auto simp: status_patches_def map_filter_simps prism_event_def split: event.splits)

lemma wp_prism_event:
  assumes "emits prism_event m" and "\<And>r es. status_patches es = [] \<Longrightarrow> Q r es"
  shows "wp m Q"
  using assms(1) unfolding emits_def by (rule wp_mono) (simp add: assms(2) prism_no_patches)

definition prismURL :: "AHVMigration \<Rightarrow> string" where
  "prismURL mig = trim_right (Endpoint (sourceOf mig)) (CHR ''/'')"

lemma wp_NewPrismClient:
  assumes "\<And>err es. status_patches es = [] \<Longrightarrow> \<not> list_ex power_event es \<Longrightarrow> Q (Inl err) es"
    and "\<And>p es. status_patches es = [] \<Longrightarrow> \<not> list_ex power_event es \<Longrightarrow> baseURL p = prismURL mig \<Longrightarrow> Q (Inr p) es"
  shows "wp (NewPrismClient E mig) Q"
  unfolding NewPrismClient_def k8s_get_secret_def
  by (intro wp_rules) (auto intro!: assms simp: status_patches_def map_filter_simps power_event_def prismURL_def)

lemma wp_failMigration:
  assumes "\<And>r es st. status_patches es = [(Status mig, st)] \<Longrightarrow> Phase st = PhaseFailed \<Longrightarrow> \<not> list_ex power_event es \<Longrightarrow> Q r es"
  shows "wp (failMigration E mig reason) Q"
  unfolding failMigration_def commit_def handler_unfolds k8s_patch_status_def
  by (intro wp_rules) (auto intro!: assms simp: power_event_def)

text \<open>\<open>seen_not_on mig u e\<close>: the event is an answer of Prism with a power state of machine \<open>u\<close> other than ON.\<close>

definition seen_not_on :: "AHVMigration \<Rightarrow> string \<Rightarrow> event \<Rightarrow> bool" where
  "seen_not_on mig u e = (case e of Http base user pass method path body (Resp code b) \<Rightarrow>
     base = prismURL mig \<and> method = ''GET'' \<and> path = vmPath u \<and> 200 \<le> code \<and> code < 300 \<and>
     (case parsed b of Inl err \<Rightarrow> False
      | Inr j \<Rightarrow> as_string (path_get j [''status'', ''resources'', ''power_state'']) \<noteq> ''ON'') | _ \<Rightarrow> False)"

lemma reports_not_on:
  assumes "reports p (vmPath u) [''status'', ''resources'', ''power_state''] st e" and "st \<noteq> ''ON''" and "baseURL p = prismURL mig"
  shows "seen_not_on mig u e"
  using assms by (auto simp: reports_def seen_not_on_def split: event.splits http_result.splits sum.splits)

definition all_seen_off :: "AHVMigration \<Rightarrow> VMStatus list \<Rightarrow> event list \<Rightarrow> bool" where
  "all_seen_off mig vms es \<longleftrightarrow> list_all (\<lambda>vm. AHVUUID vm = [] \<or> list_ex (seen_not_on mig (AHVUUID vm)) es) vms \<and>
     \<not> list_ex power_event es"

lemma all_seen_off_more:
  "all_seen_off mig vms es \<Longrightarrow> \<not> list_ex power_event es' \<Longrightarrow> all_seen_off mig vms (es @ es')"
  "all_seen_off mig vms es \<Longrightarrow> \<not> list_ex power_event es' \<Longrightarrow> all_seen_off mig vms (es' @ es)"
  by (auto simp: all_seen_off_def list_all_iff)

lemma all_seen_off_snoc:
  "all_seen_off mig (vms @ [vm]) es \<longleftrightarrow> all_seen_off mig vms es \<and> (AHVUUID vm = [] \<or> list_ex (seen_not_on mig (AHVUUID vm)) es)"
  by (auto simp: all_seen_off_def)

lemma cutover_loop:
  assumes p: "baseURL prism = prismURL mig"
  shows "wp (foreach (enumerate 0 (StatusVMs (Status mig))) (StatusVMs (Status mig), True) (\<lambda>(i, vmSt) (vms, allOff).
      if AHVUUID vmSt = [] then return (Next (vms, allOff))
      else
        do { power \<leftarrow> GetVMPowerState E prism (AHVUUID vmSt);
             case power of
               Inl err \<Rightarrow> return (Next (vms, False))
             | Inr powerState \<Rightarrow>
                 if powerState = ''ON'' then
                   do { s \<leftarrow> ShutdownVM E prism (AHVUUID vmSt);
                        return (if s = ShutdownPanic then Ret (Panic ''assignment to entry in nil map'')
                                else Next (vms[i := vmSt\<lparr>stPhase := ''ShuttingDown''\<rparr>], False)) }
                 else return (Next (vms, allOff)) }))
    (\<lambda>c es. status_patches es = [] \<and>
       (case c of Inl r \<Rightarrow> True | Inr (vms, allOff) \<Rightarrow> allOff \<longrightarrow> all_seen_off mig (StatusVMs (Status mig)) es))"
proof (rule wp_foreach [where I = "\<lambda>pre s es. status_patches es = [] \<and> (snd s \<longrightarrow> all_seen_off mig (map snd pre) es)"], goal_cases)
  case (2 pre x post s es)
  note x = enumerate_split [OF 2(1)]
  have calm: "\<not> power_event (Http a u w ''GET'' path None r)" for a u w path r by (simp add: power_event_def)
  from 2(2) show ?case
    unfolding x(1) prod.case
    by (intro wp_rules wp_GetVMPowerState wp_prism_event [OF prism_ShutdownVM])
       (auto simp: all_seen_off_snoc calm intro: all_seen_off_more dest: reports_not_on [OF _ _ p])
next
  case (3 s es)
  then show ?case by (auto simp: enumerate_eq_zip split: prod.splits)
qed (auto simp: all_seen_off_def)

text \<open>C8: Cutover happens only on machines that are down: when \<open>handleWarmCutover\<close> moves on to the final
  synchronisation or to the creation of the machines, Prism has answered in this very reconciliation,
  for every machine with a UUID, with a power state other than ON, and no machine was asked to shut down in it.\<close>

theorem handleWarmCutover_waits_for_shutdown:
  "wp (handleWarmCutover E mig) (\<lambda>r es. list_all (\<lambda>(old, new). Phase new \<in> {phaseOf mig, PhaseFailed} \<or>
     all_seen_off mig (StatusVMs (Status mig)) es) (status_patches es))"
  unfolding handleWarmCutover_def prismClientError_def handler_unfolds commit_def k8s_patch_status_def
proof (intro wp_bind wp_NewPrismClient, goal_cases)
  case (1 err es)
  then show ?case by (auto intro!: wp_failMigration)
next
  case (2 p es)
  then show ?case
    unfolding sum.case
    by (intro wp_after wp_mono [OF cutover_loop])
       (auto split: sum.splits simp: Let_def power_event_def all_seen_off_def list_all_iff intro!: wp_rules)
qed

text \<open>
  An environment in which the Prism secret exists and every request gets the given document.
\<close>

definition serving :: "json \<Rightarrow> env" where
  "serving j = idle_env\<lparr>ansGetSecret := (\<lambda>t ns n. Inr [(''user'', ''admin''), (''password'', ''secret'')]),
     ansHttp := (\<lambda>t m url u b. ok_json j)\<rparr>"

definition phasesWritten :: "event list \<Rightarrow> AHVMigrationPhase list" where
  "phasesWritten es = map (\<lambda>(old, new). Phase new) (status_patches es)"

definition cutoverExample :: AHVMigration where
  "cutoverExample = setPhase PhaseWarmCutover (setVMs [emptyVMStatus\<lparr>stName := ''web'', AHVUUID := ''u''\<rparr>] exampleMigration)"

text \<open>An answer without a power state counts as a machine that is down: when Prism answers with a document that
  lacks the field, the cutover moves on to the final delta although nothing was shut down.\<close>

theorem cutover_without_power_state:
  "phasesWritten (events (handleWarmCutover (serving (JObj [])) cutoverExample)) = [PhaseWarmFinalDelta] \<and>
   \<not> list_ex power_event (events (handleWarmCutover (serving (JObj [])) cutoverExample))"
  by code_simp

section \<open>Creation of the machines\<close>

definition createExample :: AHVMigration where
  "createExample = setPhase PhaseCreatingVMs (setVMs [emptyVMStatus\<lparr>stName := ''web''\<rparr>]
     (exampleMigration\<lparr>Spec := (Spec exampleMigration)\<lparr>NetworkMappings := []\<rparr>\<rparr>))"

definition creates_vm :: "event \<Rightarrow> bool" where
  "creates_vm e = (case e of CreateObj VirtualMachine j r \<Rightarrow> True | _ \<Rightarrow> False)"

text \<open>A migration is reported as completed, with all its machines counted, although Prism could not be asked about its
  only machine and no virtual machine was created.\<close>

theorem completed_without_vm:
  "map (\<lambda>(old, new). (Phase new, CompletedVMs new, map VMRef (StatusVMs new)))
     (status_patches (events (handleCreateVMs (serving (JObj [])) createExample))) = [(PhaseCompleted, 1, [[]])] \<and>
   \<not> list_ex creates_vm (events (handleCreateVMs (serving (JObj [])) createExample))"
  by code_simp

section \<open>Guest preparation without a following import\<close>

lemma no_dv_queries: "dv_queries es = [] \<Longrightarrow> list_all (dv_ok E) es"
  by (induction es) (auto simp: dv_queries_def map_filter_simps dv_ok_def split: event.splits ukind.splits option.splits)

text \<open>Without warm migration and shutdown, guest preparation is followed by the import phase although no DataVolume has
  been created, and as long as no machine has a DataVolume the import phase goes straight on to the creation
  of the machines, without asking for a single DataVolume.\<close>

theorem guest_prep_skips_import:
  assumes "\<not> WarmMigration (sourceOf mig)" and "\<not> ShutdownBeforeMigration (sourceOf mig)"
    and "list_all (\<lambda>vm. DataVolumeRefs vm = []) (StatusVMs (Status mig))"
  shows "nextPhaseAfterGuestPrep mig = PhaseImportingDisks \<and>
    wp (handleWaitImport E mig) (\<lambda>r es. phasesWritten es = [PhaseCreatingVMs] \<and> dv_queries es = [])"
proof
  show "nextPhaseAfterGuestPrep mig = PhaseImportingDisks" using assms by (simp add: nextPhaseAfterGuestPrep_def)
  have nil: "concat (map DataVolumeRefs (StatusVMs (Status mig))) = []" using assms(3) by (auto simp: list_all_iff)
  show "wp (handleWaitImport E mig) (\<lambda>r es. phasesWritten es = [PhaseCreatingVMs] \<and> dv_queries es = [])"
    unfolding handleWaitImport_def handler_unfolds commit_def k8s_patch_status_def
    by (intro wp_bind wp_mono [OF checkImports_spec])
       (auto simp: Let_def phasesWritten_def nil simp del: concat_eq_Nil_conv intro!: wp_rules dest: no_dv_queries)
qed

theorem guest_prep_skips_import_witness:
  "nextPhaseAfterGuestPrep (exampleMigration\<lparr>Spec := (Spec exampleMigration)\<lparr>Source := exampleSource\<lparr>WarmMigration := False\<rparr>\<rparr>\<rparr>) =
     PhaseImportingDisks"
  using guest_prep_skips_import [of "exampleMigration\<lparr>Spec := (Spec exampleMigration)\<lparr>Source := exampleSource\<lparr>WarmMigration := False\<rparr>\<rparr>\<rparr>" idle_env]
  by (simp add: example_defs)

section \<open>The final full copy\<close>

definition dv_gone :: "AHVMigration \<Rightarrow> string \<Rightarrow> event \<Rightarrow> bool" where
  "dv_gone mig ref e = (case e of GetObj DataVolume ns n (Inl err) \<Rightarrow> ns = targetNS mig \<and> n = ref \<and> IsNotFound err | _ \<Rightarrow> False)"

definition staged :: "AHVMigration \<Rightarrow> event list \<Rightarrow> VMStatus \<Rightarrow> bool" where
  "staged mig es vm \<longleftrightarrow> AHVUUID vm = [] \<or>
     (stPhase vm = ''FinalSyncImaged'' \<and> list_all (\<lambda>ref. list_ex (dv_gone mig ref) es) (DataVolumeRefs vm))"

lemma staged_more: "staged mig es vm \<Longrightarrow> staged mig (es @ es') vm" "staged mig es' vm \<Longrightarrow> staged mig (es @ es') vm"
  by (auto simp: staged_def list_all_iff)

lemma finalSyncGone_spec:
  "wp (finalSyncGone E mig vm) (\<lambda>c es. status_patches es = [] \<and>
     (case c of Inl r \<Rightarrow> True | Inr gone \<Rightarrow> gone \<longrightarrow> list_all (\<lambda>ref. list_ex (dv_gone mig ref) es) (DataVolumeRefs vm)))"
  unfolding finalSyncGone_def
proof (rule wp_foreach [where I = "\<lambda>pre gone es. status_patches es = [] \<and>
    (gone \<longrightarrow> list_all (\<lambda>ref. list_ex (dv_gone mig ref) es) pre)"], goal_cases)
  case (2 pre x post s es)
  then show ?case
    unfolding k8s_get_def
    by (intro wp_rules) (auto simp: list_all_iff dv_gone_def split: sum.splits)
qed auto

lemma calm_no_patches: "emits calm_event m \<Longrightarrow> emits prism_event m"
  by (erule emits_mono) (simp add: calm_event_def)

text \<open>What a failed step of the loop may have written: at most a failure.\<close>

definition only_failed :: "event list \<Rightarrow> bool" where
  "only_failed es \<longleftrightarrow> list_all (\<lambda>p. p = PhaseFailed) (phasesWritten es)"

lemma only_failed_simps [simp]:
  "only_failed (es @ es') \<longleftrightarrow> only_failed es \<and> only_failed es'" "status_patches es = [] \<Longrightarrow> only_failed es"
  by (auto simp: only_failed_def phasesWritten_def)

lemma wp_failMigration_only: "wp (failMigration E mig reason) (\<lambda>r es. only_failed es)"
  by (rule wp_failMigration) (simp add: only_failed_def phasesWritten_def)

definition writes_only_failed :: "event \<Rightarrow> bool" where
  "writes_only_failed e = (case e of PatchStatus old new r \<Rightarrow> Phase new = PhaseFailed | _ \<Rightarrow> True)"

lemma only_failed_iff: "only_failed es \<longleftrightarrow> list_all writes_only_failed es"
  by (induction es)
     (auto simp: only_failed_def phasesWritten_def status_patches_def map_filter_simps writes_only_failed_def split: event.splits)

lemma emits_failMigration: "emits writes_only_failed (failMigration E mig reason)"
  unfolding failMigration_def commit_def handler_unfolds k8s_patch_status_def
  by (intro emits_rules) (simp_all add: writes_only_failed_def)

lemma calm_writes: "calm_event e \<Longrightarrow> writes_only_failed e"
  by (auto simp: calm_event_def prism_event_def writes_only_failed_def split: event.splits)

lemmas failed_prism = calm_requests [THEN emits_mono, OF calm_writes] calm_operations [THEN emits_mono, OF calm_writes]
  calm_CreateImageFromDisk [THEN emits_mono, OF calm_writes]

lemma emits_finalSyncImage: "emits writes_only_failed (finalSyncImage E mig prism vm)"
  unfolding finalSyncImage_def createImages_def k8s_delete_def
  by (intro emits_rules failed_prism emits_failMigration) (simp_all add: writes_only_failed_def)

lemma wp_only_failed:
  assumes "emits writes_only_failed m" and "\<And>r es. only_failed es \<Longrightarrow> Q r es"
  shows "wp m Q"
  using assms(1) unfolding emits_def by (rule wp_mono) (simp add: assms(2) only_failed_iff)

lemma emits_createDVs: "emits writes_only_failed (createDataVolumesFromTempImages E mig prism vms)"
  unfolding createDataVolumesFromTempImages_def
  by (intro emits_rules failed_prism emits_ensureObj) (simp_all add: writes_only_failed_def)

lemma phasesWritten_simps [simp]:
  "phasesWritten [] = []" "phasesWritten (es @ es') = phasesWritten es @ phasesWritten es'"
  "phasesWritten (PatchStatus old new r # es) = Phase new # phasesWritten es" "phasesWritten (Now k # es) = phasesWritten es"
  by (simp_all add: phasesWritten_def)

lemma phasesWritten_none [simp]: "status_patches es = [] \<Longrightarrow> phasesWritten es = []"
  by (simp add: phasesWritten_def)

lemma phases_only_failed: "only_failed es \<Longrightarrow> q \<in> set (phasesWritten es) \<Longrightarrow> q = PhaseFailed"
  by (auto simp: only_failed_def list_all_iff)


end
