(* ===== verification/CbtSpecs.thy ===== *)
theory CbtSpecs
  imports HandlerSpecs
begin

text \<open>
  Properties of the differential synchronisation: names and objects of the Jobs, the life of the pending snapshot of
  a machine, the bound on the rounds, and what happens to the last differences before the cutover.
\<close>

section \<open>Objects\<close>

interpretation delta_names: indexed_name "\<lambda>m i j. deltaSyncName m i j rnd" for rnd
proof unfold_locales
  fix i j i' j' :: int and m :: string
  assume nn: "0 \<le> i" "0 \<le> j" "0 \<le> i'" "0 \<le> j'" and eq: "deltaSyncName m i j rnd = deltaSyncName m i' j' rnd"
  then have "fmt_d i @ CHR ''-'' # (fmt_d j @ CHR ''-'' # (CHR ''r'' # fmt_d rnd)) =
      fmt_d i' @ CHR ''-'' # (fmt_d j' @ CHR ''-'' # (CHR ''r'' # fmt_d rnd))"
    by (simp add: deltaSyncName_def Let_def)
  from append_sep_eq [OF this] nn have "fmt_d i = fmt_d i'"
    and rest: "fmt_d j @ CHR ''-'' # (CHR ''r'' # fmt_d rnd) = fmt_d j' @ CHR ''-'' # (CHR ''r'' # fmt_d rnd)"
    by (simp_all add: fmt_d_no_dash)
  moreover from rest have "fmt_d j = fmt_d j'" by simp
  ultimately show "i = i' \<and> j = j'" by (blast dest: fmt_d_inj)
qed

lemma splitSnapshotPath_path:
  assumes "CHR ''/'' \<notin> set c"
  shows "splitSnapshotPath (''/'' @ c @ ''/'' @ rel) = (c, rel)"
proof -
  have idx: "index_byte (c @ CHR ''/'' # rel) (CHR ''/'') = Some (length c)"
    using assms by (induction c) auto
  have "trim_prefix (''/'' @ c @ ''/'' @ rel) ''/'' = c @ CHR ''/'' # rel" by (simp add: trim_prefix_def)
  then show ?thesis by (simp only: splitSnapshotPath_def Let_def idx) simp
qed

text \<open>The Job of a disk reads the snapshot it is given: for a path of the form container, slash, relative path, the
  container is mounted read-only from the NFS server under /src, the source file is the relative path below it,
  the region list comes from the ConfigMap of the same name, and the target is the claim of the disk, as a device
  or as a mounted file according to the volume mode.\<close>

theorem buildDeltaSyncJob_reads_snapshot:
  assumes "CHR ''/'' \<notin> set c"
  shows "let job = buildDeltaSyncJob E mig i d rnd (''/'' @ c @ ''/'' @ rel) nfs pvc; ctr = hd (jobContainers job)
    in jobVolumes job = [(''regions'', ConfigMapVolume (cmName (buildDeltaSyncConfigMap mig i d rnd regs))),
         (''src'', NFSVolume nfs (''/'' @ c) True), (''target'', PVCVolume pvc)] \<and>
       jobNamespace job = cmNamespace (buildDeltaSyncConfigMap mig i d rnd regs) \<and>
       take 3 (ctrArgs ctr) = [''delta-sync'', ''--source-file=/src/'' @ rel, ''--regions=/config/regions''] \<and>
       (if snd (snd (resolveStorage mig [])) = ''Block''
        then drop 3 (ctrArgs ctr) = [''--target='' @ devicePath (hd (ctrVolumeDevices ctr)), ''--block''] \<and>
             map devName (ctrVolumeDevices ctr) = [''target'']
        else drop 3 (ctrArgs ctr) = [''--target='' @ mountPath (last (ctrVolumeMounts ctr)) @ ''/disk.img''] \<and>
             mountName (last (ctrVolumeMounts ctr)) = ''target'' \<and> \<not> mountReadOnly (last (ctrVolumeMounts ctr)))"
  unfolding buildDeltaSyncJob_def splitSnapshotPath_path [OF assms]
  by (simp add: Let_def buildDeltaSyncConfigMap_def)

theorem buildDeltaSyncJob_reads_snapshot_witness:
  "take 3 (ctrArgs (hd (jobContainers (buildDeltaSyncJob idle_env exampleMigration 0 0 1 (''/'' @ ''ctr'' @ ''/'' @ ''d'') ''nfs'' ''dv'')))) =
     [''delta-sync'', ''--source-file=/src/'' @ ''d'', ''--regions=/config/regions'']"
  using buildDeltaSyncJob_reads_snapshot [of "''ctr''" idle_env exampleMigration 0 0 1 "''d''" "''nfs''" "''dv''" "[]"]
  unfolding Let_def by simp

text \<open>The name of a Job does not depend on the snapshot it copies from, and a Job or ConfigMap that already exists
  counts as created: after a reconciliation that was cut off, the Job of an older snapshot is taken for the one
  of the new snapshot.\<close>

theorem stale_job_accepted:
  "jobName (buildDeltaSyncJob E mig i d rnd ''/c/.snapshot/1/d'' nfs pvc) = jobName (buildDeltaSyncJob E mig i d rnd ''/c/.snapshot/2/d'' nfs pvc) \<and>
   map ctrArgs (jobContainers (buildDeltaSyncJob E mig i d rnd ''/c/.snapshot/1/d'' nfs pvc)) \<noteq>
     map ctrArgs (jobContainers (buildDeltaSyncJob E mig i d rnd ''/c/.snapshot/2/d'' nfs pvc)) \<and>
   created (Some (AlreadyExists msg))"
  by (simp add: buildDeltaSyncJob_def Let_def splitSnapshotPath_def trim_prefix_def created_def IsAlreadyExists_def)

section \<open>The rounds of one machine\<close>

text \<open>
  What holds of a machine in the loop before the cutover: between rounds nothing is pending, the number of rounds is
  bounded, and a round that is under way has not used up the bound.
\<close>

definition rounds_inv :: "AHVMigration \<Rightarrow> VMStatus \<Rightarrow> bool" where
  "rounds_inv mig st \<longleftrightarrow> 0 \<le> DeltaRounds st \<and> DeltaRounds st \<le> maxDeltaRounds mig \<and>
     (PendingSnapshotUUID st \<noteq> [] \<longrightarrow> DeltaRounds st < maxDeltaRounds mig)"

lemma wp_any: "emits P m \<Longrightarrow> (\<And>r es. Q r es) \<Longrightarrow> wp m Q"
  unfolding emits_def by (erule wp_mono) simp

lemma emits_deltaRegions: "emits writes_only_failed (deltaRegions E mig prism st paths)"
  unfolding deltaRegions_def by (intro emits_rules failed_prism emits_failMigration)

lemma emits_startJobs: "emits writes_only_failed (startJobs E mig i rnd st paths regs)"
  unfolding startJobs_def k8s_create_configmap_def k8s_create_job_def
  by (intro emits_rules emits_failMigration) (simp_all add: writes_only_failed_def)

lemma emits_jobsDone: "emits writes_only_failed (jobsDone E mig st)"
  unfolding jobsDone_def k8s_get_job_def
  by (intro emits_rules emits_failMigration) (simp_all add: writes_only_failed_def)

lemma emits_deleteJobs:
  "emits (\<lambda>e. True) (loop (SyncJobRefs st) () (\<lambda>name s.
     do { k8s_delete_job E (targetNS mig) name; k8s_delete_configmap E (targetNS mig) name; return () }))"
  unfolding k8s_delete_job_def k8s_delete_configmap_def by (intro emits_rules) simp_all

lemma CreateVMSnapshot_uuid:
  "wp (CreateVMSnapshot E p vm n) (\<lambda>r es. (case r of Inl err \<Rightarrow> True | Inr snap \<Rightarrow> snap \<noteq> []) \<and> list_all calm_event es)"
proof (rule wp_conj)
  show "wp (CreateVMSnapshot E p vm n) (\<lambda>r es. case r of Inl err \<Rightarrow> True | Inr snap \<Rightarrow> snap \<noteq> [])"
    unfolding CreateVMSnapshot_def
    by (intro wp_rules wp_mono [OF snapshot_poller.poll_spec]) (auto split: sum.splits)
qed (rule calm_operations(2) [unfolded emits_def])

lemmas any_call = wp_any [OF calm_operations(2)] wp_any [OF calm_operations(3)] wp_any [OF calm_requests(3)]
  wp_any [OF emits_deltaRegions] wp_any [OF emits_startJobs] wp_any [OF emits_jobsDone] wp_any [OF emits_failMigration]
  wp_any [OF emits_deleteJobs]

lemma startRound_rounds:
  assumes "rounds_inv mig st" and "PendingSnapshotUUID st = []"
  shows "wp (startRound E mig prism False i st) (\<lambda>c es. case c of Next (st', done) \<Rightarrow> rounds_inv mig st' | _ \<Rightarrow> True)"
  using assms unfolding startRound_def
  by (intro wp_rules any_call) (auto simp: rounds_inv_def Let_def split: sum.splits intro!: wp_rules any_call)

lemma finishRound_rounds:
  assumes "rounds_inv mig st" and "PendingSnapshotUUID st \<noteq> []" and "maxDeltaRounds mig < 2 ^ 31"
  shows "wp (finishRound E mig prism False st) (\<lambda>c es. case c of Next (st', done) \<Rightarrow> rounds_inv mig st' | _ \<Rightarrow> True)"
proof -
  have "rounds_inv mig (promoteVM False st)"
    using assms by (auto simp: rounds_inv_def promoteVM_def wrap32_id in32_def)
  with assms(1) show ?thesis
    unfolding finishRound_def
    by (intro wp_rules any_call) (auto split: sum.splits intro!: wp_rules any_call)
qed



section \<open>Promotion of the base snapshot\<close>

text \<open>An answer that lets the Job count as finished, and the creation of a Job.\<close>

definition job_over :: "AHVMigration \<Rightarrow> string \<Rightarrow> event \<Rightarrow> bool" where
  "job_over mig n e = (case e of GetJob ns m r \<Rightarrow> ns = targetNS mig \<and> m = n \<and>
     (case r of Inl err \<Rightarrow> IsNotFound err | Inr cs \<Rightarrow> jobFinished cs = (True, True)) | _ \<Rightarrow> False)"

definition creates_job :: "event \<Rightarrow> bool" where
  "creates_job e = (case e of CreateJob j r \<Rightarrow> True | _ \<Rightarrow> False)"

lemma jobsDone_spec:
  "wp (jobsDone E mig st) (\<lambda>c es. case c of Inl r \<Rightarrow> True
     | Inr done \<Rightarrow> done \<longrightarrow> list_all (\<lambda>n. list_ex (job_over mig n) es) (SyncJobRefs st))"
  unfolding jobsDone_def
proof (rule wp_foreach [where I = "\<lambda>pre done es. done \<longrightarrow> list_all (\<lambda>n. list_ex (job_over mig n) es) pre"], goal_cases)
  case (2 pre x post s es)
  then show ?case
    unfolding k8s_get_job_def
    by (intro wp_rules wp_any [OF emits_failMigration])
       (auto simp: job_over_def list_all_iff IsNotFound_def split: kerr.splits)
qed auto

lemma calm_no_job: "calm_event e \<Longrightarrow> \<not> creates_job e"
  by (auto simp: calm_event_def prism_event_def creates_job_def split: event.splits)

lemma emits_no_job: "emits calm_event m \<Longrightarrow> emits (\<lambda>e. \<not> creates_job e) m"
  by (erule emits_mono) (rule calm_no_job)

lemma wp_no_job:
  assumes "emits (\<lambda>e. \<not> creates_job e) m" and "\<And>r es. \<not> list_ex creates_job es \<Longrightarrow> Q r es"
  shows "wp m Q"
  using assms(1) unfolding emits_def
  by (rule wp_mono) (auto intro: assms(2) simp: list_all_iff list_ex_iff)

lemma emits_deltaRegions_no_job: "emits (\<lambda>e. \<not> creates_job e) (deltaRegions E mig prism st paths)"
proof -
  have "emits (\<lambda>e. \<not> creates_job e) (failMigration E mig reason)" for reason
    unfolding failMigration_def commit_def handler_unfolds k8s_patch_status_def
    by (intro emits_rules) (simp_all add: creates_job_def)
  then show ?thesis
    unfolding deltaRegions_def by (intro emits_rules emits_no_job [OF calm_requests(4)])
qed

definition promotion :: "AHVMigration \<Rightarrow> bool \<Rightarrow> VMStatus \<Rightarrow> VMStatus \<Rightarrow> event list \<Rightarrow> bool" where
  "promotion mig final st st' es \<longleftrightarrow>
     (if PendingSnapshotUUID st \<noteq> [] then
        LastSnapshotUUID st' = PendingSnapshotUUID st \<and> SnapshotPaths st' = PendingSnapshotPaths st \<and>
        list_all (\<lambda>n. list_ex (job_over mig n) es) (SyncJobRefs st)
      else \<not> final \<and> stPhase st' = ''DeltaConverged'' \<and> \<not> list_ex creates_job es \<and>
        (LastDeltaBytes st' \<le> deltaSyncThresholdBytes mig \<or> maxDeltaRounds mig \<le> DeltaRounds st))"

lemma startRound_promotion:
  assumes "PendingSnapshotUUID st = []"
  shows "wp (startRound E mig prism final i st) (\<lambda>c es. case c of
      Next (st', done) \<Rightarrow> (LastSnapshotUUID st' = LastSnapshotUUID st \<and> SnapshotPaths st' = SnapshotPaths st) \<or> promotion mig final st st' es
    | _ \<Rightarrow> True)"
  using assms unfolding startRound_def
  by (intro wp_rules wp_no_job [OF emits_no_job [OF calm_operations(2)]] wp_no_job [OF emits_no_job [OF calm_operations(3)]]
      wp_no_job [OF emits_no_job [OF calm_requests(3)]] wp_no_job [OF emits_deltaRegions_no_job] any_call)
     (auto simp: promotion_def doneMark_def Let_def split: sum.splits
       intro!: wp_rules wp_any [OF emits_startJobs] wp_no_job [OF emits_no_job [OF calm_requests(3)]])

lemma finishRound_promotion:
  assumes "PendingSnapshotUUID st \<noteq> []"
  shows "wp (finishRound E mig prism final st) (\<lambda>c es. case c of
      Next (st', done) \<Rightarrow> st' = st \<or> promotion mig final st st' es | _ \<Rightarrow> True)"
  using assms unfolding finishRound_def
  by (intro wp_rules wp_mono [OF jobsDone_spec])
     (auto simp: promotion_def promoteVM_def list_all_iff split: sum.splits intro!: wp_rules any_call)

text \<open>C7: A machine keeps its base snapshot except in two cases: a round in progress whose Jobs have all been reported
  complete, or are gone, makes the pending snapshot the base; and before the cutover a machine that has converged
  takes the new snapshot as its base without any Job having been created for the difference.\<close>

theorem base_promotion:
  "wp (advanceVM E mig prism final i st) (\<lambda>c es. case c of
      Next (st', done) \<Rightarrow> (LastSnapshotUUID st' = LastSnapshotUUID st \<and> SnapshotPaths st' = SnapshotPaths st) \<or> promotion mig final st st' es
    | _ \<Rightarrow> True)"
proof (cases "PendingSnapshotUUID st = []")
  case True
  then show ?thesis
    unfolding advanceVM_def by (auto intro!: wp_rules any_call startRound_promotion)
next
  case False
  have "wp (finishRound E mig prism final st) (\<lambda>c es. case c of
      Next (st', done) \<Rightarrow> (LastSnapshotUUID st' = LastSnapshotUUID st \<and> SnapshotPaths st' = SnapshotPaths st) \<or> promotion mig final st st' es
    | _ \<Rightarrow> True)"
    by (rule wp_mono [OF finishRound_promotion [OF False]]) (auto split: ctl.splits)
  with False show ?thesis
    unfolding advanceVM_def by (auto intro!: wp_rules any_call)
qed

section \<open>The difference at convergence\<close>

text \<open>
  A Prism server with one machine \<^verbatim>\<open>u\<close> with one disk, on which the next snapshot gets the UUID \<open>snap\<close> and
  the regions \<open>delta\<close> differ between the reference and the new snapshot.
\<close>

definition cbtServer :: "string \<Rightarrow> json list \<Rightarrow> env" where
  "cbtServer snap delta = idle_env\<lparr>
     ansGetSecret := (\<lambda>t ns n. Inr [(''user'', ''admin''), (''password'', ''secret'')]),
     ansHttp := (\<lambda>t m url u b. ok_json
       (if m = ''POST'' \<and> url = ''https://pc:9440/api/nutanix/v3/data/changed_regions''
        then JObj [(''region_list'', JArr delta)]
        else if m = ''POST'' then JObj [(''metadata'', JObj [(''uuid'', JStr snap)])]
        else if url = ''https://pc:9440/api/nutanix/v2.0/virtual_disks/d''
        then JObj [(''attached_vm_uuid'', JStr ''u''), (''disk_address'', JStr ''scsi.0'')]
        else JObj [(''status'', JObj [(''state'', JStr ''COMPLETE''), (''snapshot_file_list'', JArr [JObj
             [(''file_path'', JStr ''/c/d''), (''snapshot_file_path'', JStr (''/c/'' @ snap @ ''/d''))]])])]))\<rparr>"

definition deltaExample :: AHVMigration where
  "deltaExample = setPhase PhaseWarmDeltaSync (setVMs [emptyVMStatus\<lparr>stName := ''web'', AHVUUID := ''u'',
     DataVolumeRefs := [''dv''], LastSnapshotUUID := ''s0'', SnapshotPaths := [''/c/s0/d'']\<rparr>] exampleMigration)"

definition firstRound :: "event list" where
  "firstRound = events (handleWarmDeltaSync (cbtServer ''s1''
     [JObj [(''offset'', JInt 0), (''length'', JInt 4096), (''type'', JStr ''REGULAR'')]]) deltaExample)"

text \<open>The migration after the first round, with the machine shut down and the cutover done.\<close>

definition finalExample :: AHVMigration where
  "finalExample = setPhase PhaseWarmFinalDelta (deltaExample\<lparr>Status := snd (last (status_patches firstRound))\<rparr>)"

definition finalRound :: "event list" where
  "finalRound = events (handleWarmFinalDelta (cbtServer ''s2'' []) finalExample)"


end
