(* ===== verification/Pipeline.thy ===== *)
theory Pipeline
  imports DeltaCli CbtSpecs
begin

text \<open>
  The path of one delta round through three components: the region arithmetic of the controller, the Job and
  ConfigMap it creates, and the runner in the Job's container.  How the cluster presents volumes to a
  container is stated as a predicate on the file system the runner sees.
\<close>

section \<open>The file system of the container\<close>

text \<open>
  \<open>pod_view job cm nfsFile pvcFile pvcRaw fs\<close>: every container of the Job sees its volumes in \<open>fs\<close> as Kubernetes documents it.  The
  keys of a ConfigMap are files of its mount, the files of an NFS export are found below its mount, a claim is
  a directory at a mount and a raw disk at a device path.
\<close>

definition pod_view :: "Job \<Rightarrow> ConfigMap \<Rightarrow> (string \<Rightarrow> string \<Rightarrow> string \<Rightarrow> disk option) \<Rightarrow> (string \<Rightarrow> string \<Rightarrow> disk option) \<Rightarrow>
    (string \<Rightarrow> disk option) \<Rightarrow> filesystem \<Rightarrow> bool" where
  "pod_view job cm nfsFile pvcFile pvcRaw fs \<longleftrightarrow> (\<forall>ctr\<in>set (jobContainers job).
     (\<forall>m\<in>set (ctrVolumeMounts ctr). case map_of (jobVolumes job) (mountName m) of
        Some (ConfigMapVolume n) \<Rightarrow> n = cmName cm \<longrightarrow> (\<forall>k. fsText fs (mountPath m @ ''/'' @ k) = map_of (cmData cm) k)
      | Some (NFSVolume server path ro) \<Rightarrow> (\<forall>f. fsDisk fs (mountPath m @ ''/'' @ f) = nfsFile server path f)
      | Some (PVCVolume p) \<Rightarrow> (\<forall>f. fsDisk fs (mountPath m @ ''/'' @ f) = pvcFile p f)
      | None \<Rightarrow> True) \<and>
     (\<forall>v\<in>set (ctrVolumeDevices ctr). case map_of (jobVolumes job) (devName v) of
        Some (PVCVolume p) \<Rightarrow> fsDisk fs (devicePath v) = pvcRaw p | _ \<Rightarrow> True))"

definition blockTarget :: "AHVMigration \<Rightarrow> bool" where
  "blockTarget mig \<longleftrightarrow> snd (snd (resolveStorage mig [])) = ''Block''"

definition targetPath :: "AHVMigration \<Rightarrow> string" where
  "targetPath mig = (if blockTarget mig then ''/dev/delta-target'' else ''/target/disk.img'')"

lemma job_args:
  "ctrArgs (hd (jobContainers (buildDeltaSyncJob E mig i d rnd snap nfs pvc))) =
    ''delta-sync'' # [''--source-file='' @ ''/src/'' @ snd (splitSnapshotPath snap), ''--regions='' @ ''/config/regions'',
      ''--target='' @ targetPath mig] @ (if blockTarget mig then [''--block''] else [])"
  by (simp add: buildDeltaSyncJob_def Let_def targetPath_def blockTarget_def)

definition jobFlags :: "AHVMigration \<Rightarrow> string \<Rightarrow> flags" where
  "jobFlags mig snap = defaultFlags\<lparr>fSourceFile := ''/src/'' @ snd (splitSnapshotPath snap), fRegions := ''/config/regions'',
     fTarget := targetPath mig, fBlock := blockTarget mig\<rparr>"

lemma parse_flags_of_job:
  "parseFlags defaultFlags (tl (ctrArgs (hd (jobContainers (buildDeltaSyncJob E mig i d rnd snap nfs pvc))))) = Inr (jobFlags mig snap)"
  unfolding job_args jobFlags_def list.sel by (rule parse_job_args)

lemma operatorMain_job:
  "operatorMain (ctrArgs (hd (jobContainers (buildDeltaSyncJob E mig i d rnd snap nfs pvc)))) fs =
     Some (runDeltaSync (jobFlags mig snap) fs)"
  unfolding job_args jobFlags_def operatorMain_def runDeltaSyncArgs_def
  by (simp only: list.case simp_thms if_True parse_job_args sum.case)

lemma pod_view_files:
  assumes "pod_view (buildDeltaSyncJob E mig i d rnd snap nfs pvc) (buildDeltaSyncConfigMap mig i d rnd regs) nfsFile pvcFile pvcRaw fs"
  shows "fsText fs (fRegions (jobFlags mig snap)) = Some (renderRegions regs)"
    and "fsDisk fs (fSourceFile (jobFlags mig snap)) = nfsFile nfs (''/'' @ fst (splitSnapshotPath snap)) (snd (splitSnapshotPath snap))"
    and "fsDisk fs (fTarget (jobFlags mig snap)) = (if blockTarget mig then pvcRaw pvc else pvcFile pvc ''disk.img'')"
proof -
  let ?cm = "buildDeltaSyncConfigMap mig i d rnd regs"
  have "(\<forall>k. fsText fs (''/config'' @ ''/'' @ k) = map_of (cmData ?cm) k) \<and>
      (\<forall>f. fsDisk fs (''/src'' @ ''/'' @ f) = nfsFile nfs (''/'' @ fst (splitSnapshotPath snap)) f) \<and>
      fsDisk fs (targetPath mig) = (if blockTarget mig then pvcRaw pvc else pvcFile pvc ''disk.img'')"
    using assms unfolding pod_view_def buildDeltaSyncJob_def
    by (cases "blockTarget mig")
       (auto simp: Let_def buildDeltaSyncConfigMap_def targetPath_def blockTarget_def dest: spec [of _ "''disk.img''"])
  note f = this [THEN conjunct1, rule_format, of "''regions''"]
    this [THEN conjunct2, THEN conjunct1, rule_format, of "snd (splitSnapshotPath snap)"] this [THEN conjunct2, THEN conjunct2]
  show "fsText fs (fRegions (jobFlags mig snap)) = Some (renderRegions regs)"
    using f(1) by (simp add: buildDeltaSyncConfigMap_def jobFlags_def)
  show "fsDisk fs (fSourceFile (jobFlags mig snap)) = nfsFile nfs (''/'' @ fst (splitSnapshotPath snap)) (snd (splitSnapshotPath snap))"
    using f(2) by (simp add: jobFlags_def)
  show "fsDisk fs (fTarget (jobFlags mig snap)) = (if blockTarget mig then pvcRaw pvc else pvcFile pvc ''disk.img'')"
    using f(3) by (simp add: jobFlags_def)
qed

lemma jobFlags_run: "fSourceFile (jobFlags mig snap) \<noteq> []" "0 < fWorkers (jobFlags mig snap)"
  by (simp_all add: jobFlags_def defaultFlags_def)

section \<open>One round, end to end\<close>

text \<open>C2: A delta round brings the target up to date.  Let the regions Prism reported for a disk be ordered, disjoint and
  inside the disk, contain every byte in which the new snapshot differs from the target, and be truthful
  about zeroed bytes, gaps included.  Then the container of the Job that the controller builds for them,
  started with the Job's arguments on the volumes of the Job, exits with 0 and leaves the new snapshot on the
  claim of the disk, which may be larger than the snapshot.\<close>

theorem delta_job_restores_snapshot:
  assumes list: "region_list rs" "\<forall>r\<in>set rs. wire_region r" "list_all (\<lambda>r. rEnd r \<le> int (length src)) rs"
    and base: "length src \<le> length base" "\<forall>p<length src. base ! p \<noteq> src ! p \<longrightarrow> covered rs (int p)"
    and zeroed: "\<forall>p<length src. covers rs ''ZEROED'' (int p) \<or> gap_byte rs (2 ^ 30) ''ZEROED'' (int p) \<longrightarrow> src ! p = 0"
    and pod: "pod_view (buildDeltaSyncJob E mig i d rnd (''/'' @ c @ ''/'' @ rel) nfs pvc)
      (buildDeltaSyncConfigMap mig i d rnd (prepareRegions rs)) nfsFile pvcFile pvcRaw fs" "CHR ''/'' \<notin> set c"
    and disks: "nfsFile nfs (''/'' @ c) rel = Some src"
      "(if blockTarget mig then pvcRaw pvc else pvcFile pvc ''disk.img'') = Some base" "fsSyncOk fs"
  shows "operatorMain (ctrArgs (hd (jobContainers (buildDeltaSyncJob E mig i d rnd (''/'' @ c @ ''/'' @ rel) nfs pvc)))) fs =
    Some (Exit 0, Some (src @ drop (length src) base))"
proof -
  note files = pod_view_files [OF pod(1), unfolded splitSnapshotPath_path [OF pod(2)] fst_conv snd_conv]
  have "runDeltaSync (jobFlags mig (''/'' @ c @ ''/'' @ rel)) fs = (Exit 0, Some (src @ drop (length src) base))"
    by (rule delta_sync_core [OF list base zeroed _ jobFlags_run]) (use files disks in simp_all)
  then show ?thesis unfolding operatorMain_job by simp
qed

text \<open>The view of a container of the sample disk.\<close>

definition sampleView :: "AHVMigration \<Rightarrow> ChangedRegion list \<Rightarrow> filesystem" where
  "sampleView mig regs = \<lparr>fsText = (\<lambda>p. if take 8 p = ''/config/'' then map_of [(''regions'', renderRegions regs)] (drop 8 p) else None),
     fsDisk = (\<lambda>p. if take 5 p = ''/src/'' then (if drop 5 p = ''s/d'' then Some sampleSrc else None)
       else if p = targetPath mig then Some sampleBase else None), fsSyncOk = True\<rparr>"

theorem delta_job_restores_snapshot_witness:
  "operatorMain (ctrArgs (hd (jobContainers (buildDeltaSyncJob idle_env exampleMigration 0 0 1 (''/'' @ ''ctr'' @ ''/'' @ ''s/d'') ''nfs'' ''dv''))))
     (sampleView exampleMigration (prepareRegions sampleDelta)) = Some (Exit 0, Some (sampleSrc @ drop (length sampleSrc) sampleBase))"
proof -
  let ?nfs = "\<lambda>server path f. if f = ''s/d'' then Some sampleSrc else None"
  let ?file = "\<lambda>p f. if f = ''disk.img'' then Some sampleBase else None" and ?raw = "\<lambda>p. Some sampleBase"
  have c: "CHR ''/'' \<notin> set ''ctr''" by simp
  have b: "blockTarget exampleMigration" by (simp add: blockTarget_def resolveStorage_def example_defs)
  have pod: "pod_view (buildDeltaSyncJob idle_env exampleMigration 0 0 1 (''/'' @ ''ctr'' @ ''/'' @ ''s/d'') ''nfs'' ''dv'')
      (buildDeltaSyncConfigMap exampleMigration 0 0 1 (prepareRegions sampleDelta)) ?nfs ?file ?raw
      (sampleView exampleMigration (prepareRegions sampleDelta))"
    unfolding pod_view_def buildDeltaSyncJob_def splitSnapshotPath_path [OF c]
    using b by (simp add: Let_def sampleView_def buildDeltaSyncConfigMap_def targetPath_def blockTarget_def)
  show ?thesis
    by (rule delta_job_restores_snapshot [OF sampleDelta_ok sampleDelta_facts pod c])
       (use b in \<open>simp_all add: sampleView_def\<close>)
qed

end
