(* ===== verification/Rounds.thy ===== *)
theory Rounds
  imports Pipeline
begin

text \<open>
  What one call of \<open>advanceVM\<close> does, in terms of the contents of snapshots: which regions are reported, which
  ConfigMaps and Jobs are created for them, and the status the machine is left in.  \<open>advanced\<close> lists
  every way in which the loop over the machines goes on; the theory \<open>SyncWorld\<close> builds on it.
\<close>

section \<open>Snapshots and what Prism says of them\<close>

text \<open>
  \<open>nfs\<close> gives the content of a file of an NFS export; a snapshot path names its export and its file as
  \<open>splitSnapshotPath\<close> takes it apart.  A report \<open>rs\<close> on an old and a new snapshot is right when it is an
  ordered list of regions inside the disk that contains every byte in which the snapshots differ and every byte of \<open>D\<close>, the
  bytes known to have been written since the old snapshot was taken, and when its zeroed bytes are zero.
  \<open>truthful\<close> says that the environment answers only with such reports.
\<close>

definition snapshotAt :: "(string \<Rightarrow> string \<Rightarrow> disk) \<Rightarrow> string \<Rightarrow> disk" where
  "snapshotAt nfs path = nfs (''/'' @ fst (splitSnapshotPath path)) (snd (splitSnapshotPath path))"

definition changedBytes :: "nat set \<Rightarrow> disk \<Rightarrow> disk \<Rightarrow> nat set" where
  "changedBytes D old new = {p. p \<in> D \<or> byteAt old p \<noteq> byteAt new p}"

definition delta_ok :: "nat set \<Rightarrow> ChangedRegion list \<Rightarrow> disk \<Rightarrow> disk \<Rightarrow> bool" where
  "delta_ok D rs old new \<longleftrightarrow> region_list rs \<and> (\<forall>r\<in>set rs. wire_region r) \<and>
     list_all (\<lambda>r. rEnd r \<le> int (length new)) rs \<and> length old = length new \<and>
     (\<forall>p\<in>changedBytes D old new. covered rs (int p)) \<and> zeroed_ok rs new"

definition truthful :: "(string \<Rightarrow> string \<Rightarrow> disk) \<Rightarrow> (string \<Rightarrow> nat set) \<Rightarrow> env \<Rightarrow> PrismClient \<Rightarrow> bool" where
  "truthful nfs D E prism \<longleftrightarrow> (\<forall>new old. wp (ChangedRegions E prism new old) (\<lambda>r es. case r of
     Inl err \<Rightarrow> True | Inr (rs, sz) \<Rightarrow> delta_ok (D old) rs (snapshotAt nfs old) (snapshotAt nfs new)))"

section \<open>Sizes\<close>

abbreviation bytes :: "ChangedRegion list \<Rightarrow> int" where
  "bytes rs \<equiv> sum_list (map rLength rs)"

lemma region_list_bytes:
  assumes "region_list rs" "list_all (\<lambda>r. rEnd r \<le> b) rs" "\<forall>r\<in>set rs. a \<le> rOffset r" "a \<le> b"
  shows "a + bytes rs \<le> b"
  using assms
proof (induction rs arbitrary: a)
  case (Cons r rs)
  then have "rEnd r + bytes rs \<le> b"
    by (intro Cons.IH) (auto simp: region_list_def region_ok_def)
  with Cons.prems show ?case by (auto simp: rEnd_def)
qed simp

lemma region_list_nonneg: "region_list rs \<Longrightarrow> 0 \<le> bytes rs"
  by (auto simp: region_list_def region_ok_def intro!: sum_list_nonneg)

lemma fold_wrap64:
  assumes "\<forall>x\<in>set xs. 0 \<le> f x" "0 \<le> (t::int)" "t + sum_list (map f xs) < 2 ^ 63"
  shows "fold (\<lambda>x t. wrap64 (t + f x)) xs t = t + sum_list (map f xs)"
  using assms
proof (induction xs arbitrary: t)
  case (Cons x xs)
  have "0 \<le> sum_list (map f xs)" using Cons.prems by (intro sum_list_nonneg) auto
  then have "wrap64 (t + f x) = t + f x" using Cons.prems by (intro wrap64_nonneg) auto
  with Cons show ?case by simp
qed simp

lemma delta_ok_bytes:
  assumes "delta_ok D rs old new"
  shows "0 \<le> bytes rs" "bytes rs \<le> int (length new)"
  using assms region_list_bytes [of rs "int (length new)" 0] region_list_nonneg [of rs]
  by (auto simp: delta_ok_def region_list_def region_ok_def)

lemma totalRegionBytes_bytes:
  assumes "delta_ok D rs old new" "int (length new) < 2 ^ 63"
  shows "totalRegionBytes rs = bytes rs"
proof -
  have "\<forall>r\<in>set rs. 0 \<le> rLength r" using assms(1) by (simp add: delta_ok_def region_list_def region_ok_def)
  from fold_wrap64 [OF this, of 0] delta_ok_bytes(2) [OF assms(1)] assms(2)
  show ?thesis by (simp add: totalRegionBytes_def)
qed

lemma diff_card:
  assumes "delta_ok D rs old new"
  shows "finite (changedBytes D old new)" "int (card (changedBytes D old new)) \<le> bytes rs"
proof -
  let ?I = "\<lambda>r. {nat (rOffset r)..<nat (rEnd r)}"
  have sub: "changedBytes D old new \<subseteq> (\<Union>r\<in>set rs. ?I r)"
  proof
    fix p assume "p \<in> changedBytes D old new"
    with assms have "covered rs (int p)" by (simp add: delta_ok_def)
    then show "p \<in> (\<Union>r\<in>set rs. ?I r)" by (auto simp: covered_def covers1_def intro!: bexI)
  qed
  then show "finite (changedBytes D old new)" by (rule finite_subset) simp
  have ok: "\<forall>r\<in>set rs. region_ok r" using assms by (simp add: delta_ok_def region_list_def)
  have "int (card (\<Union>r\<in>set rs. ?I r)) \<le> bytes rs"
    using ok
  proof (induction rs)
    case (Cons r rs)
    have "card (\<Union>x\<in>set (r # rs). ?I x) \<le> card (?I r) + card (\<Union>x\<in>set rs. ?I x)"
      unfolding list.set UN_insert by (rule card_Un_le)
    moreover have "int (card (?I r)) = rLength r" using Cons.prems by (auto simp: region_ok_def rEnd_def)
    ultimately show ?case using Cons by simp
  qed simp
  moreover have "card (changedBytes D old new) \<le> card (\<Union>r\<in>set rs. ?I r)"
    by (rule card_mono [OF _ sub]) simp
  ultimately show "int (card (changedBytes D old new)) \<le> bytes rs" by simp
qed

section \<open>What a round asks the cluster to do\<close>

definition configMapsOf :: "event list \<Rightarrow> ConfigMap list" where
  "configMapsOf es = List.map_filter (\<lambda>e. case e of CreateConfigMap cm r \<Rightarrow> Some cm | _ \<Rightarrow> None) es"

definition jobsOf :: "event list \<Rightarrow> Job list" where
  "jobsOf es = List.map_filter (\<lambda>e. case e of CreateJob job r \<Rightarrow> Some job | _ \<Rightarrow> None) es"

lemma made_append [simp]:
  "configMapsOf (es @ es') = configMapsOf es @ configMapsOf es'" "jobsOf (es @ es') = jobsOf es @ jobsOf es'"
  by (simp_all add: configMapsOf_def jobsOf_def List.map_filter_def)

lemma made_simps [simp]:
  "configMapsOf [] = []" "jobsOf [] = []"
  "configMapsOf (CreateConfigMap cm r # es) = cm # configMapsOf es" "jobsOf (CreateConfigMap cm r # es) = jobsOf es"
  "configMapsOf (CreateJob job r # es) = configMapsOf es" "jobsOf (CreateJob job r # es) = job # jobsOf es"
  by (simp_all add: configMapsOf_def jobsOf_def List.map_filter_def)

lemma made_calm:
  assumes "list_all calm_event es"
  shows "configMapsOf es = []" "jobsOf es = []"
  using assms
  by (induction es) (auto simp: configMapsOf_def jobsOf_def List.map_filter_def calm_event_def prism_event_def split: event.splits)

text \<open>The regions of a round are true of the snapshots, and \<open>tb\<close> is their total as the code adds it up.\<close>

definition round_delta :: "(string \<Rightarrow> string \<Rightarrow> disk) \<Rightarrow> (string \<Rightarrow> nat set) \<Rightarrow> string list \<Rightarrow> string list \<Rightarrow> ChangedRegion list list \<Rightarrow> int \<Rightarrow> bool" where
  "round_delta nfs D base paths drs tb \<longleftrightarrow> length paths = length base \<and> length drs = length base \<and>
     (\<forall>d<length base. delta_ok (D (base ! d)) (drs ! d) (snapshotAt nfs (base ! d)) (snapshotAt nfs (paths ! d))) \<and>
     tb = fold (\<lambda>rs t. wrap64 (t + totalRegionBytes rs)) drs 0"

lemma deltaRegions_spec:
  assumes "truthful nfs D E prism" "length paths = length (SnapshotPaths st)"
  shows "wp (deltaRegions E mig prism st paths) (\<lambda>c es. case c of Inl r \<Rightarrow> True | Inr (drs, tb) \<Rightarrow>
    list_all calm_event es \<and> round_delta nfs D (SnapshotPaths st) paths drs tb)"
  unfolding deltaRegions_def round_delta_def
proof (rule wp_foreach [where I = "\<lambda>pre (drs, tb) es. list_all calm_event es \<and> length drs = length pre \<and>
    (\<forall>d<length pre. delta_ok (D (SnapshotPaths st ! d)) (drs ! d) (snapshotAt nfs (SnapshotPaths st ! d)) (snapshotAt nfs (paths ! d))) \<and>
    tb = fold (\<lambda>rs t. wrap64 (t + totalRegionBytes rs)) drs 0"], goal_cases)
  case (2 pre d post s es)
  have "length pre < length paths" using arg_cong [OF 2(1), of length] by simp
  then have d: "d = length pre" using arg_cong [OF 2(1), of "\<lambda>xs. xs ! length pre"] by simp
  have q: "wp (ChangedRegions E prism (paths ! d) (SnapshotPaths st ! d)) (\<lambda>r es. (case r of Inl err \<Rightarrow> True
      | Inr (rs, sz) \<Rightarrow> delta_ok (D (SnapshotPaths st ! d)) rs (snapshotAt nfs (SnapshotPaths st ! d)) (snapshotAt nfs (paths ! d))) \<and> list_all calm_event es)"
    by (rule wp_conj [OF assms(1) [unfolded truthful_def, rule_format] calm_requests(4) [unfolded emits_def]])
  obtain drs tb where s: "s = (drs, tb)" by fastforce
  show ?case
    unfolding s prod.case
    by (intro wp_rules wp_mono [OF q])
       (use 2(2) s d in \<open>auto simp: nth_append less_Suc_eq intro!: wp_rules any_call split: sum.splits prod.splits\<close>)
qed (use assms(2) in \<open>auto split: prod.splits\<close>)

abbreviation roundMap :: "AHVMigration \<Rightarrow> nat \<Rightarrow> int \<Rightarrow> ChangedRegion list list \<Rightarrow> nat \<Rightarrow> ConfigMap" where
  "roundMap mig i rnd drs d \<equiv> buildDeltaSyncConfigMap mig (int i) (int d) rnd (prepareRegions (drs ! d))"

abbreviation roundJob :: "env \<Rightarrow> AHVMigration \<Rightarrow> nat \<Rightarrow> int \<Rightarrow> VMStatus \<Rightarrow> string list \<Rightarrow> nat \<Rightarrow> Job" where
  "roundJob E mig i rnd st paths d \<equiv>
     buildDeltaSyncJob E mig (int i) (int d) rnd (paths ! d) (nfsServerHost mig) (DataVolumeRefs st ! d)"

definition busyDisks :: "ChangedRegion list list \<Rightarrow> nat list" where
  "busyDisks drs = filter (\<lambda>d. prepareRegions (drs ! d) \<noteq> []) [0..<length drs]"

lemma startJobs_spec:
  assumes "length drs = length paths"
  shows "wp (startJobs E mig i rnd st paths drs) (\<lambda>c es. case c of Inl r \<Rightarrow> True | Inr refs \<Rightarrow>
    configMapsOf es = map (roundMap mig i rnd drs) (busyDisks drs) \<and>
    jobsOf es = map (roundJob E mig i rnd st paths) (busyDisks drs) \<and>
    refs = map (\<lambda>d. deltaSyncName (Name mig) (int i) (int d) rnd) (busyDisks drs) \<and>
    (\<forall>d\<in>set (busyDisks drs). d < length (DataVolumeRefs st)))"
  unfolding startJobs_def busyDisks_def assms
proof (rule wp_foreach [where I = "\<lambda>pre refs es. let ds = filter (\<lambda>d. prepareRegions (drs ! d) \<noteq> []) pre in
    configMapsOf es = map (roundMap mig i rnd drs) ds \<and> jobsOf es = map (roundJob E mig i rnd st paths) ds \<and>
    refs = map (\<lambda>d. deltaSyncName (Name mig) (int i) (int d) rnd) ds \<and> (\<forall>d\<in>set ds. d < length (DataVolumeRefs st))"], goal_cases)
  case (2 pre d post refs es)
  have n: "jobName (roundJob E mig i rnd st paths d) = deltaSyncName (Name mig) (int i) (int d) rnd"
    by (simp add: buildDeltaSyncJob_def Let_def)
  show ?case
    unfolding k8s_create_configmap_def k8s_create_job_def
    by (intro wp_rules wp_any [OF emits_failMigration]) (use 2(2) n in \<open>auto simp: Let_def\<close>)
qed (auto simp: Let_def)

text \<open>The ways in which the start of a round goes on to the next machine.\<close>

definition converged :: "(string \<Rightarrow> string \<Rightarrow> disk) \<Rightarrow> (string \<Rightarrow> nat set) \<Rightarrow> AHVMigration \<Rightarrow> VMStatus \<Rightarrow> VMStatus \<Rightarrow> bool" where
  "converged nfs D mig st st' \<longleftrightarrow> (\<exists>snap paths drs tb. round_delta nfs D (SnapshotPaths st) paths drs tb \<and>
     (tb \<le> deltaSyncThresholdBytes mig \<or> maxDeltaRounds mig \<le> DeltaRounds st) \<and>
     st' = st\<lparr>LastDeltaBytes := tb, LastSnapshotUUID := snap, SnapshotPaths := paths, stPhase := doneMark False\<rparr>)"

definition unchanged :: "(string \<Rightarrow> string \<Rightarrow> disk) \<Rightarrow> (string \<Rightarrow> nat set) \<Rightarrow> VMStatus \<Rightarrow> VMStatus \<Rightarrow> bool" where
  "unchanged nfs D st st' \<longleftrightarrow> (\<exists>snap paths drs. snap \<noteq> [] \<and> round_delta nfs D (SnapshotPaths st) paths drs 0 \<and>
     st' = st\<lparr>LastDeltaBytes := 0, PendingSnapshotUUID := snap, PendingSnapshotPaths := paths, stPhase := doneMark True\<rparr>)"

definition roundNumber :: "VMStatus \<Rightarrow> int" where
  "roundNumber st = wrap32 (DeltaRounds st + 1)"

definition copying :: "(string \<Rightarrow> string \<Rightarrow> disk) \<Rightarrow> (string \<Rightarrow> nat set) \<Rightarrow> env \<Rightarrow> AHVMigration \<Rightarrow> nat \<Rightarrow> VMStatus \<Rightarrow> VMStatus \<Rightarrow> ConfigMap list \<Rightarrow> Job list \<Rightarrow> bool" where
  "copying nfs D E mig i st st' cms jobs \<longleftrightarrow> (\<exists>snap paths drs tb. snap \<noteq> [] \<and> round_delta nfs D (SnapshotPaths st) paths drs tb \<and>
     cms = map (roundMap mig i (roundNumber st) drs) (busyDisks drs) \<and>
     jobs = map (roundJob E mig i (roundNumber st) st paths) (busyDisks drs) \<and>
     (\<forall>d\<in>set (busyDisks drs). d < length (DataVolumeRefs st)) \<and>
     st' = st\<lparr>LastDeltaBytes := tb, PendingSnapshotUUID := snap, PendingSnapshotPaths := paths,
       SyncJobRefs := map (\<lambda>d. deltaSyncName (Name mig) (int i) (int d) (roundNumber st)) (busyDisks drs), stPhase := ''DeltaSyncing''\<rparr>)"

lemma convergedI:
  "round_delta nfs D (SnapshotPaths st) paths drs tb \<Longrightarrow> tb \<le> deltaSyncThresholdBytes mig \<or> maxDeltaRounds mig \<le> DeltaRounds st \<Longrightarrow>
   converged nfs D mig st (st\<lparr>LastDeltaBytes := tb, LastSnapshotUUID := snap, SnapshotPaths := paths, stPhase := doneMark False\<rparr>)"
  unfolding converged_def by blast

lemma unchangedI:
  "round_delta nfs D (SnapshotPaths st) paths drs 0 \<Longrightarrow> snap \<noteq> [] \<Longrightarrow>
   unchanged nfs D st (st\<lparr>LastDeltaBytes := 0, PendingSnapshotUUID := snap, PendingSnapshotPaths := paths, stPhase := doneMark True\<rparr>)"
  unfolding unchanged_def by blast

lemma startRound_delta:
  assumes "truthful nfs D E prism"
  shows "wp (startRound E mig prism final i st) (\<lambda>c es. case c of Next (st', dn) \<Rightarrow>
    \<not> final \<and> dn \<and> jobsOf es = [] \<and> converged nfs D mig st st' \<or> final \<and> dn \<and> jobsOf es = [] \<and> unchanged nfs D st st' \<or>
    \<not> dn \<and> copying nfs D E mig i st st' (configMapsOf es) (jobsOf es) | _ \<Rightarrow> True)"
proof -
  have jobs: "wp (startJobs E mig i (wrap32 (DeltaRounds st + 1)) (st\<lparr>LastDeltaBytes := tb\<rparr>) paths drs) (\<lambda>c es.
      case c of Inl r \<Rightarrow> True | Inr refs \<Rightarrow> copying nfs D E mig i st (st\<lparr>LastDeltaBytes := tb, PendingSnapshotUUID := snap,
        PendingSnapshotPaths := paths, SyncJobRefs := refs, stPhase := ''DeltaSyncing''\<rparr>) (configMapsOf es) (jobsOf es))"
    if "snap \<noteq> []" "round_delta nfs D (SnapshotPaths st) paths drs tb" for snap paths drs tb
  proof (rule wp_mono [OF startJobs_spec], goal_cases)
    case (2 c es)
    with that show ?case
      by (cases c) (auto simp: copying_def roundNumber_def intro!: exI [of _ snap] exI [of _ paths] exI [of _ drs] exI [of _ tb])
  qed (use that in \<open>simp add: round_delta_def\<close>)
  show ?thesis
    unfolding startRound_def Let_def
    by (intro wp_rules wp_mono [OF CreateVMSnapshot_uuid] wp_mono [OF calm_operations(3) [unfolded emits_def]]
        wp_mono [OF deltaRegions_spec [OF assms]] wp_any [OF emits_failMigration])
      (auto split: sum.splits simp: made_calm
        intro!: convergedI unchangedI wp_rules wp_mono [OF calm_requests(3) [unfolded emits_def]] wp_mono [OF jobs])
qed

lemma finishRound_delta:
  "wp (finishRound E mig prism final st) (\<lambda>c es. case c of Next (st', dn) \<Rightarrow>
    st' = st \<and> \<not> dn \<or> st' = promoteVM final st \<and> dn = final \<and> list_all (\<lambda>n. list_ex (job_over mig n) es) (SyncJobRefs st) | _ \<Rightarrow> True)"
  unfolding finishRound_def
  by (intro wp_rules wp_mono [OF jobsDone_spec])
     (auto simp: list_all_iff split: sum.splits intro!: wp_rules any_call)

text \<open>Every way in which a machine is advanced.\<close>

definition advanced :: "(string \<Rightarrow> string \<Rightarrow> disk) \<Rightarrow> (string \<Rightarrow> nat set) \<Rightarrow> env \<Rightarrow> AHVMigration \<Rightarrow> bool \<Rightarrow> nat \<Rightarrow> VMStatus \<Rightarrow> VMStatus \<Rightarrow> event list \<Rightarrow> bool" where
  "advanced nfs D E mig final i st st' es \<longleftrightarrow>
     st' = st \<and> (PendingSnapshotUUID st = [] \<longrightarrow> es = []) \<or>
     (if PendingSnapshotUUID st = [] then
        stPhase st \<noteq> doneMark final \<and>
        (\<not> final \<and> jobsOf es = [] \<and> converged nfs D mig st st' \<or> final \<and> jobsOf es = [] \<and> unchanged nfs D st st' \<or>
         copying nfs D E mig i st st' (configMapsOf es) (jobsOf es))
      else st' = promoteVM final st \<and> stPhase st \<noteq> doneMark final \<and> list_all (\<lambda>n. list_ex (job_over mig n) es) (SyncJobRefs st))"

lemma advanceVM_delta:
  assumes "truthful nfs D E prism"
  shows "wp (advanceVM E mig prism final i st) (\<lambda>c es. case c of Next (st', dn) \<Rightarrow> advanced nfs D E mig final i st st' es | _ \<Rightarrow> True)"
  unfolding advanceVM_def
  by (intro wp_rules wp_any [OF emits_failMigration] wp_mono [OF startRound_delta [OF assms]] wp_mono [OF finishRound_delta])
     (auto simp: advanced_def split: ctl.splits)

end
