(* ===== verification/SyncWorld.thy ===== *)
theory SyncWorld
  imports Rounds
begin

text \<open>
  The differential synchronisation of one machine over its whole life: calls of \<open>advanceVM\<close> with any answers, the
  containers of the Jobs it creates, which run the modelled command and may be killed at any point, and the cutover.
  The invariant relates the claims of the machine to its snapshots, byte by byte.
\<close>

section \<open>The world of one machine\<close>

text \<open>
  \<open>wStatus\<close> is the stored status of the machine, \<open>wClaims\<close> the content of the claims by name, \<open>wJobs\<close> the
  Jobs of the round under way with their ConfigMaps, and \<open>wExited\<close> the names of those of which a container has exited
  with 0.  \<open>wFinal\<close> is set by the cutover.  Three fields record history: \<open>wDirty\<close> the bytes that were written
  while the disk was imaged, after the first snapshot, so that the image may hold them or not; \<open>wSkipped\<close>
  the bytes that had changed when the machine was taken as converged; \<open>wExhausted\<close> whether that
  was because all rounds had been used up.
\<close>

record cbt_world =
  wFinal :: bool
  wStatus :: VMStatus
  wClaims :: "string \<Rightarrow> disk"
  wJobs :: "(ConfigMap \<times> Job) list"
  wExited :: "string set"
  wDirty :: "nat \<Rightarrow> nat set"
  wSkipped :: "(nat \<times> nat) set"
  wExhausted :: bool

definition dirtyAt :: "cbt_world \<Rightarrow> string \<Rightarrow> nat set" where
  "dirtyAt w path = (\<Union>d\<in>{d. d < length (SnapshotPaths (wStatus w)) \<and> SnapshotPaths (wStatus w) ! d = path}. wDirty w d)"

definition skippedBytes :: "(string \<Rightarrow> string \<Rightarrow> disk) \<Rightarrow> cbt_world \<Rightarrow> VMStatus \<Rightarrow> (nat \<times> nat) set" where
  "skippedBytes nfs w st' = {(d, p). stPhase st' = doneMark False \<and> d < length (SnapshotPaths (wStatus w)) \<and>
     p \<in> changedBytes (wDirty w d) (snapshotAt nfs (SnapshotPaths (wStatus w) ! d)) (snapshotAt nfs (SnapshotPaths st' ! d))}"

definition reconciled :: "(string \<Rightarrow> string \<Rightarrow> disk) \<Rightarrow> AHVMigration \<Rightarrow> cbt_world \<Rightarrow> VMStatus \<Rightarrow> event list \<Rightarrow> cbt_world" where
  "reconciled nfs mig w st' es =
     (if PendingSnapshotUUID (wStatus w) = [] then
        w\<lparr>wStatus := st', wJobs := zip (configMapsOf es) (jobsOf es), wExited := {},
          wDirty := (if stPhase st' = doneMark False then \<lambda>d. {} else wDirty w),
          wSkipped := wSkipped w \<union> skippedBytes nfs w st',
          wExhausted := wExhausted w \<or> (\<not> wFinal w \<and> maxDeltaRounds mig \<le> DeltaRounds (wStatus w))\<rparr>
      else if PendingSnapshotUUID st' = [] then w\<lparr>wStatus := st', wJobs := [], wDirty := \<lambda>d. {}\<rparr>
      else w\<lparr>wStatus := st'\<rparr>)"

definition jobClaim :: "Job \<Rightarrow> string" where
  "jobClaim job = (case map_of (jobVolumes job) ''target'' of Some (PVCVolume p) \<Rightarrow> p | _ \<Rightarrow> [])"

definition pod :: "(string \<Rightarrow> string \<Rightarrow> disk) \<Rightarrow> (string \<Rightarrow> disk) \<Rightarrow> ConfigMap \<times> Job \<Rightarrow> filesystem \<Rightarrow> bool" where
  "pod nfs claims cj fs \<longleftrightarrow> pod_view (snd cj) (fst cj) (\<lambda>server path f. Some (nfs path f))
     (\<lambda>p f. if f = ''disk.img'' then Some (claims p) else None) (\<lambda>p. Some (claims p)) fs"

abbreviation podArgs :: "Job \<Rightarrow> string list" where
  "podArgs job \<equiv> ctrArgs (hd (jobContainers job))"

definition fresh_create :: "event \<Rightarrow> bool" where
  "fresh_create e = (case e of CreateJob j (Some err) \<Rightarrow> \<not> IsAlreadyExists err
     | CreateConfigMap c (Some err) \<Rightarrow> \<not> IsAlreadyExists err | _ \<Rightarrow> True)"

text \<open>\<open>agrees S a b out\<close>: except in \<open>S\<close>, every byte of \<open>out\<close> is the one of \<open>a\<close> or the one of \<open>b\<close>.\<close>

definition agrees :: "nat set \<Rightarrow> disk \<Rightarrow> disk \<Rightarrow> disk \<Rightarrow> bool" where
  "agrees S a b out \<longleftrightarrow> length a \<le> length out \<and> length b = length a \<and>
     (\<forall>p<length a. p \<in> S \<or> byteAt out p \<in> {byteAt a p, byteAt b p})"

text \<open>
  \<^item> \<open>imported\<close>: the disks have been imported.  Outside the bytes written meanwhile, a claim holds the first snapshot;
    it may be larger.
  \<^item> \<open>reconcile\<close>: one call of \<open>advanceVM\<close> whose status is stored.  Reports are right, no created object was there
    before, and a Job is reported as complete, or is gone, only after a container of it has exited with 0.
  \<^item> \<open>killed\<close>: a container of a Job stops after any steps of its workers.
  \<^item> \<open>exited\<close>: a container of a Job exits with 0.
  \<^item> \<open>cutover\<close>: the machine has converged and is shut down.
\<close>

inductive cbt_reach :: "(string \<Rightarrow> string \<Rightarrow> disk) \<Rightarrow> AHVMigration \<Rightarrow> nat \<Rightarrow> cbt_world \<Rightarrow> bool"
  for nfs :: "string \<Rightarrow> string \<Rightarrow> disk" and mig :: AHVMigration and i :: nat where
  imported: "PendingSnapshotUUID st = [] \<Longrightarrow> stPhase st \<noteq> doneMark False \<Longrightarrow> distinct (DataVolumeRefs st) \<Longrightarrow>
    length (DataVolumeRefs st) = length (SnapshotPaths st) \<Longrightarrow>
    (\<And>d. d < length (SnapshotPaths st) \<Longrightarrow> agrees (dirty d) (snapshotAt nfs (SnapshotPaths st ! d))
       (snapshotAt nfs (SnapshotPaths st ! d)) (claims (DataVolumeRefs st ! d))) \<Longrightarrow>
    sum_list (map (int \<circ> length \<circ> snapshotAt nfs) (SnapshotPaths st)) < 2 ^ 63 \<Longrightarrow>
    cbt_reach nfs mig i \<lparr>wFinal = False, wStatus = st, wClaims = claims, wJobs = [], wExited = {}, wDirty = dirty,
      wSkipped = {}, wExhausted = False\<rparr>"
| reconcile: "cbt_reach nfs mig i w \<Longrightarrow> truthful nfs (dirtyAt w) E prism \<Longrightarrow>
    run_state (advanceVM E mig prism (wFinal w) i (wStatus w)) t = (Next (st', dn), t @ es) \<Longrightarrow> list_all fresh_create es \<Longrightarrow>
    (\<And>n. list_ex (job_over mig n) es \<Longrightarrow> n \<in> wExited w) \<Longrightarrow> cbt_reach nfs mig i (reconciled nfs mig w st' es)"
| killed: "cbt_reach nfs mig i w \<Longrightarrow> cj \<in> set (wJobs w) \<Longrightarrow> pod nfs (wClaims w) cj fs \<Longrightarrow>
    parseFlags defaultFlags (tl (podArgs (snd cj))) = Inr fl \<Longrightarrow> mounted fl fs rs src out \<Longrightarrow>
    ds_reach src rs (fWorkers fl) out (ts, out') \<Longrightarrow>
    cbt_reach nfs mig i (w\<lparr>wClaims := (wClaims w)(jobClaim (snd cj) := out')\<rparr>)"
| exited: "cbt_reach nfs mig i w \<Longrightarrow> cj \<in> set (wJobs w) \<Longrightarrow> pod nfs (wClaims w) cj fs \<Longrightarrow>
    operatorMain (podArgs (snd cj)) fs = Some (Exit 0, Some out') \<Longrightarrow>
    cbt_reach nfs mig i (w\<lparr>wClaims := (wClaims w)(jobClaim (snd cj) := out'), wExited := insert (jobName (snd cj)) (wExited w)\<rparr>)"
| cutover: "cbt_reach nfs mig i w \<Longrightarrow> stPhase (wStatus w) = doneMark False \<Longrightarrow> ph \<in> {doneMark False, ''ShuttingDown''} \<Longrightarrow>
    cbt_reach nfs mig i (w\<lparr>wFinal := True, wStatus := (wStatus w)\<lparr>stPhase := ph\<rparr>\<rparr>)"

section \<open>The invariant\<close>

lemma agrees_nth:
  assumes "agrees S a a out"
  shows "length a \<le> length out \<and> (\<forall>p<length a. p \<in> S \<or> out ! p = a ! p)"
  using assms unfolding agrees_def by (auto simp: byteAt_nth)

lemma agrees_refreshed:
  assumes "agrees (S \<union> D) old new out" "delta_ok D rs old new" "refreshed new rs out out'"
  shows "agrees S new new out'"
  unfolding agrees_def
proof (intro conjI allI impI)
  fix p assume p: "p < length new"
  have o: "p \<in> S \<or> p \<in> D \<or> byteAt out p \<in> {byteAt old p, byteAt new p}" using assms(1) p by (auto simp: agrees_def)
  have r: "byteAt out' p = byteAt new p \<or> \<not> covered rs (int p) \<and> byteAt out' p = byteAt out p"
    using assms(3) p unfolding refreshed_def by (metis linorder_not_le)
  have c: "p \<in> D \<or> byteAt old p \<noteq> byteAt new p \<longrightarrow> covered rs (int p)"
    using assms(2) unfolding delta_ok_def changedBytes_def by blast
  from o r c show "p \<in> S \<or> byteAt out' p \<in> {byteAt new p, byteAt new p}" by auto
qed (use assms in \<open>simp_all add: agrees_def refreshed_def\<close>)

lemma agrees_between:
  assumes "agrees S old new out" "delta_ok D rs old' new" "between new (prepareRegions rs) out out'"
  shows "agrees S old new out'"
  unfolding agrees_def
proof (intro conjI allI impI)
  fix p assume "p < length old"
  then have o: "p \<in> S \<or> byteAt out p \<in> {byteAt old p, byteAt new p}" using assms(1) by (simp add: agrees_def)
  have "byteAt out' p = byteAt out p \<or> byteAt out' p = byteAt new p"
    using assms(2,3) prepared_content [of rs new _ p] unfolding between_def delta_ok_def by metis
  with o show "p \<in> S \<or> byteAt out' p \<in> {byteAt old p, byteAt new p}" by auto
qed (use assms in \<open>simp_all add: agrees_def between_def\<close>)

subsection \<open>Totals\<close>

abbreviation diskBytes :: "(string \<Rightarrow> string \<Rightarrow> disk) \<Rightarrow> string list \<Rightarrow> int" where
  "diskBytes nfs paths \<equiv> sum_list (map (int \<circ> length \<circ> snapshotAt nfs) paths)"

lemma round_delta_sizes:
  assumes "round_delta nfs D base paths drs tb"
  shows "map (int \<circ> length \<circ> snapshotAt nfs) paths = map (int \<circ> length \<circ> snapshotAt nfs) base"
  using assms by (auto simp: round_delta_def delta_ok_def list_eq_iff_nth_eq)

lemma round_delta_total:
  assumes "round_delta nfs D base paths drs tb" "diskBytes nfs base < 2 ^ 63"
  shows "tb = sum_list (map bytes drs)"
proof -
  have len: "length drs = length base" and tb: "tb = fold (\<lambda>rs t. wrap64 (t + totalRegionBytes rs)) drs 0"
    and ok: "\<And>d. d < length base \<Longrightarrow> delta_ok (D (base ! d)) (drs ! d) (snapshotAt nfs (base ! d)) (snapshotAt nfs (paths ! d))"
    using assms(1) by (auto simp: round_delta_def)
  have sz: "length (snapshotAt nfs (paths ! d)) = length (snapshotAt nfs (base ! d))" if "d < length base" for d
    using ok [OF that] by (simp add: delta_ok_def)
  have le: "sum_list (map bytes drs) \<le> diskBytes nfs base"
    by (rule sum_list_mono2) (use len ok sz delta_ok_bytes(2) in \<open>fastforce simp: len\<close>)+
  have member: "int (length (snapshotAt nfs (base ! d))) \<le> diskBytes nfs base" if "d < length base" for d
    by (rule member_le_sum_list) (use that in auto)
  have total: "totalRegionBytes rs = bytes rs \<and> 0 \<le> bytes rs" if rs: "rs \<in> set drs" for rs
  proof -
    from rs obtain d where d: "d < length base" "rs = drs ! d" using len by (metis in_set_conv_nth)
    show ?thesis
      using totalRegionBytes_bytes [OF ok [OF d(1)]] delta_ok_bytes(1) [OF ok [OF d(1)]] member [OF d(1)] sz [OF d(1)] assms(2) d(2)
      by auto
  qed
  have m: "map totalRegionBytes drs = map bytes drs" using total by simp
  have "fold (\<lambda>rs t. wrap64 (t + totalRegionBytes rs)) drs 0 = 0 + sum_list (map totalRegionBytes drs)"
    by (rule fold_wrap64, unfold m) (use total le assms(2) in simp_all)
  then show ?thesis unfolding tb m by simp
qed

lemma nothing_changed:
  assumes "length old = length new" "changedBytes D old new = {}"
  shows "old = new \<and> D = {}"
proof
  have "byteAt old p = byteAt new p" for p using assms(2) by (auto simp: changedBytes_def)
  then show "old = new" using assms(1) by (rule disk_eqI [rotated])
qed (use assms(2) in \<open>auto simp: changedBytes_def\<close>)

lemma round_delta_zero:
  assumes "round_delta nfs D base paths drs 0" "diskBytes nfs base < 2 ^ 63" "d < length base"
  shows "snapshotAt nfs (base ! d) = snapshotAt nfs (paths ! d) \<and> D (base ! d) = {}"
proof (rule nothing_changed)
  have ok: "delta_ok (D (base ! k)) (drs ! k) (snapshotAt nfs (base ! k)) (snapshotAt nfs (paths ! k))" if "k < length base" for k
    using assms(1) that by (simp add: round_delta_def)
  have len: "length drs = length base" using assms(1) by (simp add: round_delta_def)
  have "bytes (drs ! d) \<le> sum_list (map bytes drs)"
    by (rule member_le_sum_list) (use len assms(3) ok delta_ok_bytes(1) in \<open>force simp: in_set_conv_nth\<close>)+
  then have z: "bytes (drs ! d) \<le> 0" using round_delta_total [OF assms(1,2)] by simp
  show "length (snapshotAt nfs (base ! d)) = length (snapshotAt nfs (paths ! d))"
    using ok [OF assms(3)] by (simp add: delta_ok_def)
  have "card (changedBytes (D (base ! d)) (snapshotAt nfs (base ! d)) (snapshotAt nfs (paths ! d))) = 0"
    using diff_card(2) [OF ok [OF assms(3)]] z by linarith
  then show "changedBytes (D (base ! d)) (snapshotAt nfs (base ! d)) (snapshotAt nfs (paths ! d)) = {}"
    using diff_card(1) [OF ok [OF assms(3)]] by simp
qed

lemma busyDisks_rest:
  assumes "round_delta nfs D base paths drs tb" "d < length base" "d \<notin> set (busyDisks drs)"
  shows "snapshotAt nfs (base ! d) = snapshotAt nfs (paths ! d) \<and> D (base ! d) = {}"
proof (rule nothing_changed)
  have ok: "delta_ok (D (base ! d)) (drs ! d) (snapshotAt nfs (base ! d)) (snapshotAt nfs (paths ! d))"
    using assms(1,2) by (simp add: round_delta_def)
  then show "length (snapshotAt nfs (base ! d)) = length (snapshotAt nfs (paths ! d))" by (simp add: delta_ok_def)
  have "prepareRegions (drs ! d) = []" using assms by (auto simp: busyDisks_def round_delta_def)
  then have "\<not> covered (drs ! d) p" for p using ok prepared_covered [of "drs ! d" p] by (auto simp: delta_ok_def)
  then show "changedBytes (D (base ! d)) (snapshotAt nfs (base ! d)) (snapshotAt nfs (paths ! d)) = {}"
    using ok unfolding delta_ok_def by blast
qed

subsection \<open>Claims and Jobs\<close>

abbreviation baseDisk :: "(string \<Rightarrow> string \<Rightarrow> disk) \<Rightarrow> VMStatus \<Rightarrow> nat \<Rightarrow> disk" where
  "baseDisk nfs st d \<equiv> snapshotAt nfs (SnapshotPaths st ! d)"

abbreviation pendingDisk :: "(string \<Rightarrow> string \<Rightarrow> disk) \<Rightarrow> VMStatus \<Rightarrow> nat \<Rightarrow> disk" where
  "pendingDisk nfs st d \<equiv> snapshotAt nfs (PendingSnapshotPaths st ! d)"

abbreviation claimOf :: "cbt_world \<Rightarrow> nat \<Rightarrow> disk" where
  "claimOf w d \<equiv> wClaims w (DataVolumeRefs (wStatus w) ! d)"

abbreviation stale :: "cbt_world \<Rightarrow> nat \<Rightarrow> nat set" where
  "stale w d \<equiv> {p. (d, p) \<in> wSkipped w}"

abbreviation roundName :: "AHVMigration \<Rightarrow> nat \<Rightarrow> VMStatus \<Rightarrow> nat \<Rightarrow> string" where
  "roundName mig i st d \<equiv> deltaSyncName (Name mig) (int i) (int d) (roundNumber st)"

text \<open>The Jobs of the round under way, for the disks \<open>ds\<close> with regions \<open>drs\<close>.\<close>

definition round_jobs :: "(string \<Rightarrow> string \<Rightarrow> disk) \<Rightarrow> (nat \<Rightarrow> nat set) \<Rightarrow> AHVMigration \<Rightarrow> nat \<Rightarrow> VMStatus \<Rightarrow> (ConfigMap \<times> Job) list \<Rightarrow> ChangedRegion list list \<Rightarrow> nat list \<Rightarrow> bool" where
  "round_jobs nfs D mig i st jobs drs ds \<longleftrightarrow>
     (\<exists>E. jobs = map (\<lambda>d. (roundMap mig i (roundNumber st) drs d, roundJob E mig i (roundNumber st) st (PendingSnapshotPaths st) d)) ds) \<and>
     set ds \<subseteq> {..<length (SnapshotPaths st)} \<and> set (map (roundName mig i st) ds) \<subseteq> set (SyncJobRefs st) \<and>
     (\<forall>d<length (SnapshotPaths st). delta_ok (D d) (drs ! d) (baseDisk nfs st d) (pendingDisk nfs st d) \<and>
        (d \<in> set ds \<or> baseDisk nfs st d = pendingDisk nfs st d \<and> D d = {}))"

definition claims_ok :: "(string \<Rightarrow> string \<Rightarrow> disk) \<Rightarrow> AHVMigration \<Rightarrow> nat \<Rightarrow> cbt_world \<Rightarrow> nat \<Rightarrow> bool" where
  "claims_ok nfs mig i w d \<longleftrightarrow> (let st = wStatus w in
     agrees (stale w d \<union> wDirty w d) (baseDisk nfs st d) (pendingDisk nfs st d) (claimOf w d) \<and>
     (roundName mig i st d \<in> wExited w \<longrightarrow> agrees (stale w d) (pendingDisk nfs st d) (pendingDisk nfs st d) (claimOf w d)))"

definition sync_inv :: "(string \<Rightarrow> string \<Rightarrow> disk) \<Rightarrow> AHVMigration \<Rightarrow> nat \<Rightarrow> cbt_world \<Rightarrow> bool" where
  "sync_inv nfs mig i w \<longleftrightarrow> (let st = wStatus w; n = length (SnapshotPaths st) in
     distinct (DataVolumeRefs st) \<and> length (DataVolumeRefs st) = n \<and> diskBytes nfs (SnapshotPaths st) < 2 ^ 63 \<and>
     (if PendingSnapshotUUID st = [] then wJobs w = [] \<and> (\<forall>d<n. agrees (stale w d \<union> wDirty w d) (baseDisk nfs st d) (baseDisk nfs st d) (claimOf w d))
      else length (PendingSnapshotPaths st) = n \<and> (stPhase st = doneMark True \<longrightarrow> wJobs w = []) \<and>
        (\<exists>drs ds. round_jobs nfs (wDirty w) mig i st (wJobs w) drs ds) \<and> (\<forall>d<n. claims_ok nfs mig i w d)))"

text \<open>What the container of a Job of the round sees and does.\<close>

lemma pod_files:
  assumes "pod nfs claims (roundMap mig i rnd drs d, roundJob E mig i rnd st paths d) fs"
  shows "fsText fs (fRegions (jobFlags mig (paths ! d))) = Some (renderRegions (prepareRegions (drs ! d)))"
    "fsDisk fs (fSourceFile (jobFlags mig (paths ! d))) = Some (snapshotAt nfs (paths ! d))"
    "fsDisk fs (fTarget (jobFlags mig (paths ! d))) = Some (claims (DataVolumeRefs st ! d))"
  using pod_view_files [OF assms [unfolded pod_def fst_conv snd_conv]] by (auto simp: snapshotAt_def)

lemma pod_loads:
  assumes "pod nfs claims (roundMap mig i rnd drs d, roundJob E mig i rnd st paths d) fs"
    "delta_ok D (drs ! d) old (snapshotAt nfs (paths ! d))"
  shows "mounted (jobFlags mig (paths ! d)) fs (prepareRegions (drs ! d)) (snapshotAt nfs (paths ! d)) (claims (DataVolumeRefs st ! d))"
  using pod_files [OF assms(1)] jobFlags_run prepareRegions_wire [of "drs ! d"] assms(2)
  by (auto simp: mounted_def delta_ok_def intro!: loadRegions_render)

lemma mounted_unique:
  assumes "mounted fl fs rs src out" "mounted fl fs rs' src' out'"
  shows "rs = rs' \<and> src = src' \<and> out = out'"
  using assms by (auto simp: mounted_def)

lemma job_facts [simp]:
  "jobClaim (buildDeltaSyncJob E mig i d rnd snap nfsServer pvc) = pvc"
  "jobName (buildDeltaSyncJob E mig i d rnd snap nfsServer pvc) = deltaSyncName (Name mig) i d rnd"
  by (simp_all add: jobClaim_def buildDeltaSyncJob_def Let_def)

lemma delta_job_ok:
  assumes "delta_ok D rs old new" "length new \<le> length out"
  shows "job_ok new (prepareRegions rs) (length out)"
  using assms by (intro prepared_job_ok) (simp_all add: delta_ok_def)

lemma pod_killed:
  assumes "pod nfs claims (roundMap mig i rnd drs d, roundJob E mig i rnd st paths d) fs"
    "delta_ok D (drs ! d) old (snapshotAt nfs (paths ! d))" "length (snapshotAt nfs (paths ! d)) \<le> length (claims (DataVolumeRefs st ! d))"
    "parseFlags defaultFlags (tl (podArgs (roundJob E mig i rnd st paths d))) = Inr fl" "mounted fl fs rs src out"
    "ds_reach src rs (fWorkers fl) out (ts, out')"
  shows "between (snapshotAt nfs (paths ! d)) (prepareRegions (drs ! d)) (claims (DataVolumeRefs st ! d)) out'"
proof -
  have fl: "fl = jobFlags mig (paths ! d)" using assms(4) unfolding parse_flags_of_job by simp
  note m = mounted_unique [OF assms(5) [unfolded fl] pod_loads [OF assms(1,2)]]
  have "ds_inv (snapshotAt nfs (paths ! d)) (prepareRegions (drs ! d)) (claims (DataVolumeRefs st ! d)) (ts, out')"
    using ds_reach_inv [OF assms(6)] delta_job_ok [OF assms(2,3)] m by simp
  then show ?thesis by (simp add: ds_inv_def)
qed

lemma pod_exited:
  assumes "pod nfs claims (roundMap mig i rnd drs d, roundJob E mig i rnd st paths d) fs"
    "delta_ok D (drs ! d) old (snapshotAt nfs (paths ! d))" "length (snapshotAt nfs (paths ! d)) \<le> length (claims (DataVolumeRefs st ! d))"
    "operatorMain (podArgs (roundJob E mig i rnd st paths d)) fs = Some (Exit 0, Some out')"
  shows "refreshed (snapshotAt nfs (paths ! d)) (drs ! d) (claims (DataVolumeRefs st ! d)) out'"
proof -
  note m = pod_loads [OF assms(1,2)]
  from syncAll_synced [OF delta_job_ok [OF assms(2,3)]] obtain out where
    s: "syncAll (snapshotAt nfs (paths ! d)) (claims (DataVolumeRefs st ! d)) (prepareRegions (drs ! d)) = (out, 0)"
    and y: "synced (snapshotAt nfs (paths ! d)) (prepareRegions (drs ! d)) (claims (DataVolumeRefs st ! d)) out" by blast
  have "out' = out" using assms(4) runDeltaSync_mounted [OF m s] unfolding operatorMain_job by simp
  then show ?thesis using synced_refreshed [OF _ _ _ y] assms(2) by (simp add: delta_ok_def)
qed

subsection \<open>Every step keeps the invariant\<close>

lemma sync_inv_fields:
  assumes "sync_inv nfs mig i w" "wStatus w' = wStatus w" "wClaims w' = wClaims w" "wJobs w' = wJobs w"
    "wExited w' = wExited w" "wDirty w' = wDirty w" "wSkipped w' = wSkipped w"
  shows "sync_inv nfs mig i w'"
proof -
  have c: "claims_ok nfs mig i w' = claims_ok nfs mig i w" by (rule ext) (simp add: claims_ok_def assms(2-))
  show ?thesis using assms(1) unfolding sync_inv_def Let_def assms(2-) c .
qed

lemma dirtyAt_base: "d < length (SnapshotPaths (wStatus w)) \<Longrightarrow> wDirty w d \<subseteq> dirtyAt w (SnapshotPaths (wStatus w) ! d)"
  by (auto simp: dirtyAt_def)

lemma delta_ok_mono: "delta_ok D rs old new \<Longrightarrow> D' \<subseteq> D \<Longrightarrow> delta_ok D' rs old new"
  by (auto simp: delta_ok_def changedBytes_def)

lemma round_delta_disk:
  assumes "round_delta nfs (dirtyAt w) (SnapshotPaths (wStatus w)) paths drs tb" "d < length (SnapshotPaths (wStatus w))"
  shows "delta_ok (wDirty w d) (drs ! d) (baseDisk nfs (wStatus w) d) (snapshotAt nfs (paths ! d))"
  by (rule delta_ok_mono [OF _ dirtyAt_base [OF assms(2)]]) (use assms in \<open>simp add: round_delta_def\<close>)

lemma inv_converged:
  assumes inv: "sync_inv nfs mig i w" "PendingSnapshotUUID (wStatus w) = []" and c: "converged nfs (dirtyAt w) mig (wStatus w) st'"
  shows "sync_inv nfs mig i (w\<lparr>wStatus := st', wDirty := \<lambda>d. {}, wSkipped := wSkipped w \<union> skippedBytes nfs w st'\<rparr>)"
proof -
  from c obtain snap paths drs tb where rd: "round_delta nfs (dirtyAt w) (SnapshotPaths (wStatus w)) paths drs tb"
    and st': "st' = (wStatus w)\<lparr>LastDeltaBytes := tb, LastSnapshotUUID := snap, SnapshotPaths := paths, stPhase := doneMark False\<rparr>"
    unfolding converged_def by blast
  have len: "length paths = length (SnapshotPaths (wStatus w))" using rd by (simp add: round_delta_def)
  have "agrees {p. (d, p) \<in> wSkipped w \<or> (d, p) \<in> skippedBytes nfs w st'} (snapshotAt nfs (paths ! d)) (snapshotAt nfs (paths ! d))
      (claimOf w d)" if d: "d < length paths" for d
  proof -
    have "agrees (stale w d \<union> wDirty w d) (baseDisk nfs (wStatus w) d) (baseDisk nfs (wStatus w) d) (claimOf w d)"
      using inv d len by (simp add: sync_inv_def Let_def)
    moreover have "length (snapshotAt nfs (paths ! d)) = length (baseDisk nfs (wStatus w) d)"
      using round_delta_disk [OF rd] d len by (simp add: delta_ok_def)
    ultimately show ?thesis using d len by (auto simp: agrees_def skippedBytes_def st' changedBytes_def)
  qed
  then show ?thesis
    using inv len round_delta_sizes [OF rd] by (simp add: sync_inv_def Let_def st')
qed

text \<open>The start of a round leaves the claims alone; the pending snapshot is at most further ahead.\<close>

lemma inv_started:
  assumes inv: "sync_inv nfs mig i w" "PendingSnapshotUUID (wStatus w) = []"
    and rd: "round_delta nfs (dirtyAt w) (SnapshotPaths (wStatus w)) paths drs tb"
    and st': "snap \<noteq> []" "st' = (wStatus w)\<lparr>LastDeltaBytes := tb, PendingSnapshotUUID := snap, PendingSnapshotPaths := paths,
      SyncJobRefs := refs, stPhase := ph\<rparr>"
    and jobs: "round_jobs nfs (wDirty w) mig i st' js drs ds" "ph = doneMark True \<longrightarrow> js = []"
  shows "sync_inv nfs mig i (w\<lparr>wStatus := st', wJobs := js, wExited := {}\<rparr>)"
proof -
  have len: "length paths = length (SnapshotPaths (wStatus w))" using rd by (simp add: round_delta_def)
  have "agrees (stale w d \<union> wDirty w d) (baseDisk nfs (wStatus w) d) (snapshotAt nfs (paths ! d)) (claimOf w d)" if d: "d < length paths" for d
  proof -
    have "agrees (stale w d \<union> wDirty w d) (baseDisk nfs (wStatus w) d) (baseDisk nfs (wStatus w) d) (claimOf w d)"
      using inv d len by (simp add: sync_inv_def Let_def)
    moreover have "length (snapshotAt nfs (paths ! d)) = length (baseDisk nfs (wStatus w) d)"
      using round_delta_disk [OF rd] d len by (simp add: delta_ok_def)
    ultimately show ?thesis by (auto simp: agrees_def)
  qed
  then show ?thesis
    using inv len st' jobs by (auto simp: sync_inv_def Let_def claims_ok_def)
qed

lemma inv_unchanged:
  assumes inv: "sync_inv nfs mig i w" "PendingSnapshotUUID (wStatus w) = []" and u: "unchanged nfs (dirtyAt w) (wStatus w) st'"
  shows "sync_inv nfs mig i (w\<lparr>wStatus := st', wJobs := [], wExited := {}\<rparr>)"
proof -
  from u obtain snap paths drs where rd: "round_delta nfs (dirtyAt w) (SnapshotPaths (wStatus w)) paths drs 0"
    and st': "snap \<noteq> []" "st' = (wStatus w)\<lparr>LastDeltaBytes := 0, PendingSnapshotUUID := snap, PendingSnapshotPaths := paths,
      SyncJobRefs := SyncJobRefs (wStatus w), stPhase := doneMark True\<rparr>"
    unfolding unchanged_def by auto
  have big: "diskBytes nfs (SnapshotPaths (wStatus w)) < 2 ^ 63" using inv by (simp add: sync_inv_def Let_def)
  have "baseDisk nfs (wStatus w) d = snapshotAt nfs (paths ! d) \<and> wDirty w d = {}" if "d < length (SnapshotPaths (wStatus w))" for d
    using round_delta_zero [OF rd big that] dirtyAt_base [OF that] by auto
  then have "round_jobs nfs (wDirty w) mig i st' [] drs []"
    using round_delta_disk [OF rd] by (simp add: round_jobs_def st')
  then show ?thesis by (intro inv_started [OF inv rd st']) simp_all
qed

lemma inv_copying:
  assumes inv: "sync_inv nfs mig i w" "PendingSnapshotUUID (wStatus w) = []"
    and c: "copying nfs (dirtyAt w) E mig i (wStatus w) st' cms js"
  shows "sync_inv nfs mig i (w\<lparr>wStatus := st', wJobs := zip cms js, wExited := {}\<rparr>)"
proof -
  let ?st = "wStatus w"
  from c obtain snap paths drs tb where rd: "round_delta nfs (dirtyAt w) (SnapshotPaths ?st) paths drs tb"
    and js: "zip cms js = map (\<lambda>d. (roundMap mig i (roundNumber ?st) drs d, roundJob E mig i (roundNumber ?st) ?st paths d)) (busyDisks drs)"
    and st': "snap \<noteq> []" "st' = ?st\<lparr>LastDeltaBytes := tb, PendingSnapshotUUID := snap, PendingSnapshotPaths := paths,
      SyncJobRefs := map (roundName mig i ?st) (busyDisks drs), stPhase := ''DeltaSyncing''\<rparr>"
    unfolding copying_def by (auto simp: zip_map_map zip_same_conv_map)
  have rest: "baseDisk nfs ?st d = snapshotAt nfs (paths ! d) \<and> wDirty w d = {}"
    if "d < length (SnapshotPaths ?st)" "d \<notin> set (busyDisks drs)" for d
    using busyDisks_rest [OF rd that] dirtyAt_base [OF that(1)] by auto
  have "set (busyDisks drs) \<subseteq> {..<length (SnapshotPaths ?st)}" using rd by (auto simp: busyDisks_def round_delta_def)
  then have "round_jobs nfs (wDirty w) mig i st' (zip cms js) drs (busyDisks drs)"
    using round_delta_disk [OF rd] rest unfolding js by (auto simp: round_jobs_def st' roundNumber_def)
  then show ?thesis by (intro inv_started [OF inv rd st']) (simp_all add: doneMark_def)
qed

lemma inv_promote:
  assumes inv: "sync_inv nfs mig i w" "PendingSnapshotUUID (wStatus w) \<noteq> []"
    and over: "\<forall>n\<in>set (SyncJobRefs (wStatus w)). n \<in> wExited w"
  shows "sync_inv nfs mig i (w\<lparr>wStatus := promoteVM final (wStatus w), wJobs := [], wDirty := \<lambda>d. {}\<rparr>)"
proof -
  let ?st = "wStatus w"
  from inv obtain drs ds where j: "round_jobs nfs (wDirty w) mig i ?st (wJobs w) drs ds" by (auto simp: sync_inv_def Let_def)
  have sz: "length (PendingSnapshotPaths ?st) = length (SnapshotPaths ?st)" using inv by (simp add: sync_inv_def Let_def)
  have agree: "agrees (stale w d) (pendingDisk nfs ?st d) (pendingDisk nfs ?st d) (claimOf w d)" if d: "d < length (SnapshotPaths ?st)" for d
  proof -
    have ok: "claims_ok nfs mig i w d" using inv d by (simp add: sync_inv_def Let_def)
    show ?thesis
    proof (cases "d \<in> set ds")
      case True
      then have "roundName mig i ?st d \<in> wExited w" using j over by (auto simp: round_jobs_def)
      then show ?thesis using ok by (simp add: claims_ok_def Let_def)
    next
      case False
      then have "baseDisk nfs ?st d = pendingDisk nfs ?st d" "wDirty w d = {}" using j d by (auto simp: round_jobs_def)
      then show ?thesis using ok by (simp add: claims_ok_def Let_def)
    qed
  qed
  have "map (int \<circ> length \<circ> snapshotAt nfs) (PendingSnapshotPaths ?st) = map (int \<circ> length \<circ> snapshotAt nfs) (SnapshotPaths ?st)"
    using j sz by (auto simp: round_jobs_def delta_ok_def list_eq_iff_nth_eq)
  with agree show ?thesis
    using inv sz by (simp add: sync_inv_def Let_def promoteVM_def)
qed

lemma inv_claim:
  assumes inv: "sync_inv nfs mig i w" "PendingSnapshotUUID (wStatus w) \<noteq> []" and d: "d < length (SnapshotPaths (wStatus w))"
    and X: "X \<subseteq> insert (roundName mig i (wStatus w) d) (wExited w)"
    and new: "claims_ok nfs mig i (w\<lparr>wClaims := (wClaims w)(DataVolumeRefs (wStatus w) ! d := out'), wExited := X\<rparr>) d"
  shows "sync_inv nfs mig i (w\<lparr>wClaims := (wClaims w)(DataVolumeRefs (wStatus w) ! d := out'), wExited := X\<rparr>)"
proof -
  let ?w = "w\<lparr>wClaims := (wClaims w)(DataVolumeRefs (wStatus w) ! d := out'), wExited := X\<rparr>"
  have "claims_ok nfs mig i ?w k" if k: "k < length (SnapshotPaths (wStatus w))" for k
  proof (cases "k = d")
    case False
    have dv: "DataVolumeRefs (wStatus w) ! k \<noteq> DataVolumeRefs (wStatus w) ! d"
      using inv d k False by (simp add: sync_inv_def Let_def nth_eq_iff_index_eq)
    have "roundName mig i (wStatus w) k \<noteq> roundName mig i (wStatus w) d"
      using delta_names.name_inj [of "int i" "int k" "int i" "int d"] False by auto
    then have "roundName mig i (wStatus w) k \<in> X \<Longrightarrow> roundName mig i (wStatus w) k \<in> wExited w" using X by blast
    moreover have "claims_ok nfs mig i w k" using inv k by (simp add: sync_inv_def Let_def)
    ultimately show ?thesis using dv by (auto simp: claims_ok_def Let_def)
  qed (use new in simp)
  then show ?thesis using inv by (simp add: sync_inv_def Let_def)
qed

lemma advanced_run:
  assumes "truthful nfs D E prism" "run_state (advanceVM E mig prism final i st) t = (Next (st', dn), t @ es)"
  shows "advanced nfs D E mig final i st st' es"
  using advanceVM_delta [OF assms(1), of mig final i st] assms(2) unfolding wp_def by (auto dest: spec [of _ t])

lemma skippedBytes_none: "stPhase st' \<noteq> doneMark False \<Longrightarrow> skippedBytes nfs w st' = {}"
  by (simp add: skippedBytes_def)

lemma doneMark_phase: "doneMark final \<noteq> ''DeltaSyncing''" "doneMark final \<noteq> ''ShuttingDown''" "doneMark True \<noteq> doneMark False"
  by (simp_all add: doneMark_def)

lemma phase_after:
  "converged nfs D mig st st' \<Longrightarrow> stPhase st' = doneMark False"
  "unchanged nfs D st st' \<Longrightarrow> stPhase st' \<noteq> doneMark False"
  "copying nfs D E mig i st st' cms jobs \<Longrightarrow> stPhase st' \<noteq> doneMark False"
  using doneMark_phase(1) [of False] by (auto simp: converged_def unchanged_def copying_def doneMark_phase(3))

lemma inv_reconcile:
  assumes inv: "sync_inv nfs mig i w" and clean: "stPhase (wStatus w) = doneMark False \<Longrightarrow> wDirty w = (\<lambda>d. {})"
    and adv: "advanced nfs (dirtyAt w) E mig (wFinal w) i (wStatus w) st' es"
    and over: "\<And>n. list_ex (job_over mig n) es \<Longrightarrow> n \<in> wExited w"
  shows "sync_inv nfs mig i (reconciled nfs mig w st' es)"
proof (cases "PendingSnapshotUUID (wStatus w) = []")
  case True
  from adv True consider "st' = wStatus w" "es = []" | "jobsOf es = []" "converged nfs (dirtyAt w) mig (wStatus w) st'"
    | "jobsOf es = []" "unchanged nfs (dirtyAt w) (wStatus w) st'" | "copying nfs (dirtyAt w) E mig i (wStatus w) st' (configMapsOf es) (jobsOf es)"
    by (auto simp: advanced_def)
  then show ?thesis
  proof cases
    case 1
    then have "skippedBytes nfs w st' = {}" using clean by (auto simp: skippedBytes_def changedBytes_def)
    with 1 clean inv True show ?thesis by (auto simp: reconciled_def sync_inv_def Let_def)
  next
    case 2
    have p: "PendingSnapshotUUID st' = []" "stPhase st' = doneMark False" using 2(2) True by (auto simp: converged_def)
    show ?thesis
      using inv_converged [OF inv True 2(2)] True p 2(1) by (simp add: reconciled_def sync_inv_def Let_def)
  next
    case 3
    then have "stPhase st' \<noteq> doneMark False" by (simp add: phase_after)
    then show ?thesis
      by (intro sync_inv_fields [OF inv_unchanged [OF inv True 3(2)]]) (simp_all add: reconciled_def True 3(1) skippedBytes_none)
  next
    case 4
    then have "stPhase st' \<noteq> doneMark False" by (simp add: phase_after)
    then show ?thesis
      by (intro sync_inv_fields [OF inv_copying [OF inv True 4]]) (simp_all add: reconciled_def True skippedBytes_none)
  qed
next
  case False
  with adv have "st' = wStatus w \<or> st' = promoteVM (wFinal w) (wStatus w) \<and> (\<forall>n\<in>set (SyncJobRefs (wStatus w)). n \<in> wExited w)"
    using over by (auto simp: advanced_def list_all_iff)
  then show ?thesis using inv_promote [OF inv False, of "wFinal w"] inv False by (auto simp: reconciled_def promoteVM_def)
qed

subsection \<open>What convergence costs\<close>

lemma card_skipped:
  assumes "converged nfs (dirtyAt w) mig (wStatus w) st'" "diskBytes nfs (SnapshotPaths (wStatus w)) < 2 ^ 63"
  shows "finite (skippedBytes nfs w st')"
    "int (card (skippedBytes nfs w st')) \<le> deltaSyncThresholdBytes mig \<or> maxDeltaRounds mig \<le> DeltaRounds (wStatus w)"
proof -
  let ?st = "wStatus w"
  from assms(1) obtain snap paths drs tb where rd: "round_delta nfs (dirtyAt w) (SnapshotPaths ?st) paths drs tb"
    and lim: "tb \<le> deltaSyncThresholdBytes mig \<or> maxDeltaRounds mig \<le> DeltaRounds ?st"
    and st': "SnapshotPaths st' = paths" "stPhase st' = doneMark False"
    unfolding converged_def by auto
  let ?n = "length (SnapshotPaths ?st)" and ?B = "\<lambda>d. changedBytes (wDirty w d) (baseDisk nfs ?st d) (baseDisk nfs st' d)"
  have ok: "delta_ok (wDirty w d) (drs ! d) (baseDisk nfs ?st d) (baseDisk nfs st' d)" if "d < ?n" for d
    using round_delta_disk [OF rd that] by (simp add: st')
  have S: "skippedBytes nfs w st' = (SIGMA d:{..<?n}. ?B d)" by (auto simp: skippedBytes_def st'(2))
  have fin: "\<forall>d\<in>{..<?n}. finite (?B d)" using diff_card(1) [OF ok] by simp
  show "finite (skippedBytes nfs w st')" unfolding S using fin by (intro finite_SigmaI) simp_all
  have "int (card (skippedBytes nfs w st')) = (\<Sum>d<?n. int (card (?B d)))"
    unfolding S using fin by (subst card_SigmaI) simp_all
  also have "\<dots> \<le> (\<Sum>d<?n. bytes (drs ! d))" using diff_card(2) [OF ok] by (intro sum_mono) simp
  also have "\<dots> = sum_list (map bytes drs)" using rd by (simp add: sum_list_sum_nth atLeast0LessThan round_delta_def)
  also have "\<dots> = tb" by (rule round_delta_total [OF rd assms(2), symmetric])
  finally show "int (card (skippedBytes nfs w st')) \<le> deltaSyncThresholdBytes mig \<or> maxDeltaRounds mig \<le> DeltaRounds ?st"
    using lim by auto
qed

definition skip_inv :: "AHVMigration \<Rightarrow> cbt_world \<Rightarrow> bool" where
  "skip_inv mig w \<longleftrightarrow> (if wFinal w \<or> stPhase (wStatus w) = doneMark False then wDirty w = (\<lambda>d. {}) else wSkipped w = {}) \<and>
     finite (wSkipped w) \<and> (wSkipped w = {} \<or> int (card (wSkipped w)) \<le> deltaSyncThresholdBytes mig \<or> wExhausted w)"

lemma skip_reconcile:
  assumes inv: "sync_inv nfs mig i w" and skip: "skip_inv mig w"
    and adv: "advanced nfs (dirtyAt w) E mig (wFinal w) i (wStatus w) st' es"
  shows "skip_inv mig (reconciled nfs mig w st' es)"
proof (cases "PendingSnapshotUUID (wStatus w) = []")
  case True
  have big: "diskBytes nfs (SnapshotPaths (wStatus w)) < 2 ^ 63" using inv by (simp add: sync_inv_def Let_def)
  from adv True consider "st' = wStatus w" | "\<not> wFinal w" "stPhase (wStatus w) \<noteq> doneMark False" "stPhase st' = doneMark False"
      "converged nfs (dirtyAt w) mig (wStatus w) st'"
    | "stPhase st' \<noteq> doneMark False" "wFinal w \<or> stPhase (wStatus w) \<noteq> doneMark False"
    using phase_after [of nfs "dirtyAt w"] by (cases "wFinal w") (auto simp: advanced_def)
  then show ?thesis
  proof cases
    case 1
    then have "skippedBytes nfs w st' = {}" using skip by (auto simp: skip_inv_def skippedBytes_def changedBytes_def)
    with 1 skip True show ?thesis by (auto simp: skip_inv_def reconciled_def)
  next
    case 2
    then show ?thesis using skip True card_skipped [OF 2(4) big] by (auto simp: skip_inv_def reconciled_def)
  next
    case 3
    then show ?thesis using skip True by (auto simp: skip_inv_def reconciled_def skippedBytes_none)
  qed
next
  case False
  then show ?thesis using adv skip by (auto simp: skip_inv_def reconciled_def advanced_def promoteVM_def doneMark_def)
qed

subsection \<open>Reachable worlds\<close>

lemma job_of_round:
  assumes "sync_inv nfs mig i w" "cj \<in> set (wJobs w)"
  obtains E drs d where "PendingSnapshotUUID (wStatus w) \<noteq> []" and "cj = (roundMap mig i (roundNumber (wStatus w)) drs d,
      roundJob E mig i (roundNumber (wStatus w)) (wStatus w) (PendingSnapshotPaths (wStatus w)) d)"
    and "d < length (SnapshotPaths (wStatus w))" and "claims_ok nfs mig i w d"
    and "delta_ok (wDirty w d) (drs ! d) (baseDisk nfs (wStatus w) d) (pendingDisk nfs (wStatus w) d)"
    and "length (pendingDisk nfs (wStatus w) d) \<le> length (claimOf w d)"
proof -
  have p: "PendingSnapshotUUID (wStatus w) \<noteq> []" using assms by (auto simp: sync_inv_def Let_def)
  with assms(1) obtain drs ds where j: "round_jobs nfs (wDirty w) mig i (wStatus w) (wJobs w) drs ds" by (auto simp: sync_inv_def Let_def)
  with assms(2) obtain E d where d: "d \<in> set ds" and cj: "cj = (roundMap mig i (roundNumber (wStatus w)) drs d,
      roundJob E mig i (roundNumber (wStatus w)) (wStatus w) (PendingSnapshotPaths (wStatus w)) d)"
    by (auto simp: round_jobs_def)
  have len: "d < length (SnapshotPaths (wStatus w))" using j d by (auto simp: round_jobs_def)
  have ok: "claims_ok nfs mig i w d" using assms(1) p len by (simp add: sync_inv_def Let_def)
  show ?thesis
    by (rule that [OF p cj len ok]) (use j len ok in \<open>auto simp: round_jobs_def claims_ok_def Let_def agrees_def\<close>)
qed

lemma inv_killed:
  assumes inv: "sync_inv nfs mig i w" and pod: "cj \<in> set (wJobs w)" "pod nfs (wClaims w) cj fs"
    "parseFlags defaultFlags (tl (podArgs (snd cj))) = Inr fl" "mounted fl fs rs src out" "ds_reach src rs (fWorkers fl) out (ts, out')"
  shows "sync_inv nfs mig i (w\<lparr>wClaims := (wClaims w)(jobClaim (snd cj) := out')\<rparr>)"
proof -
  from inv pod(1) show ?thesis
  proof (rule job_of_round, goal_cases)
    case (1 E drs d)
    have b: "between (pendingDisk nfs (wStatus w) d) (prepareRegions (drs ! d)) (claimOf w d) out'"
      by (rule pod_killed [OF pod(2) [unfolded 1(2)] 1(5,6) pod(3) [unfolded 1(2) snd_conv] pod(4,5)])
    have "claims_ok nfs mig i (w\<lparr>wClaims := (wClaims w)(DataVolumeRefs (wStatus w) ! d := out'), wExited := wExited w\<rparr>) d"
      using 1(4) by (auto simp: claims_ok_def Let_def intro: agrees_between [OF _ 1(5) b])
    from inv_claim [OF inv 1(1,3) _ this] show ?case by (auto simp: 1(2))
  qed
qed

lemma inv_exited:
  assumes inv: "sync_inv nfs mig i w" and pod: "cj \<in> set (wJobs w)" "pod nfs (wClaims w) cj fs"
    "operatorMain (podArgs (snd cj)) fs = Some (Exit 0, Some out')"
  shows "sync_inv nfs mig i (w\<lparr>wClaims := (wClaims w)(jobClaim (snd cj) := out'), wExited := insert (jobName (snd cj)) (wExited w)\<rparr>)"
proof -
  from inv pod(1) show ?thesis
  proof (rule job_of_round, goal_cases)
    case (1 E drs d)
    have "refreshed (pendingDisk nfs (wStatus w) d) (drs ! d) (claimOf w d) out'"
      by (rule pod_exited [OF pod(2) [unfolded 1(2)] 1(5,6) pod(3) [unfolded 1(2) snd_conv]])
    then have "agrees (stale w d) (pendingDisk nfs (wStatus w) d) (pendingDisk nfs (wStatus w) d) out'"
      using 1(4) by (intro agrees_refreshed [OF _ 1(5)]) (simp_all add: claims_ok_def Let_def)
    then have "claims_ok nfs mig i (w\<lparr>wClaims := (wClaims w)(DataVolumeRefs (wStatus w) ! d := out'),
        wExited := insert (roundName mig i (wStatus w) d) (wExited w)\<rparr>) d"
      using 1(5) by (auto simp: claims_ok_def Let_def agrees_def delta_ok_def)
    from inv_claim [OF inv 1(1,3) _ this] show ?case by (simp add: 1(2))
  qed
qed

lemma inv_phase:
  assumes "sync_inv nfs mig i w" "ph \<noteq> doneMark True"
  shows "sync_inv nfs mig i (w\<lparr>wFinal := True, wStatus := (wStatus w)\<lparr>stPhase := ph\<rparr>\<rparr>)"
proof -
  have "claims_ok nfs mig i (w\<lparr>wFinal := True, wStatus := (wStatus w)\<lparr>stPhase := ph\<rparr>\<rparr>) d = claims_ok nfs mig i w d" for d
    by (simp add: claims_ok_def Let_def roundNumber_def)
  moreover have "round_jobs nfs D mig i ((wStatus w)\<lparr>stPhase := ph\<rparr>) = round_jobs nfs D mig i (wStatus w)" for D
    by (intro ext) (simp add: round_jobs_def roundNumber_def)
  ultimately show ?thesis using assms by (simp add: sync_inv_def Let_def)
qed

lemma cbt_reach_inv: "cbt_reach nfs mig i w \<Longrightarrow> sync_inv nfs mig i w \<and> skip_inv mig w"
proof (induction rule: cbt_reach.induct)
  case (imported st dirty claims)
  then show ?case by (simp add: sync_inv_def Let_def skip_inv_def)
next
  case (reconcile w E prism t st' dn es)
  note adv = advanced_run [OF reconcile(2,3)]
  have "stPhase (wStatus w) = doneMark False \<Longrightarrow> wDirty w = (\<lambda>d. {})" using reconcile(6) by (simp add: skip_inv_def)
  with reconcile(5,6) adv show ?case by (blast intro: inv_reconcile skip_reconcile)
next
  case (killed w cj fs fl rs src out ts out')
  then show ?case by (auto simp: skip_inv_def intro: inv_killed)
next
  case (exited w cj fs out')
  then show ?case by (auto simp: skip_inv_def intro: inv_exited)
next
  case (cutover w ph)
  then show ?case using inv_phase [of nfs mig i w ph] by (auto simp: skip_inv_def doneMark_def)
qed

section \<open>The end of the synchronisation\<close>

text \<open>The snapshot that the final round has copied.\<close>

definition finalPaths :: "VMStatus \<Rightarrow> string list" where
  "finalPaths st = (if PendingSnapshotUUID st = [] then SnapshotPaths st else PendingSnapshotPaths st)"


section \<open>A complete run\<close>

text \<open>A machine with one disk and three snapshots, of which the last differs from the others.\<close>

definition sampleNfs :: "string \<Rightarrow> string \<Rightarrow> disk" where
  "sampleNfs export f = (if f = ''s2/d'' then sampleSrc else sampleBase)"

definition regionsBody :: "string \<Rightarrow> string \<Rightarrow> json" where
  "regionsBody new old = JObj [(''snapshot_file_path'', JStr new), (''reference_snapshot_file_path'', JStr old)]"

definition sampleRegions :: "json option \<Rightarrow> http_result" where
  "sampleRegions b =
     (if b = Some (regionsBody ''/c/s1/d'' ''/c/s0/d'') then ok_json (JObj [(''region_list'', JArr [])])
      else if b = Some (regionsBody ''/c/s2/d'' ''/c/s1/d'') then ok_json (JObj [(''region_list'', JArr
        [JObj [(''offset'', JInt 0), (''length'', JInt 1), (''type'', JStr ''REGULAR'')],
         JObj [(''offset'', JInt 3), (''length'', JInt 1), (''type'', JStr ''ZEROED'')]])])
      else DoErr ''unknown snapshot'')"

definition roundServer :: "string \<Rightarrow> env" where
  "roundServer snap = (cbtServer snap [])\<lparr>
     ansHttp := (\<lambda>t m url u b. if url = ''https://pc:9440/api/nutanix/v3/data/changed_regions'' then sampleRegions b
       else ansHttp (cbtServer snap []) t m url u b),
     ansGetJob := (\<lambda>t ns n. Inr [(''Complete'', ConditionTrue)])\<rparr>"

definition samplePrism :: PrismClient where
  "samplePrism = \<lparr>baseURL = ''https://pc:9440'', username = ''admin'', password = ''secret'', pe = None\<rparr>"

definition sampleVM :: VMStatus where
  "sampleVM = emptyVMStatus\<lparr>stName := ''web'', AHVUUID := ''u'', DataVolumeRefs := [''dv''], LastSnapshotUUID := ''s0'',
     SnapshotPaths := [''/c/s0/d''], stPhase := ''WarmSyncDone''\<rparr>"

definition sampleConverged :: VMStatus where
  "sampleConverged = sampleVM\<lparr>LastSnapshotUUID := ''s1'', SnapshotPaths := [''/c/s1/d''], stPhase := ''DeltaConverged''\<rparr>"

definition sampleCopying :: VMStatus where
  "sampleCopying = sampleConverged\<lparr>LastDeltaBytes := 2, PendingSnapshotUUID := ''s2'', PendingSnapshotPaths := [''/c/s2/d''],
     SyncJobRefs := [''delta-mig-0-0-r1''], stPhase := ''DeltaSyncing''\<rparr>"

definition sampleDone :: VMStatus where
  "sampleDone = sampleConverged\<lparr>LastDeltaBytes := 2, LastSnapshotUUID := ''s2'', SnapshotPaths := [''/c/s2/d''], DeltaRounds := 1,
     stPhase := ''FinalDeltaDone''\<rparr>"

text \<open>What the rules of \<open>cbt_reach\<close> ask of a run: its result, the Jobs asked for, and the Jobs created.\<close>

definition jobQueries :: "event list \<Rightarrow> string list" where
  "jobQueries es = List.map_filter (\<lambda>e. case e of GetJob ns n r \<Rightarrow> Some n | _ \<Rightarrow> None) es"

definition observed :: "env \<Rightarrow> bool \<Rightarrow> VMStatus \<Rightarrow> (VMStatus \<times> bool, outcome) ctl \<times> string list \<times> bool \<times> (ConfigMap \<times> Job) list" where
  "observed E final st = (case run_state (advanceVM E exampleMigration samplePrism final 0 st) [] of
     (r, es) \<Rightarrow> (r, jobQueries es, list_all fresh_create es, zip (configMapsOf es) (jobsOf es)))"

lemma job_over_queried: "list_ex (job_over mig n) es \<Longrightarrow> n \<in> set (jobQueries es)"
proof -
  assume "list_ex (job_over mig n) es"
  then obtain e where e: "e \<in> set es" "job_over mig n e" by (auto simp: list_ex_iff)
  from e(2) obtain ns r where "e = GetJob ns n r" by (cases e) (simp_all add: job_over_def)
  with e(1) show ?thesis by (force simp: jobQueries_def List.map_filter_def)
qed

definition sampleJob :: "ConfigMap \<times> Job" where
  "sampleJob = (buildDeltaSyncConfigMap exampleMigration 0 0 1 (prepareRegions sampleDelta),
     buildDeltaSyncJob (roundServer ''s2'') exampleMigration 0 0 1 ''/c/s2/d'' (nfsServerHost exampleMigration) ''dv'')"

text \<open>The final round is evaluated up to the creation of its Job, whose description stays folded.\<close>

lemma startRound_copies:
  assumes "run_state (CreateVMSnapshot E prism (AHVUUID st) (snapPrefix True @ ''-'' @ clip 10 (stName st) @ ''-r'' @ fmt_d (wrap32 (DeltaRounds st + 1)))) t = (Inr snap, t1)"
    and "run_state (GetVMSnapshotPaths E prism snap (AHVUUID st)) t1 = (Inr paths, t2)"
    and "run_state (deltaRegions E mig prism st paths) t2 = (Inr (regs, tb), t3)"
    and "run_state (startJobs E mig i (wrap32 (DeltaRounds st + 1)) (st\<lparr>LastDeltaBytes := tb\<rparr>) paths regs) t3 = (Inr jobs, t4)"
    and "length paths = length (SnapshotPaths st)" "tb \<noteq> 0"
  shows "run_state (startRound E mig prism True i st) t = (Next (st\<lparr>LastDeltaBytes := tb, PendingSnapshotUUID := snap,
    PendingSnapshotPaths := paths, SyncJobRefs := jobs, stPhase := ''DeltaSyncing''\<rparr>, False), t4)"
  using assms by (simp add: startRound_def Let_def)

definition snapshotStage :: "(string + string) \<times> event list" where
  "snapshotStage = run_state (CreateVMSnapshot (roundServer ''s2'') samplePrism ''u'' ''cbt-final-web-r1'') []"

definition pathsStage :: "(string + string list) \<times> event list" where
  "pathsStage = run_state (GetVMSnapshotPaths (roundServer ''s2'') samplePrism ''s2'' ''u'') (snd snapshotStage)"

definition regionsStage :: "(outcome + ChangedRegion list list \<times> int) \<times> event list" where
  "regionsStage = run_state (deltaRegions (roundServer ''s2'') exampleMigration samplePrism (sampleConverged\<lparr>stPhase := ''ShuttingDown''\<rparr>) [''/c/s2/d'']) (snd pathsStage)"

lemma sample_stages:
  "fst snapshotStage = Inr ''s2''" "fst pathsStage = Inr [''/c/s2/d'']" "fst regionsStage = Inr ([sampleDelta], 2)"
  by code_simp+

lemma sample_stages_calm:
  "(jobQueries (snd regionsStage), list_all fresh_create (snd regionsStage), configMapsOf (snd regionsStage), jobsOf (snd regionsStage)) =
     ([], True, [], [])"
  by code_simp

lemma sample_first: "observed (roundServer ''s1'') False sampleVM = (Next (sampleConverged, True), [], True, [])"
  by code_simp

lemma sample_jobs:
  "run_state (startJobs (roundServer ''s2'') exampleMigration 0 1 (sampleConverged\<lparr>stPhase := ''ShuttingDown'', LastDeltaBytes := 2\<rparr>)
     [''/c/s2/d''] [sampleDelta]) t = (Inr [jobName (snd sampleJob)], t @ [CreateConfigMap (fst sampleJob) None, CreateJob (snd sampleJob) None])"
proof -
  have "prepareRegions sampleDelta \<noteq> []" by code_simp
  then show ?thesis
    by (simp add: startJobs_def Let_def k8s_create_configmap_def k8s_create_job_def roundServer_def cbtServer_def idle_env_def
        created_def sampleJob_def sampleConverged_def sampleVM_def emptyVMStatus_def)
qed

lemma sample_job_name: "jobName (snd sampleJob) = ''delta-mig-0-0-r1''"
proof -
  have "deltaSyncName ''mig'' 0 0 1 = ''delta-mig-0-0-r1''" by code_simp
  then show ?thesis by (simp add: sampleJob_def buildDeltaSyncJob_def Let_def example_defs)
qed

lemma sample_final_round:
  "observed (roundServer ''s2'') True (sampleConverged\<lparr>stPhase := ''ShuttingDown''\<rparr>) = (Next (sampleCopying, False), [], True, [sampleJob])"
proof -
  let ?st = "sampleConverged\<lparr>stPhase := ''ShuttingDown''\<rparr>"
  have name: "snapPrefix True @ ''-'' @ clip 10 (stName ?st) @ ''-r'' @ fmt_d (wrap32 (DeltaRounds ?st + 1)) = ''cbt-final-web-r1''"
    "wrap32 (DeltaRounds ?st + 1) = 1"
    by code_simp+
  have st: "AHVUUID ?st = ''u''" "length (SnapshotPaths ?st) = 1" "PendingSnapshotUUID ?st = []" "SnapshotPaths ?st \<noteq> []"
    by (simp_all add: sampleConverged_def sampleVM_def emptyVMStatus_def)
  have "run_state (startRound (roundServer ''s2'') exampleMigration samplePrism True 0 ?st) [] =
      (Next (?st\<lparr>LastDeltaBytes := 2, PendingSnapshotUUID := ''s2'', PendingSnapshotPaths := [''/c/s2/d''],
        SyncJobRefs := [jobName (snd sampleJob)], stPhase := ''DeltaSyncing''\<rparr>, False),
       snd regionsStage @ [CreateConfigMap (fst sampleJob) None, CreateJob (snd sampleJob) None])"
  proof (rule startRound_copies)
    show "run_state (CreateVMSnapshot (roundServer ''s2'') samplePrism (AHVUUID ?st) (snapPrefix True @ ''-'' @ clip 10 (stName ?st) @ ''-r'' @
        fmt_d (wrap32 (DeltaRounds ?st + 1)))) [] = (Inr ''s2'', snd snapshotStage)"
      unfolding name(1) st snapshotStage_def [symmetric] by (simp add: prod_eq_iff sample_stages)
    show "run_state (GetVMSnapshotPaths (roundServer ''s2'') samplePrism ''s2'' (AHVUUID ?st)) (snd snapshotStage) = (Inr [''/c/s2/d''], snd pathsStage)"
      unfolding st pathsStage_def [symmetric] by (simp add: prod_eq_iff sample_stages)
    show "run_state (deltaRegions (roundServer ''s2'') exampleMigration samplePrism ?st [''/c/s2/d'']) (snd pathsStage) =
        (Inr ([sampleDelta], 2), snd regionsStage)"
      unfolding  regionsStage_def [symmetric] by (simp add: prod_eq_iff sample_stages)
    show "run_state (startJobs (roundServer ''s2'') exampleMigration 0 (wrap32 (DeltaRounds ?st + 1)) (?st\<lparr>LastDeltaBytes := 2\<rparr>) [''/c/s2/d'']
        [sampleDelta]) (snd regionsStage) = (Inr [jobName (snd sampleJob)], snd regionsStage @ [CreateConfigMap (fst sampleJob) None, CreateJob (snd sampleJob) None])"
      unfolding name by (rule sample_jobs)
  qed (use st(2) in simp_all)
  with sample_stages_calm st show ?thesis
    by (simp add: observed_def advanceVM_def sample_job_name sampleCopying_def doneMark_def fresh_create_def jobQueries_def
        map_filter_append map_filter_simps)
qed

lemma sample_last: "observed (roundServer ''s2'') True sampleCopying = (Next (sampleDone, True), [''delta-mig-0-0-r1''], True, [])"
  by code_simp

lemma sample_truthful: "truthful sampleNfs (\<lambda>path. {}) (roundServer snap) samplePrism"
proof -
  have same: "delta_ok {} [] sampleBase sampleBase"
    by (simp add: delta_ok_def region_list_def changedBytes_def zeroed_ok_def gap_byte_def)
  have delta: "delta_ok {} sampleDelta sampleBase sampleSrc"
    using sampleDelta_ok sampleDelta_facts
    by (auto simp: delta_ok_def changedBytes_def zeroed_ok_def byteAt_def sampleSrc_def sampleBase_def)
  have decode: "decode_changed (JObj [(''region_list'', JArr [])]) = Inr (0, [], 0)"
    "decode_changed (JObj [(''region_list'', JArr
        [JObj [(''offset'', JInt 0), (''length'', JInt 1), (''type'', JStr ''REGULAR'')],
         JObj [(''offset'', JInt 3), (''length'', JInt 1), (''type'', JStr ''ZEROED'')]])]) = Inr (0, sampleDelta, 0)"
    by code_simp+
  have disks: "snapshotAt sampleNfs ''/c/s0/d'' = sampleBase" "snapshotAt sampleNfs ''/c/s1/d'' = sampleBase"
    "snapshotAt sampleNfs ''/c/s2/d'' = sampleSrc"
    by code_simp+
  show ?thesis
    unfolding truthful_def wp_def ChangedRegions_def doRequest_def http_do_def
    using same delta
    by (auto simp: roundServer_def samplePrism_def sampleRegions_def regionsBody_def responseResult_def ok_json_def
      unmarshal_def decode disks)
qed

lemma reconcile_observed:
  assumes "cbt_reach sampleNfs exampleMigration 0 w" "\<And>d. wDirty w d = {}"
    and "observed (roundServer snap) (wFinal w) (wStatus w) = (Next (st', dn), qs, True, js)" "set qs \<subseteq> wExited w"
    and "\<And>es. zip (configMapsOf es) (jobsOf es) = js \<Longrightarrow> reconciled sampleNfs exampleMigration w st' es = w'"
  shows "cbt_reach sampleNfs exampleMigration 0 w'"
proof -
  obtain r es where run: "run_state (advanceVM (roundServer snap) exampleMigration samplePrism (wFinal w) 0 (wStatus w)) [] = (r, [] @ es)"
    by (metis append_Nil prod.exhaust)
  with assms(3) have o: "r = Next (st', dn)" "jobQueries es = qs" "list_all fresh_create es" "zip (configMapsOf es) (jobsOf es) = js"
    by (simp_all add: observed_def)
  have "dirtyAt w = (\<lambda>path. {})" by (rule ext) (simp add: dirtyAt_def assms(2))
  then have "truthful sampleNfs (dirtyAt w) (roundServer snap) samplePrism" by (simp add: sample_truthful)
  from cbt_reach.reconcile [OF assms(1) this run [unfolded o(1)] o(3)] job_over_queried [of exampleMigration _ es] o(2) assms(4,5) o(4)
  show ?thesis by auto
qed

definition sampleWorld :: "bool \<Rightarrow> VMStatus \<Rightarrow> disk \<Rightarrow> (ConfigMap \<times> Job) list \<Rightarrow> string set \<Rightarrow> cbt_world" where
  "sampleWorld final st disk js X = \<lparr>wFinal = final, wStatus = st, wClaims = (\<lambda>n. disk), wJobs = js, wExited = X,
     wDirty = (\<lambda>d. {}), wSkipped = {}, wExhausted = False\<rparr>"

lemma sample_disks [simp]:
  "snapshotAt sampleNfs ''/c/s0/d'' = sampleBase" "snapshotAt sampleNfs ''/c/s1/d'' = sampleBase"
  "snapshotAt sampleNfs ''/c/s2/d'' = sampleSrc"
  by code_simp+

lemma sample_imported: "cbt_reach sampleNfs exampleMigration 0 (sampleWorld False sampleVM sampleBase [] {})"
  unfolding sampleWorld_def
  by (rule cbt_reach.imported) (simp_all add: sampleVM_def emptyVMStatus_def doneMark_def agrees_def sampleBase_def)

lemma sample_max_rounds: "maxDeltaRounds exampleMigration = 10" by code_simp

lemma sample_skips: "skippedBytes sampleNfs (sampleWorld False sampleVM sampleBase [] {}) sampleConverged = {}"
  by (auto simp: skippedBytes_def changedBytes_def sampleWorld_def sampleVM_def sampleConverged_def emptyVMStatus_def)

lemma sample_converged: "cbt_reach sampleNfs exampleMigration 0 (sampleWorld False sampleConverged sampleBase [] {})"
  by (rule reconcile_observed [OF sample_imported, of "''s1''" sampleConverged True "[]" "[]"])
     (use sample_first sample_skips in \<open>simp_all add: sampleWorld_def reconciled_def sampleVM_def
       sampleConverged_def emptyVMStatus_def doneMark_def sample_max_rounds\<close>)

lemma sample_cutover: "cbt_reach sampleNfs exampleMigration 0 (sampleWorld True (sampleConverged\<lparr>stPhase := ''ShuttingDown''\<rparr>) sampleBase [] {})"
  using cbt_reach.cutover [OF sample_converged, of "''ShuttingDown''"]
  by (simp add: sampleWorld_def sampleConverged_def doneMark_def)

lemma sample_copying: "cbt_reach sampleNfs exampleMigration 0 (sampleWorld True sampleCopying sampleBase [sampleJob] {})"
  by (rule reconcile_observed [OF sample_cutover, of "''s2''" sampleCopying False "[]" "[sampleJob]"])
     (use sample_final_round in \<open>simp_all add: sampleWorld_def reconciled_def skippedBytes_def sampleVM_def
       sampleConverged_def sampleCopying_def emptyVMStatus_def doneMark_def\<close>)

definition sampleFsView :: filesystem where
  "sampleFsView = \<lparr>fsText = (\<lambda>p. if take 8 p = ''/config/'' then map_of (cmData (fst sampleJob)) (drop 8 p) else None),
     fsDisk = (\<lambda>p. if take 5 p = ''/src/'' then Some (sampleNfs ''/c'' (drop 5 p)) else Some sampleBase), fsSyncOk = True\<rparr>"

lemma sample_pod: "pod sampleNfs (\<lambda>n. sampleBase) sampleJob sampleFsView"
  unfolding pod_def pod_view_def sampleJob_def fst_conv snd_conv buildDeltaSyncJob_def
  by (simp add: Let_def sampleFsView_def buildDeltaSyncConfigMap_def splitSnapshotPath_def trim_prefix_def resolveStorage_def
      example_defs sampleNfs_def sampleJob_def)

lemma sample_exit: "operatorMain (podArgs (snd sampleJob)) sampleFsView = Some (Exit 0, Some sampleSrc)"
proof -
  have v: "pod sampleNfs (\<lambda>n. sampleBase) (roundMap exampleMigration 0 1 [sampleDelta] 0,
      roundJob (roundServer ''s2'') exampleMigration 0 1 sampleCopying [''/c/s2/d''] 0) sampleFsView"
    using sample_pod by (simp add: sampleJob_def sampleCopying_def sampleConverged_def sampleVM_def)
  have "runDeltaSync (jobFlags exampleMigration ''/c/s2/d'') sampleFsView = (Exit 0, Some (sampleSrc @ drop (length sampleSrc) sampleBase))"
    by (rule delta_sync_core [OF sampleDelta_ok sampleDelta_facts _ jobFlags_run])
       (use pod_files [OF v] in \<open>simp_all add: sampleFsView_def\<close>)
  then show ?thesis unfolding sampleJob_def snd_conv operatorMain_job by (simp add: sampleSrc_def sampleBase_def)
qed

lemma sample_exited: "cbt_reach sampleNfs exampleMigration 0 ((sampleWorld True sampleCopying sampleBase [sampleJob] {})
    \<lparr>wClaims := (\<lambda>n. sampleBase)(''dv'' := sampleSrc), wExited := {''delta-mig-0-0-r1''}\<rparr>)"
proof -
  have n: "jobName (snd sampleJob) = ''delta-mig-0-0-r1''" "jobClaim (snd sampleJob) = ''dv''" by code_simp+
  show ?thesis
    using cbt_reach.exited [OF sample_copying, of sampleJob sampleFsView sampleSrc] sample_pod sample_exit n
    by (simp add: sampleWorld_def)
qed

definition sampleFinal :: cbt_world where
  "sampleFinal = (sampleWorld True sampleDone sampleBase [] {''delta-mig-0-0-r1''})\<lparr>wClaims := (\<lambda>n. sampleBase)(''dv'' := sampleSrc)\<rparr>"

lemma sample_final: "cbt_reach sampleNfs exampleMigration 0 sampleFinal"
  by (rule reconcile_observed [OF sample_exited, of "''s2''" sampleDone True "[''delta-mig-0-0-r1'']" "[]"])
     (use sample_last in \<open>simp_all add: sampleWorld_def reconciled_def sampleVM_def sampleFinal_def
       sampleConverged_def sampleCopying_def sampleDone_def emptyVMStatus_def doneMark_def\<close>)


end
