(* ===== verification/RoundProgress.thy ===== *)
theory RoundProgress
  imports CbtSpecs
begin

text \<open>
  The loop of delta rounds before the cutover ends: every call of \<open>handleWarmDeltaSync\<close> that does not merely wait for a
  running Job brings some machine closer to its convergence, by a measure that counts the rounds it has left.
\<close>

section \<open>Progress of the loop before the cutover\<close>

text \<open>An answer about a Job that is neither complete nor failed.\<close>

definition job_running :: "AHVMigration \<Rightarrow> event \<Rightarrow> bool" where
  "job_running mig e = (case e of GetJob ns n r \<Rightarrow> ns = targetNS mig \<and>
     (case r of Inl err \<Rightarrow> False | Inr cs \<Rightarrow> \<not> fst (jobFinished cs)) | _ \<Rightarrow> False)"

text \<open>The number of calls a machine still needs at most, not counting those that only wait.\<close>

definition roundsLeft :: "AHVMigration \<Rightarrow> VMStatus \<Rightarrow> nat" where
  "roundsLeft mig st = (if AHVUUID st = [] \<or> stPhase st = doneMark False then 0
     else 2 * nat (maxDeltaRounds mig - DeltaRounds st) + (if PendingSnapshotUUID st = [] then 2 else 1))"

definition totalRoundsLeft :: "AHVMigration \<Rightarrow> VMStatus list \<Rightarrow> nat" where
  "totalRoundsLeft mig vms = sum_list (map (roundsLeft mig) vms)"

lemma jobsDone_running:
  "wp (jobsDone E mig st) (\<lambda>c es. list_all writes_only_failed es \<and> (case c of Inl r \<Rightarrow> True | Inr dn \<Rightarrow> dn \<or> list_ex (job_running mig) es))"
proof (rule wp_conj)
  show "wp (jobsDone E mig st) (\<lambda>c es. case c of Inl r \<Rightarrow> True | Inr dn \<Rightarrow> dn \<or> list_ex (job_running mig) es)"
    unfolding jobsDone_def
  proof (rule wp_foreach [where I = "\<lambda>pre dn es. dn \<or> list_ex (job_running mig) es"], goal_cases)
    case (2 pre x post s es)
    then show ?case
      unfolding k8s_get_job_def
      by (intro wp_rules wp_any [OF emits_failMigration]) (auto simp: job_running_def)
  qed auto
qed (rule emits_jobsDone [unfolded emits_def])

definition progress :: "AHVMigration \<Rightarrow> VMStatus \<Rightarrow> VMStatus \<Rightarrow> bool \<Rightarrow> event list \<Rightarrow> bool" where
  "progress mig st st' dn es \<longleftrightarrow>
     (if dn then roundsLeft mig st' = 0 else roundsLeft mig st' < roundsLeft mig st \<or> list_ex (job_running mig) es)"

lemma startRound_progress:
  assumes "AHVUUID st \<noteq> []" "stPhase st \<noteq> doneMark False" "PendingSnapshotUUID st = []"
  shows "wp (startRound E mig prism False i st) (\<lambda>c es. case c of Next (st', dn) \<Rightarrow> progress mig st st' dn es | Break x \<Rightarrow> False | Ret r \<Rightarrow> True)"
  using assms unfolding startRound_def
  by (intro wp_rules wp_mono [OF CreateVMSnapshot_uuid] any_call)
     (auto simp: progress_def roundsLeft_def Let_def doneMark_def split: sum.splits intro!: wp_rules any_call)

lemma finishRound_progress:
  assumes "AHVUUID st \<noteq> []" "stPhase st \<noteq> doneMark False" "PendingSnapshotUUID st \<noteq> []" "rounds_inv mig st" "maxDeltaRounds mig < 2 ^ 31"
  shows "wp (finishRound E mig prism False st) (\<lambda>c es. case c of Next (st', dn) \<Rightarrow> progress mig st st' dn es | Break x \<Rightarrow> False | Ret r \<Rightarrow> True)"
proof -
  have "roundsLeft mig (promoteVM False st) < roundsLeft mig st"
    using assms by (auto simp: roundsLeft_def promoteVM_def rounds_inv_def wrap32_id in32_def doneMark_def)
  then show ?thesis
    unfolding finishRound_def
    by (intro wp_rules wp_mono [OF jobsDone_running])
       (auto simp: progress_def split: sum.splits intro!: wp_rules any_call)
qed

lemma advanceVM_progress:
  assumes "rounds_inv mig st" "maxDeltaRounds mig < 2 ^ 31"
  shows "wp (advanceVM E mig prism False i st) (\<lambda>c es. case c of Next (st', dn) \<Rightarrow> progress mig st st' dn es | Break x \<Rightarrow> False | Ret r \<Rightarrow> True)"
  unfolding advanceVM_def
  by (intro wp_rules startRound_progress finishRound_progress wp_any [OF emits_failMigration])
     (use assms in \<open>auto simp: progress_def roundsLeft_def\<close>)

lemma emits_advanceVM: "emits writes_only_failed (advanceVM E mig prism final i st)"
  unfolding advanceVM_def startRound_def finishRound_def k8s_delete_job_def k8s_delete_configmap_def
  by (intro emits_rules failed_prism emits_failMigration emits_deltaRegions emits_startJobs emits_jobsDone)
     (simp_all add: writes_only_failed_def)

lemma sum_list_less:
  fixes f g :: "'a \<Rightarrow> nat"
  assumes "length xs = length ys" "\<forall>k<length ys. f (xs ! k) \<le> f (ys ! k)" "\<exists>k<length ys. f (xs ! k) < f (ys ! k)"
  shows "sum_list (map f xs) < sum_list (map f ys)"
proof -
  have "(\<Sum>k<length ys. f (xs ! k)) < (\<Sum>k<length ys. f (ys ! k))"
    by (rule sum_strict_mono_ex1) (use assms in auto)
  then show ?thesis using assms(1) by (simp add: sum_list_sum_nth atLeast0LessThan)
qed

definition loop_inv :: "AHVMigration \<Rightarrow> nat \<Rightarrow> VMStatus list \<times> bool \<Rightarrow> event list \<Rightarrow> bool" where
  "loop_inv mig n s es \<longleftrightarrow> (let V = StatusVMs (Status mig) in
     only_failed es \<and> length (fst s) = length V \<and> (\<forall>k\<ge>n. k < length V \<longrightarrow> fst s ! k = V ! k) \<and>
     (list_ex (job_running mig) es \<or> (\<forall>k<n. roundsLeft mig (fst s ! k) \<le> roundsLeft mig (V ! k)) \<and>
       (snd s \<or> (\<exists>k<n. roundsLeft mig (fst s ! k) < roundsLeft mig (V ! k)))))"

lemma loop_inv_step:
  assumes "loop_inv mig n (vms, dn) es" "n < length (StatusVMs (Status mig))" "list_all writes_only_failed es'"
    and "progress mig (StatusVMs (Status mig) ! n) st' d es'"
  shows "loop_inv mig (Suc n) (vms[n := st'], dn \<and> d) (es @ es')"
  using assms unfolding loop_inv_def Let_def progress_def only_failed_iff
  by (auto simp: nth_list_update less_Suc_eq split: if_splits)

lemma loop_inv_failed: "loop_inv mig n s es \<Longrightarrow> list_all writes_only_failed es"
  by (simp add: loop_inv_def Let_def only_failed_iff)

lemma round_loop_progress:
  assumes "\<forall>st\<in>set (StatusVMs (Status mig)). rounds_inv mig st" "maxDeltaRounds mig < 2 ^ 31"
  shows "wp (foreach (enumerate 0 (StatusVMs (Status mig))) (StatusVMs (Status mig), True) (\<lambda>(i, vmSt) (vms, allDone).
      do { c \<leftarrow> advanceVM E mig prism False i vmSt;
           return (case c of
             Next (st, done) \<Rightarrow> Next (vms[i := st], allDone \<and> done)
           | Break (st, done) \<Rightarrow> Next (vms[i := st], allDone \<and> done)
           | Ret r \<Rightarrow> Ret r) }))
    (\<lambda>c es. only_failed es \<and> (case c of Inl r \<Rightarrow> True | Inr (vms, allDone) \<Rightarrow> allDone \<or> list_ex (job_running mig) es \<or>
       totalRoundsLeft mig vms < totalRoundsLeft mig (StatusVMs (Status mig))))"
proof (rule wp_foreach [where I = "\<lambda>pre s es. loop_inv mig (length pre) s es"], goal_cases)
  case 1
  then show ?case by (simp add: loop_inv_def Let_def only_failed_def phasesWritten_def)
next
  case (2 pre x post s es)
  note x = enumerate_split [OF 2(1)]
  obtain vms dn where s: "s = (vms, dn)" by fastforce
  let ?st = "StatusVMs (Status mig) ! length pre"
  have inv: "rounds_inv mig ?st" using assms(1) x(2) by simp
  have adv: "wp (advanceVM E mig prism False (length pre) ?st) (\<lambda>c es. (case c of Next (st', dn) \<Rightarrow> progress mig ?st st' dn es | Break x \<Rightarrow> False | Ret r \<Rightarrow> True) \<and> list_all writes_only_failed es)"
    by (rule wp_conj [OF advanceVM_progress [OF inv assms(2)] emits_advanceVM [unfolded emits_def]])
  show ?case
    unfolding x(1) s prod.case
    by (intro wp_bind wp_mono [OF adv])
       (use 2(2) s x(2) loop_inv_failed in \<open>auto simp: only_failed_iff intro!: wp_return loop_inv_step split: ctl.splits\<close>)
next
  case (3 s es)
  then show ?case by (auto simp: loop_inv_def Let_def totalRoundsLeft_def intro!: sum_list_less split: prod.splits)
qed

text \<open>C12: The loop before the cutover makes progress: a reconciliation in WarmDeltaSync that stays in this phase either has seen
  a Job that is still running, or brings the machines closer to the end of their rounds.  The distance is at
  most two steps for each of the configured rounds and two more per machine, so that there are only that many
  reconciliations besides those that wait for a running Job or fail.\<close>

theorem delta_rounds_progress:
  assumes "phaseOf mig = PhaseWarmDeltaSync" and "\<forall>st\<in>set (StatusVMs (Status mig)). rounds_inv mig st" and "maxDeltaRounds mig < 2 ^ 31"
  shows "wp (handleWarmDeltaSync E mig) (\<lambda>r es. list_all (\<lambda>(old, new). Phase new = PhaseWarmDeltaSync \<longrightarrow>
      list_ex (job_running mig) es \<or> totalRoundsLeft mig (StatusVMs new) < totalRoundsLeft mig (StatusVMs (Status mig))) (status_patches es)) \<and>
    totalRoundsLeft mig (StatusVMs (Status mig)) \<le> length (StatusVMs (Status mig)) * (2 * nat (maxDeltaRounds mig) + 2)"
proof
  have fail: "Phase new \<noteq> PhaseWarmDeltaSync" if "only_failed es" "(old, new) \<in> set (status_patches es)" for es old new
    using that by (fastforce simp: only_failed_def phasesWritten_def list_all_iff)
  show "wp (handleWarmDeltaSync E mig) (\<lambda>r es. list_all (\<lambda>(old, new). Phase new = PhaseWarmDeltaSync \<longrightarrow>
      list_ex (job_running mig) es \<or> totalRoundsLeft mig (StatusVMs new) < totalRoundsLeft mig (StatusVMs (Status mig))) (status_patches es))"
    unfolding handleWarmDeltaSync_def runDeltaRound_def commit_def k8s_patch_status_def handler_unfolds
  proof (intro wp_bind wp_NewPrismClient, goal_cases)
    case (1 err es)
    then show ?case by (auto intro!: wp_mono [OF wp_failMigration_only] dest: fail simp: list_all_iff)
  next
    case (2 p es)
    then show ?case
      unfolding sum.case
      by (intro wp_after wp_mono [OF round_loop_progress [OF assms(2,3)]])
         (auto split: sum.splits simp: Let_def list_all_iff intro!: wp_rules dest: fail)
  qed
  have "roundsLeft mig st \<le> 2 * nat (maxDeltaRounds mig) + 2" if "st \<in> set (StatusVMs (Status mig))" for st
    using assms(2) that by (auto simp: roundsLeft_def rounds_inv_def)
  then show "totalRoundsLeft mig (StatusVMs (Status mig)) \<le> length (StatusVMs (Status mig)) * (2 * nat (maxDeltaRounds mig) + 2)"
    using sum_list_mono [of "StatusVMs (Status mig)" "roundsLeft mig" "\<lambda>st. 2 * nat (maxDeltaRounds mig) + 2"]
    by (simp add: totalRoundsLeft_def sum_list_triv)
qed

text \<open>A round whose Job has completed.\<close>

definition copiedExample :: AHVMigration where
  "copiedExample = setVMs (map (\<lambda>st. st\<lparr>PendingSnapshotUUID := ''s1'', PendingSnapshotPaths := [''/c/s1/d''],
     SyncJobRefs := [''j''], stPhase := ''DeltaSyncing''\<rparr>) (StatusVMs (Status deltaExample))) deltaExample"

definition copiedRound :: "event list" where
  "copiedRound = events (handleWarmDeltaSync ((cbtServer ''s1'' [])\<lparr>ansGetJob := (\<lambda>t ns n. Inr [(''Complete'', ConditionTrue)])\<rparr>) copiedExample)"

theorem delta_rounds_progress_witness:
  "map (\<lambda>(old, new). (Phase new, totalRoundsLeft copiedExample (StatusVMs new))) (status_patches copiedRound) = [(PhaseWarmDeltaSync, 20)] \<and>
   list_all (\<lambda>(old, new). list_ex (job_running copiedExample) copiedRound \<or> totalRoundsLeft copiedExample (StatusVMs new) < 21)
     (status_patches copiedRound)"
proof
  show one: "map (\<lambda>(old, new). (Phase new, totalRoundsLeft copiedExample (StatusVMs new))) (status_patches copiedRound) = [(PhaseWarmDeltaSync, 20)]"
    by code_simp
  have ok: "phaseOf copiedExample = PhaseWarmDeltaSync" "\<forall>st\<in>set (StatusVMs (Status copiedExample)). rounds_inv copiedExample st"
    "maxDeltaRounds copiedExample < 2 ^ 31" and left: "totalRoundsLeft copiedExample (StatusVMs (Status copiedExample)) = 21"
    by code_simp+
  have "list_all (\<lambda>(old, new). Phase new = PhaseWarmDeltaSync \<longrightarrow> list_ex (job_running copiedExample) copiedRound \<or>
     totalRoundsLeft copiedExample (StatusVMs new) < 21) (status_patches copiedRound)"
    using wp_run [OF delta_rounds_progress [OF ok, THEN conjunct1]] unfolding left copiedRound_def .
  with one show "list_all (\<lambda>(old, new). list_ex (job_running copiedExample) copiedRound \<or> totalRoundsLeft copiedExample (StatusVMs new) < 21)
     (status_patches copiedRound)"
    by (auto simp: map_eq_Cons_conv)
qed

end
