(* ===== verification/PrepareSpecs.thy ===== *)
theory PrepareSpecs
  imports HandlerSpecs
begin

text \<open>
  What the handlers before the import promise: the inventory of the machines, the images of stopped machines, and
  the order of snapshot and images in a warm migration.
\<close>

section \<open>Finding a machine\<close>

definition listBody :: "string \<Rightarrow> json" where
  "listBody name = JObj [(''kind'', JStr ''vm''), (''filter'', JStr (''vm_name=='' @ name))]"

text \<open>\<open>vm_found mig name uuid e\<close>: Prism has answered the search for the name, and the first machine of exactly this name
  has the UUID.\<close>

definition vm_found :: "AHVMigration \<Rightarrow> string \<Rightarrow> string \<Rightarrow> event \<Rightarrow> bool" where
  "vm_found mig name uuid e = (case e of Http base user pass method path body (Resp code b) \<Rightarrow>
     base = prismURL mig \<and> method = ''POST'' \<and> path = ''/api/nutanix/v3/vms/list'' \<and> body = Some (listBody name) \<and> 200 \<le> code \<and> code < 300 \<and>
     (case unmarshal (decode_field ''entities'' (decode_list decode_map)) b of Inl err \<Rightarrow> False
      | Inr entities \<Rightarrow> firstEntity name entities = Some uuid) | _ \<Rightarrow> False)"

definition image_request :: "event \<Rightarrow> bool" where
  "image_request e = (case e of Http base user pass method path body r \<Rightarrow> method = ''POST'' \<and> path = ''/api/nutanix/v3/images'' | _ \<Rightarrow> False)"

text \<open>A part of a run that writes no status and asks for no image.\<close>

definition quiet :: "event list \<Rightarrow> bool" where
  "quiet es \<longleftrightarrow> status_patches es = [] \<and> \<not> list_ex image_request es"

lemma quiet_simps [simp]: "quiet []" "quiet (es @ es') \<longleftrightarrow> quiet es \<and> quiet es'" "quiet es \<Longrightarrow> only_failed es"
  by (auto simp: quiet_def)

lemma found_answer:
  assumes "responseResult ''POST'' ''/api/nutanix/v3/vms/list'' r = Inr b" "baseURL p = prismURL mig"
    and "unmarshal (decode_field ''entities'' (decode_list decode_map)) b = Inr entities" "firstEntity name entities = Some uuid"
  shows "vm_found mig name uuid (Http (baseURL p) u pw ''POST'' ''/api/nutanix/v3/vms/list'' (Some (listBody name)) r)"
  using assms by (auto simp: vm_found_def responseResult_def split: http_result.splits if_splits)

lemma wp_GetVMByName:
  assumes "baseURL p = prismURL mig" and "\<And>err es. quiet es \<Longrightarrow> Q (Inl err) es"
    and "\<And>info es. quiet es \<Longrightarrow> list_ex (vm_found mig name (viUUID info)) es \<Longrightarrow> Q (Inr info) es"
  shows "wp (GetVMByName E p name) Q"
proof -
  have uuid: "viUUID (parseVM p u vm) = u" for u vm by (simp add: parseVM_def Let_def)
  show ?thesis
    unfolding GetVMByName_def GetVMByUUID_def listBody_def [symmetric]
    by (intro wp_rules)
       (auto intro!: assms(2,3) simp: quiet_def image_request_def uuid dest: found_answer [OF _ assms(1)] split: sum.splits)
qed

section \<open>The inventory\<close>

lemma emits_ensureSecret: "emits (\<lambda>e. status_patches [e] = []) (ensureSecret E s)"
  unfolding ensureSecret_def k8s_get_secret_def k8s_create_secret_def
  by (intro emits_rules) (simp_all add: status_patches_def map_filter_simps)

lemma no_patches_each: "list_all (\<lambda>e. status_patches [e] = []) es \<Longrightarrow> status_patches es = []"
proof (induction es)
  case (Cons e es)
  have eq: "status_patches (e # es) = status_patches [e] @ status_patches es"
    using status_patches_simps(2) [of "[e]" es] by (simp only: append_Cons append_Nil)
  show ?case unfolding eq using Cons by simp
qed simp

lemma wp_silent:
  assumes "emits (\<lambda>e. status_patches [e] = []) m" and "\<And>r es. status_patches es = [] \<Longrightarrow> Q r es"
  shows "wp m Q"
  using assms(1) unfolding emits_def by (rule wp_mono) (blast intro: assms(2) no_patches_each)

definition identity :: "VMStatus \<Rightarrow> string \<times> string" where
  "identity st = (stName st, AHVUUID st)"

lemma createDataVolumes_identity:
  assumes "baseURL prism = prismURL mig"
  shows "wp (createDataVolumes E mig prism vms) (\<lambda>r es. status_patches es = [] \<and> (case r of Inl err \<Rightarrow> True | Inr vms' \<Rightarrow> map identity vms' = map identity vms))"
  unfolding createDataVolumes_def
proof (rule wp_after, rule wp_foreach [where I = "\<lambda>pre s es. status_patches es = [] \<and> map identity s = map identity vms"], goal_cases)
  case (2 pre x post s es)
  obtain i spec where x: "x = (i, spec)" by fastforce
  have keep: "map identity (s[i := (s ! i)\<lparr>DataVolumeRefs := refs, stPhase := ph\<rparr>]) = map identity s" for refs ph
    by (cases "i < length s") (simp_all add: map_update identity_def list_eq_iff_nth_eq nth_list_update)
  have one: "emits (\<lambda>e. status_patches [e] = []) (ensureObj E DataVolume ns n obj what)" for ns n obj what
    by (intro emits_ensureObj) (simp_all add: status_patches_def map_filter_simps)
  have disks: "wp (foreach (DiskList info) [] (\<lambda>disk dvRefs.
      case diskDataVolume E mig (int i) disk of
        None \<Rightarrow> return (Next dvRefs)
      | Some dv \<Rightarrow>
          do { r \<leftarrow> ensureObj E DataVolume (targetNS mig) (objName E dv) dv ''DataVolume'';
               return (case r of Some err \<Rightarrow> Ret (Inl err :: string + VMStatus list) | None \<Rightarrow> Next (dvRefs @ [objName E dv])) }))
    (\<lambda>c es. status_patches es = [] \<and> (case c of Inl r \<Rightarrow> isl r | Inr refs \<Rightarrow> True))" for info
  proof (rule wp_foreach [where I = "\<lambda>pre refs es. status_patches es = []"], goal_cases)
    case (2 pre d post refs es)
    then show ?case by (intro wp_rules wp_silent [OF one]) (auto split: option.splits)
  qed auto
  show ?case
    unfolding x prod.case
    by (intro wp_rules wp_GetVMByName [OF assms] wp_mono [OF disks])
       (use 2(2) in \<open>auto simp: quiet_def keep split: sum.splits intro!: wp_rules\<close>)
qed (auto intro!: wp_rules)

definition inventoried :: "AHVMigration \<Rightarrow> event list \<Rightarrow> VMStatus list \<Rightarrow> bool" where
  "inventoried mig es vms \<longleftrightarrow> map stName vms = map vmName (VMs (Spec mig)) \<and>
     list_all (\<lambda>(n, u). list_ex (vm_found mig n u) es) (map identity vms)"

lemma inventoried_more:
  assumes "inventoried mig es vms" and "map identity vms' = map identity vms"
  shows "inventoried mig (es1 @ es2 @ es @ es') vms'"
proof -
  from arg_cong [OF assms(2), of "map fst"] have "map stName vms' = map stName vms" by (simp add: identity_def comp_def)
  with assms show ?thesis by (auto simp: inventoried_def list_all_iff)
qed

lemma inventory_loop:
  assumes "baseURL prism = prismURL mig"
  shows "wp (foreach (VMs (Spec mig)) [] (\<lambda>vmSpec vms.
      do { vmInfo \<leftarrow> GetVMByName E prism (vmName vmSpec);
           case vmInfo of
             Inl err \<Rightarrow> do { r \<leftarrow> failMigration E mig (''VM '' @ go_quote (vmName vmSpec) @ '': '' @ err); return (Ret r) }
           | Inr info \<Rightarrow> return (Next (vms @ [emptyVMStatus\<lparr>stName := vmName vmSpec, AHVUUID := viUUID info, stPhase := ''Pending''\<rparr>])) }))
    (\<lambda>c es. only_failed es \<and> (case c of Inl r \<Rightarrow> True | Inr vms \<Rightarrow> status_patches es = [] \<and> inventoried mig es vms))"
proof (rule wp_foreach [where I = "\<lambda>pre vms es. status_patches es = [] \<and> map stName vms = map vmName pre \<and>
    list_all (\<lambda>(n, u). list_ex (vm_found mig n u) es) (map identity vms)"], goal_cases)
  case (2 pre x post vms es)
  then show ?case
    by (intro wp_rules wp_GetVMByName [OF assms] wp_mono [OF wp_failMigration_only])
       (auto simp: quiet_def identity_def list_all_iff)
qed (auto simp: inventoried_def)

lemma only_failed_Http [simp]: "only_failed (Http base u pw m path body r # es) = only_failed es"
  by (simp add: only_failed_def phasesWritten_def)

lemma patches_only_failed: "only_failed es \<Longrightarrow> (old, new) \<in> set (status_patches es) \<Longrightarrow> Phase new = PhaseFailed"
  by (auto simp: only_failed_def phasesWritten_def list_all_iff)


section \<open>Images of stopped machines\<close>

text \<open>\<open>image_done mig img e\<close>: the event is an answer of Prism that reports the image as complete.\<close>

definition image_done :: "AHVMigration \<Rightarrow> string \<Rightarrow> event \<Rightarrow> bool" where
  "image_done mig img e = (case e of Http base user pass method path body (Resp code b) \<Rightarrow>
     base = prismURL mig \<and> method = ''GET'' \<and> path = imagePath img \<and> 200 \<le> code \<and> code < 300 \<and>
     (case parsed b of Inl err \<Rightarrow> False | Inr j \<Rightarrow> as_string (path_get j [''status'', ''state'']) = ''COMPLETE'') | _ \<Rightarrow> False)"

lemma reports_image_done:
  assumes "reports p (imagePath img) [''status'', ''state''] ''COMPLETE'' e" and "baseURL p = prismURL mig"
  shows "image_done mig img e"
  using assms by (auto simp: reports_def image_done_def split: event.splits http_result.splits sum.splits)

definition images_done :: "AHVMigration \<Rightarrow> string list \<Rightarrow> event list \<Rightarrow> bool" where
  "images_done mig imgs es \<longleftrightarrow> list_all (\<lambda>img. list_ex (image_done mig img) es) imgs"

lemma list_ex_last: "es \<noteq> [] \<Longrightarrow> P (last es) \<Longrightarrow> list_ex P es"
  by (auto simp: list_ex_iff intro!: bexI [of _ "last es"])

lemma wp_WaitImageReady:
  assumes "baseURL p = prismURL mig"
  shows "wp (WaitImageReady E p img) (\<lambda>r es. status_patches es = [] \<and> (r = None \<longrightarrow> list_ex (image_done mig img) es))"
proof (rule wp_conj)
  show "wp (WaitImageReady E p img) (\<lambda>r es. r = None \<longrightarrow> list_ex (image_done mig img) es)"
    unfolding WaitImageReady_def
    by (rule wp_mono [OF image_poller.poll_spec])
       (auto intro: list_ex_last reports_image_done [OF _ assms])
qed (rule wp_prism_event [OF calm_no_patches [OF calm_operations(4)]], simp)

lemma wp_imagesReady:
  assumes "baseURL p = prismURL mig"
  shows "wp (imagesReady E p imgs) (\<lambda>r es. status_patches es = [] \<and> (r \<longrightarrow> images_done mig imgs es))"
  unfolding imagesReady_def
proof (rule wp_after, rule wp_foreach [where I = "\<lambda>pre s es. status_patches es = [] \<and> images_done mig pre es"], goal_cases)
  case (2 pre x post s es)
  then show ?case
    by (intro wp_rules wp_mono [OF wp_WaitImageReady [OF assms]])
       (auto simp: images_done_def list_all_iff split: option.splits)
qed (auto simp: images_done_def intro!: wp_rules)

text \<open>\<open>imaged mig es vm\<close>: Prism has answered that the machine is not running, and that all its images, of which there is at least
  one, are complete.\<close>

definition imaged :: "AHVMigration \<Rightarrow> event list \<Rightarrow> VMStatus \<Rightarrow> bool" where
  "imaged mig es vm \<longleftrightarrow> AHVUUID vm = [] \<or>
     (list_ex (seen_not_on mig (AHVUUID vm)) es \<and> TempImageRefs vm \<noteq> [] \<and> images_done mig (TempImageRefs vm) es)"

lemma imaged_more: "imaged mig es vm \<Longrightarrow> imaged mig (es1 @ es @ es2) vm"
  by (auto simp: imaged_def images_done_def list_all_iff)

lemma prepare_loop:
  assumes p: "baseURL prism = prismURL mig"
  shows "wp (foreach (enumerate 0 (StatusVMs (Status mig))) (StatusVMs (Status mig), True) (\<lambda>(i, vmSt) (vms, allReady).
      if AHVUUID vmSt = [] then return (Next (vms, allReady))
      else
        do { power \<leftarrow> GetVMPowerState E prism (AHVUUID vmSt);
             case power of
               Inl err \<Rightarrow> return (Next (vms, False))
             | Inr powerState \<Rightarrow>
                 if powerState = ''ON'' then
                   do { s \<leftarrow> ShutdownVM E prism (AHVUUID vmSt);
                        return (if s = ShutdownPanic then Ret (Panic ''assignment to entry in nil map'')
                                else Next (vms[i := vmSt\<lparr>stPhase := ''ShuttingDown''\<rparr>], False)) }
                 else
                   do { vmInfo \<leftarrow> GetVMByName E prism (stName vmSt);
                        case vmInfo of
                          Inl err \<Rightarrow> do { r \<leftarrow> failMigration E mig (''VM '' @ go_quote (stName vmSt) @ '': '' @ err);
                                          return (Ret r) }
                        | Inr info \<Rightarrow>
                            if TempImageRefs vmSt = [] then
                              do { imgs \<leftarrow> createImagesSkipping E mig prism vmSt info;
                                   return (Next (vms[i := vmSt\<lparr>TempImageRefs := imgs, stPhase := ''CreatingImages''\<rparr>], False)) }
                            else
                              do { ready \<leftarrow> imagesReady E prism (TempImageRefs vmSt);
                                   return (Next (if ready then (vms[i := vmSt\<lparr>stPhase := ''ImagesReady''\<rparr>], allReady)
                                                 else (vms, False))) } } }))
    (\<lambda>c es. only_failed es \<and> (case c of Inl r \<Rightarrow> True | Inr (vms, allReady) \<Rightarrow> status_patches es = [] \<and>
       (allReady \<longrightarrow> list_all (imaged mig es) (StatusVMs (Status mig)))))"
proof (rule wp_foreach [where I = "\<lambda>pre s es. status_patches es = [] \<and> (snd s \<longrightarrow> list_all (imaged mig es) (map snd pre))"], goal_cases)
  case (2 pre x post s es)
  note x = enumerate_split [OF 2(1)]
  have before: "list_all (imaged mig es) vms \<Longrightarrow> list_all (imaged mig (es @ es')) vms" for es es' vms
    using imaged_more [of mig es _ "[]" es'] by (auto simp: list_all_iff)
  have images: "emits prism_event (createImagesSkipping E mig prism st info)" for st info
    by (rule calm_no_patches) (unfold createImagesSkipping_def, intro emits_rules)
  from 2(2) show ?case
    unfolding x(1) prod.case
    by (intro wp_rules wp_GetVMPowerState wp_prism_event [OF prism_ShutdownVM] wp_GetVMByName [OF p] wp_mono [OF wp_failMigration_only]
          wp_prism_event [OF images] wp_mono [OF wp_imagesReady [OF p]])
       (auto simp: quiet_def imaged_def before images_done_def dest: reports_not_on [OF _ _ p] elim: list.pred_mono_strong)
next
  case (3 s es)
  then show ?case by (auto simp: enumerate_eq_zip split: prod.splits)
qed auto


section \<open>Snapshot before images\<close>

text \<open>\<open>snapshot_done mig snap e\<close>: the event is an answer of Prism that reports the snapshot as complete.\<close>

definition snapshot_done :: "AHVMigration \<Rightarrow> string \<Rightarrow> event \<Rightarrow> bool" where
  "snapshot_done mig snap e = (case e of Http base user pass method path body (Resp code b) \<Rightarrow>
     base = prismURL mig \<and> method = ''GET'' \<and> path = snapshotPath snap \<and> 200 \<le> code \<and> code < 300 \<and>
     (case parsed b of Inl err \<Rightarrow> False | Inr j \<Rightarrow> as_string (path_get j [''status'', ''state'']) = ''COMPLETE'') | _ \<Rightarrow> False)"

text \<open>The events of one machine whose status records the snapshot afterwards: with images from an earlier reconciliation none is
  requested; otherwise, with change tracking and no snapshot yet, the recorded snapshot was complete before the first request
  for an image.\<close>

definition snapshot_first :: "AHVMigration \<Rightarrow> VMStatus \<Rightarrow> event list \<Rightarrow> string \<Rightarrow> bool" where
  "snapshot_first mig vm es snap \<longleftrightarrow>
     (if TempImageRefs vm \<noteq> [] then \<not> list_ex image_request es \<and> snap = LastSnapshotUUID vm
      else if cbtEnabled mig \<and> LastSnapshotUUID vm = [] then
        snap \<noteq> [] \<and> list_ex (snapshot_done mig snap) (takeWhile (\<lambda>e. \<not> image_request e) es)
      else snap = LastSnapshotUUID vm)"

text \<open>The events of all machines, one after the other.\<close>

fun presynced :: "AHVMigration \<Rightarrow> VMStatus list \<Rightarrow> event list \<Rightarrow> string list \<Rightarrow> bool" where
  "presynced mig [] es [] \<longleftrightarrow> es = []"
| "presynced mig (vm # vms) es (snap # snaps) \<longleftrightarrow> (\<exists>a b. es = a @ b \<and> snapshot_first mig vm a snap \<and> presynced mig vms b snaps)"
| "presynced mig vms es snaps \<longleftrightarrow> False"

lemma presynced_snoc:
  "presynced mig vms es snaps \<Longrightarrow> snapshot_first mig vm a snap \<Longrightarrow> presynced mig (vms @ [vm]) (es @ a) (snaps @ [snap])"
proof (induction mig vms es snaps rule: presynced.induct)
  case (2 mig v vms es s snaps)
  then obtain b c where bc: "es = b @ c" "snapshot_first mig v b s" "presynced mig vms c snaps" by auto
  with 2 have "presynced mig (vms @ [vm]) (c @ a) (snaps @ [snap])" by simp
  with bc show ?case by auto
qed auto

lemma quiet_each: "list_all (\<lambda>e. quiet [e]) es \<Longrightarrow> quiet es"
proof (induction es)
  case (Cons e es)
  then show ?case using quiet_simps(2) [of "[e]" es] by simp
qed simp

lemma wp_quiet:
  assumes "emits (\<lambda>e. quiet [e]) m" and "\<And>r es. quiet es \<Longrightarrow> Q r es"
  shows "wp m Q"
  using assms(1) unfolding emits_def by (rule wp_mono) (blast intro: assms(2) quiet_each)

lemma quiet_Http [simp]: "quiet [Http base u pw m path body r] \<longleftrightarrow> \<not> (m = ''POST'' \<and> path = ''/api/nutanix/v3/images'')"
  by (simp add: quiet_def image_request_def)

lemma emits_quiet:
  "emits (\<lambda>e. quiet [e]) (CreateVMSnapshot E p u n)" "emits (\<lambda>e. quiet [e]) (GetVMSnapshotPaths E p u v)"
  "emits (\<lambda>e. quiet [e]) (GetImageSizeBytes E p u)" "emits (\<lambda>e. quiet [e]) (ensureObj E DataVolume ns n obj what)"
  "emits (\<lambda>e. quiet [e]) (NewPrismClient E mig)"
  unfolding CreateVMSnapshot_def GetVMSnapshotPaths_def GetImageSizeBytes_def probeSnapshot_def go_sleep_def
    NewPrismClient_def k8s_get_secret_def
  by (intro emits_rules emits_doRequest emits_ensureObj; simp add: quiet_def image_request_def status_patches_def map_filter_simps)+

lemma reports_snapshot_done:
  assumes "reports p (snapshotPath snap) [''status'', ''state''] ''COMPLETE'' e" and "baseURL p = prismURL mig"
  shows "snapshot_done mig snap e"
  using assms by (auto simp: reports_def snapshot_done_def split: event.splits http_result.splits sum.splits)

lemma wp_CreateVMSnapshot:
  assumes "baseURL p = prismURL mig"
  shows "wp (CreateVMSnapshot E p u n) (\<lambda>r es. quiet es \<and>
    (case r of Inl err \<Rightarrow> True | Inr snap \<Rightarrow> snap \<noteq> [] \<and> list_ex (snapshot_done mig snap) es))"
proof (rule wp_conj)
  show "wp (CreateVMSnapshot E p u n) (\<lambda>r es. case r of Inl err \<Rightarrow> True | Inr snap \<Rightarrow> snap \<noteq> [] \<and> list_ex (snapshot_done mig snap) es)"
    unfolding CreateVMSnapshot_def
    by (intro wp_rules wp_mono [OF snapshot_poller.poll_spec]) (auto split: sum.splits intro: list_ex_last reports_snapshot_done [OF _ assms])
qed (rule wp_quiet [OF emits_quiet(1)])

lemma quiet_prefix: "quiet es \<Longrightarrow> takeWhile (\<lambda>e. \<not> image_request e) (es @ es') = es @ takeWhile (\<lambda>e. \<not> image_request e) es'"
  by (simp add: quiet_def list_ex_iff)

lemma wp_baseSnapshot:
  assumes p: "baseURL p = prismURL mig" and "TempImageRefs vm = []"
  shows "wp (baseSnapshot E mig p vm info) (\<lambda>c es. only_failed es \<and> (case c of Inl r \<Rightarrow> True
    | Inr st \<Rightarrow> quiet es \<and> (\<forall>a b. quiet a \<longrightarrow> snapshot_first mig vm (a @ es @ b) (LastSnapshotUUID st))))"
  unfolding baseSnapshot_def
  by (intro wp_rules wp_mono [OF wp_CreateVMSnapshot [OF p]] wp_mono [OF wp_failMigration_only] wp_quiet [OF emits_quiet(2)])
     (use assms(2) in \<open>auto simp: snapshot_first_def quiet_prefix split: sum.splits\<close>)

lemma createDVs_snapshots:
  "wp (createDataVolumesFromTempImages E mig prism vms)
     (\<lambda>r es. quiet es \<and> (case r of Inl err \<Rightarrow> True | Inr vms' \<Rightarrow> map LastSnapshotUUID vms' = map LastSnapshotUUID vms))"
  unfolding createDataVolumesFromTempImages_def
proof (rule wp_after, rule wp_foreach [where I = "\<lambda>pre s es. quiet es \<and> map LastSnapshotUUID s = map LastSnapshotUUID vms"], goal_cases)
  case (2 pre x post s es)
  note x = enumerate_split [OF 2(1)]
  have keep: "map LastSnapshotUUID (s[length pre := (vms ! length pre)\<lparr>DataVolumeRefs := refs, stPhase := ph\<rparr>]) = map LastSnapshotUUID vms" for refs ph
    using 2(2) x(2) by (simp add: map_update) (metis list_update_id nth_map)
  have disks: "wp (foreach (enumerate 0 imgs) [] (\<lambda>(diskIdx, imgUUID) dvRefs.
         do { sz \<leftarrow> GetImageSizeBytes E prism imgUUID;
              let sizeMB = (case sz of Inl err \<Rightarrow> 51200 | Inr bytes \<Rightarrow> imageSizeMB bytes);
                  disk = \<lparr>diIndex = int diskIdx, diUUID = imgUUID, SizeMB = sizeMB, DeviceType = [], SourceURL = [], IsBare = False\<rparr>;
                  dv = buildDataVolume E mig (int i) disk (proxied mig (DiskImageURL prism imgUUID))
              in do { r \<leftarrow> ensureObj E DataVolume (targetNS mig) (objName E dv) dv ''DataVolume'';
                      return (case r of Some err \<Rightarrow> Ret (Inl err :: string + VMStatus list) | None \<Rightarrow> Next (dvRefs @ [objName E dv])) } }))
     (\<lambda>c es. quiet es \<and> (case c of Inl r \<Rightarrow> isl r | Inr refs \<Rightarrow> True))" for imgs i
  proof (rule wp_foreach [where I = "\<lambda>pre refs es. quiet es"], goal_cases)
    case (2 pre d post refs es)
    then show ?case by (intro wp_rules wp_quiet [OF emits_quiet(3)] wp_quiet [OF emits_quiet(4)]) (auto split: option.splits)
  qed auto
  from 2(2) show ?case
    unfolding x(1) prod.case
    by (intro wp_rules wp_mono [OF disks]) (auto simp: keep split: sum.splits intro!: wp_rules)
qed (auto intro!: wp_rules)

lemma presync_loop:
  assumes p: "baseURL prism = prismURL mig"
  shows "wp (foreach (enumerate 0 (StatusVMs (Status mig))) (StatusVMs (Status mig)) (\<lambda>(i, vmSt) vms.
      if TempImageRefs vmSt \<noteq> [] then return (Next vms)
      else
        do { vmInfo \<leftarrow> GetVMByName E prism (stName vmSt);
             case vmInfo of
               Inl err \<Rightarrow> do { r \<leftarrow> failMigration E mig (''VM '' @ go_quote (stName vmSt) @ '': '' @ err);
                               return (Ret r) }
             | Inr info \<Rightarrow>
                 after_inner (baseSnapshot E mig prism vmSt info) (\<lambda>st.
                   after_inner (createImages E mig prism ''warm'' [] vmSt info) (\<lambda>imgs.
                     return (Next (vms[i := st\<lparr>TempImageRefs := imgs, AHVUUID := viUUID info, stPhase := ''WarmPreSync''\<rparr>])))) }))
    (\<lambda>c es. only_failed es \<and> (case c of Inl r \<Rightarrow> True
       | Inr vms \<Rightarrow> presynced mig (StatusVMs (Status mig)) es (map LastSnapshotUUID vms)))"
    (is "wp (foreach _ ?vms _) _")
proof (rule wp_foreach [where I = "\<lambda>pre s es. only_failed es \<and> length s = length ?vms \<and>
    presynced mig (map snd pre) es (map LastSnapshotUUID (take (length pre) s)) \<and> drop (length pre) s = drop (length pre) ?vms"], goal_cases)
  case (2 pre x post s es)
  note x = enumerate_split [OF 2(1)]
  have images: "emits writes_only_failed (createImages E mig prism ''warm'' [] st info)" for st info
    unfolding createImages_def by (intro emits_rules failed_prism emits_failMigration)
  have here: "s ! length pre = ?vms ! length pre" "length pre < length s"
    using 2(2) x(2) by (simp_all, metis hd_drop_conv_nth)
  have step: "presynced mig (map snd pre @ [?vms ! length pre]) (es @ es') (map LastSnapshotUUID (take (Suc (length pre)) (s[length pre := st])))"
    if "snapshot_first mig (?vms ! length pre) es' (LastSnapshotUUID st)" for es' st
    using 2(2) here(2) that by (simp add: take_Suc_conv_app_nth presynced_snoc)
  have rest: "drop (Suc (length pre)) (s[length pre := st]) = drop (Suc (length pre)) ?vms" for st
    using 2(2) by simp (metis drop_Suc tl_drop)
  show ?case
  proof (cases "TempImageRefs (?vms ! length pre) = []")
    case False
    have same: "s[length pre := ?vms ! length pre] = s" using here by (metis list_update_id)
    show ?thesis
      using False step [of "[]" "?vms ! length pre"] rest [of "?vms ! length pre"] 2(2)
      unfolding x(1) prod.case same by (auto simp: snapshot_first_def intro!: wp_rules)
  next
    case True
    then show ?thesis
      unfolding x(1) prod.case
      using 2(2)
      by (intro wp_rules wp_GetVMByName [OF p] wp_mono [OF wp_failMigration_only] wp_mono [OF wp_baseSnapshot [OF p]]
            wp_only_failed [OF images])
         (auto split: sum.splits simp: quiet_def intro!: wp_rules wp_only_failed [OF images] step rest [simplified])
  qed
qed (auto simp: enumerate_eq_zip)

text \<open>The requests for images in a run are those of its part \<open>es'\<close>.\<close>

definition presync_run :: "AHVMigration \<Rightarrow> event list \<Rightarrow> string list \<Rightarrow> bool" where
  "presync_run mig es snaps \<longleftrightarrow> (\<exists>pre es' post. es = pre @ es' @ post \<and> \<not> list_ex image_request (pre @ post) \<and>
     presynced mig (StatusVMs (Status mig)) es' snaps)"

lemma presync_runI:
  "presynced mig (StatusVMs (Status mig)) es' snaps \<Longrightarrow> quiet pre \<Longrightarrow> \<not> list_ex image_request post \<Longrightarrow>
   presync_run mig (pre @ es' @ post) snaps"
  unfolding presync_run_def by (intro exI [of _ pre] exI [of _ es'] exI [of _ post]) (simp add: quiet_def)

lemma client_quiet:
  "wp (NewPrismClient E mig) (\<lambda>r es. quiet es \<and> (case r of Inl err \<Rightarrow> True | Inr p \<Rightarrow> baseURL p = prismURL mig))"
  by (rule wp_conj) (auto intro: wp_quiet [OF emits_quiet(5)] wp_NewPrismClient)


section \<open>The order of the disks\<close>

text \<open>A Prism that knows one machine with two disks, listed with disk \<^verbatim>\<open>a\<close> at \<^verbatim>\<open>scsi.0\<close> before disk \<^verbatim>\<open>b\<close> at \<^verbatim>\<open>sata.0\<close>.  The image of
  a disk has the disk's name, and so has the last part of the path of its snapshot.\<close>

definition twoDisks :: json where
  "twoDisks = JArr (map (\<lambda>d. JObj [(''uuid'', JStr d), (''disk_size_mib'', JInt 8)]) [''a'', ''b''])"

definition orderServer :: env where
  "orderServer = idle_env\<lparr>
     ansGetSecret := (\<lambda>t ns n. Inr [(''user'', ''admin''), (''password'', ''secret'')]),
     ansHttp := (\<lambda>t m url u b. ok_json (case drop 15 url of path \<Rightarrow>
       if path = ''/api/nutanix/v3/vms/list'' then JObj [(''entities'', JArr [JObj [(''spec'', JObj [(''name'', JStr ''web'')]),
         (''metadata'', JObj [(''uuid'', JStr ''u'')])]])]
       else if path = vmPath ''u'' then JObj [(''spec'', JObj [(''name'', JStr ''web''), (''resources'', JObj [(''disk_list'', twoDisks)])])]
       else if path = ''/api/nutanix/v3/vm_snapshots'' then JObj [(''metadata'', JObj [(''uuid'', JStr ''s'')])]
       else if path = snapshotPath ''s'' then JObj [(''status'', JObj [(''state'', JStr ''COMPLETE''), (''snapshot_file_list'',
         JArr (map (\<lambda>d. JObj [(''file_path'', JStr (''/c/'' @ d)), (''snapshot_file_path'', JStr (''/c/s/'' @ d))]) [''a'', ''b'']))])]
       else if path = vdiskPath ''/c/a'' then JObj [(''attached_vm_uuid'', JStr ''u''), (''disk_address'', JStr ''scsi.0'')]
       else if path = vdiskPath ''/c/b'' then JObj [(''attached_vm_uuid'', JStr ''u''), (''disk_address'', JStr ''sata.0'')]
       else if path = ''/api/nutanix/v3/images'' then
         JObj [(''metadata'', JObj [(''uuid'', path_get (the b) [''spec'', ''resources'', ''data_source_reference'', ''uuid''])])]
       else if path = taskPath ''a'' \<or> path = taskPath ''b'' then JObj [(''status'', JStr ''SUCCEEDED''),
         (''entity_reference_list'', JArr [JObj [(''kind'', JStr ''image''), (''uuid'', JStr [last path])]])]
       else JObj [(''status'', JObj [(''resources'', JObj [(''size_bytes'', JInt 4096)])])]))\<rparr>"

definition orderExample :: AHVMigration where
  "orderExample = setPhase PhaseWarmPreSync (setVMs [emptyVMStatus\<lparr>stName := ''web'', AHVUUID := ''u''\<rparr>] exampleMigration)"


end
