(* ===== verification/Manager.thy ===== *)
theory Manager
  imports DeltaCli GoMonad
begin

text \<open>
  The start of the operator in \<^verbatim>\<open>main.go\<close>: the registration of the types, the subcommand, the flags of the manager, and the
  sequence of calls into controller-runtime that configure and run it.  Each of these calls is an operation that the
  environment answers with an error or without; the flags that \<^verbatim>\<open>zap\<close> and other packages add to the command line are a flag
  set of their own, given as a parameter.
\<close>

section \<open>Flags\<close>

record 'z managerFlags =
  metricsAddr :: string
  probeAddr :: string
  leaderElect :: bool
  zapOptions :: 'z

definition defaultManagerFlags :: "'z \<Rightarrow> 'z managerFlags" where
  "defaultManagerFlags z = \<lparr>metricsAddr = '':8080'', probeAddr = '':8081'', leaderElect = False, zapOptions = z\<rparr>"

definition managerFlagNames :: "string list" where
  "managerFlagNames = [''metrics-bind-address'', ''health-probe-bind-address'', ''leader-elect'']"

definition setManagerFlag :: "'z flagset \<Rightarrow> 'z managerFlags \<Rightarrow> string \<Rightarrow> string \<Rightarrow> 'z managerFlags option" where
  "setManagerFlag Z fl name v =
     (if name = ''metrics-bind-address'' then Some (fl\<lparr>metricsAddr := v\<rparr>)
      else if name = ''health-probe-bind-address'' then Some (fl\<lparr>probeAddr := v\<rparr>)
      else if name = ''leader-elect'' then map_option (\<lambda>b. fl\<lparr>leaderElect := b\<rparr>) (parseBool v)
      else map_option (\<lambda>z. fl\<lparr>zapOptions := z\<rparr>) (setValue Z (zapOptions fl) name v))"

definition managerFlagSet :: "'z flagset \<Rightarrow> 'z managerFlags flagset" where
  "managerFlagSet Z = \<lparr>isDefined = (\<lambda>n. n \<in> set managerFlagNames \<or> isDefined Z n),
     isBoolFlag = (\<lambda>n. if n \<in> set managerFlagNames then n = ''leader-elect'' else isBoolFlag Z n), setValue = setManagerFlag Z\<rparr>"

section \<open>The calls\<close>

record managerOptions =
  optMetricsBindAddress :: string
  optHealthProbeBindAddress :: string
  optLeaderElection :: bool
  optLeaderElectionID :: string

datatype startCall = AddToScheme string | GetConfigOrDie | NewManager managerOptions | NewForConfig | SetupWithManager
  | AddHealthzCheck string | AddReadyzCheck string | Start

text \<open>A call and its error, if any.\<close>

type_synonym 'a startup = "(startCall \<times> string option, 'a) go"

definition attempt :: "((startCall \<times> string option) list \<Rightarrow> startCall \<Rightarrow> string option) \<Rightarrow> startCall \<Rightarrow> string option startup" where
  "attempt ans c = op (\<lambda>t. ans t c) (Pair c)"

text \<open>A call after which the program exits with 1 when it has failed.\<close>

definition orExit :: "((startCall \<times> string option) list \<Rightarrow> startCall \<Rightarrow> string option) \<Rightarrow> startCall \<Rightarrow> int startup \<Rightarrow> int startup" where
  "orExit ans c rest = do { err \<leftarrow> attempt ans c; case err of Some e \<Rightarrow> return 1 | None \<Rightarrow> rest }"

definition managerOptionsOf :: "'z managerFlags \<Rightarrow> managerOptions" where
  "managerOptionsOf fl = \<lparr>optMetricsBindAddress = metricsAddr fl, optHealthProbeBindAddress = probeAddr fl,
     optLeaderElection = leaderElect fl, optLeaderElectionID = ''ahv-to-ove-operator.lightwell.co.jp''\<rparr>"

text \<open>The exit code of the manager; \<open>z\<close> are the settings of the other packages before the flags are read.\<close>

definition managerMain :: "((startCall \<times> string option) list \<Rightarrow> startCall \<Rightarrow> string option) \<Rightarrow> 'z flagset \<Rightarrow> 'z \<Rightarrow> string list \<Rightarrow> int startup" where
  "managerMain ans Z z args =
     (case parseFlagSet (managerFlagSet Z) (defaultManagerFlags z) args of
        Inl code \<Rightarrow> return code
      | Inr fl \<Rightarrow>
          orExit ans GetConfigOrDie
            (orExit ans (NewManager (managerOptionsOf fl))
              (orExit ans NewForConfig
                (orExit ans SetupWithManager
                  (orExit ans (AddHealthzCheck ''healthz'')
                    (orExit ans (AddReadyzCheck ''readyz'')
                      (orExit ans Start (return 0))))))))"

text \<open>\<^verbatim>\<open>main\<close>: the exit code and what the subcommand has left on its target.\<close>

definition main :: "((startCall \<times> string option) list \<Rightarrow> startCall \<Rightarrow> string option) \<Rightarrow> 'z flagset \<Rightarrow> 'z \<Rightarrow> string list \<Rightarrow> filesystem \<Rightarrow>
    (exit \<times> disk option) startup" where
  "main ans Z z args fs =
     (case operatorMain args fs of Some r \<Rightarrow> return r
      | None \<Rightarrow> do { code \<leftarrow> managerMain ans Z z args; return (Exit code, None) })"

text \<open>The whole program: \<^verbatim>\<open>init\<close> registers the types of Kubernetes and of the operator and panics when this fails.\<close>

definition must :: "((startCall \<times> string option) list \<Rightarrow> startCall \<Rightarrow> string option) \<Rightarrow> startCall \<Rightarrow> (exit \<times> disk option) startup \<Rightarrow>
    (exit \<times> disk option) startup" where
  "must ans c rest = do { err \<leftarrow> attempt ans c; case err of Some e \<Rightarrow> return (Panicked, None) | None \<Rightarrow> rest }"

definition schemes :: "string list" where
  "schemes = [''client-go'', ''migration.lightwell.co.jp/v1alpha1'']"

definition program :: "((startCall \<times> string option) list \<Rightarrow> startCall \<Rightarrow> string option) \<Rightarrow> 'z flagset \<Rightarrow> 'z \<Rightarrow> string list \<Rightarrow> filesystem \<Rightarrow>
    (exit \<times> disk option) startup" where
  "program ans Z z args fs = foldr (must ans \<circ> AddToScheme) schemes (main ans Z z args fs)"

section \<open>Properties\<close>

definition startSequence :: "'z managerFlags \<Rightarrow> startCall list" where
  "startSequence fl = [GetConfigOrDie, NewManager (managerOptionsOf fl), NewForConfig, SetupWithManager,
     AddHealthzCheck ''healthz'', AddReadyzCheck ''readyz'', Start]"

text \<open>What has happened when the start ends with a code: a prefix of the calls, all but the last without error.\<close>

definition started :: "startCall list \<Rightarrow> int \<Rightarrow> (startCall \<times> string option) list \<Rightarrow> bool" where
  "started calls code es \<longleftrightarrow> (if code = 0 then map fst es = calls \<and> list_all (\<lambda>e. snd e = None) es
     else code = 1 \<and> es \<noteq> [] \<and> map fst es = take (length es) calls \<and> list_all (\<lambda>e. snd e = None) (butlast es) \<and> snd (last es) \<noteq> None)"

lemma wp_orExit:
  assumes "wp rest (started calls)"
  shows "wp (orExit ans c rest) (started (c # calls))"
  unfolding orExit_def attempt_def
  by (intro wp_rules) (auto simp: started_def split: if_splits intro!: wp_mono [OF assms])

lemma wp_finished: "wp (return 0) (started [])"
  by (intro wp_rules) (simp add: started_def)

lemma manager_flag_value:
  assumes "n \<in> {''metrics-bind-address'', ''health-probe-bind-address''}"
  shows "parseFlagSet (managerFlagSet Z) fl ((''--'' @ n @ CHR ''='' # v) # as) =
    (case setManagerFlag Z fl n v of None \<Rightarrow> Inl 2 | Some fl' \<Rightarrow> parseFlagSet (managerFlagSet Z) fl' as)"
proof -
  have d: "isDefined (managerFlagSet Z) n" and s: "setValue (managerFlagSet Z) = setManagerFlag Z"
    using assms by (auto simp: managerFlagSet_def managerFlagNames_def)
  have n: "n \<noteq> []" "CHR ''='' \<notin> set n" "hd n \<noteq> CHR ''-''" using assms by auto
  show ?thesis unfolding parseFlagSet_value [OF n d] s ..
qed

lemma manager_leader_flag: "parseFlagSet (managerFlagSet Z) fl [''--leader-elect''] = Inr (fl\<lparr>leaderElect := True\<rparr>)"
  by (simp add: managerFlagSet_def managerFlagNames_def setManagerFlag_def classify_def splitFlag_def parseBool_def)

text \<open>The flags of the manager reach its options, whatever flags the other packages define.\<close>

lemma manager_flags:
  "parseFlagSet (managerFlagSet Z) (defaultManagerFlags z) [''--metrics-bind-address='' @ m, ''--health-probe-bind-address='' @ h, ''--leader-elect''] =
     Inr \<lparr>metricsAddr = m, probeAddr = h, leaderElect = True, zapOptions = z\<rparr>"
  using manager_flag_value [of "''metrics-bind-address''" Z] manager_flag_value [of "''health-probe-bind-address''" Z]
  by (simp add: manager_leader_flag setManagerFlag_def defaultManagerFlags_def del: parseFlagSet.simps(2))

text \<open>What \<^verbatim>\<open>main\<close> has done.\<close>

definition main_done :: "'z flagset \<Rightarrow> 'z \<Rightarrow> string list \<Rightarrow> filesystem \<Rightarrow> exit \<times> disk option \<Rightarrow> (startCall \<times> string option) list \<Rightarrow> bool" where
  "main_done Z z args fs r es \<longleftrightarrow> (if args \<noteq> [] \<and> hd args = ''delta-sync'' then es = [] \<and> r = runDeltaSyncArgs (tl args) fs
     else (case parseFlagSet (managerFlagSet Z) (defaultManagerFlags z) args of
         Inl code \<Rightarrow> es = [] \<and> r = (Exit code, None)
       | Inr fl \<Rightarrow> \<exists>code. r = (Exit code, None) \<and> started (startSequence fl) code es))"

lemma wp_main: "wp (main ans Z z args fs) (main_done Z z args fs)"
proof (cases "args \<noteq> [] \<and> hd args = ''delta-sync''")
  case True
  then show ?thesis by (cases args) (simp_all add: main_def operatorMain_def main_done_def wp_return)
next
  case False
  then have m: "operatorMain args fs = None" by (cases args) (simp_all add: operatorMain_def)
  show ?thesis
  proof (cases "parseFlagSet (managerFlagSet Z) (defaultManagerFlags z) args")
    case (Inl code)
    with False show ?thesis by (auto simp: main_def m managerMain_def main_done_def intro!: wp_return)
  next
    case (Inr fl)
    have "wp (managerMain ans Z z args) (started (startSequence fl))"
      unfolding managerMain_def Inr sum.case startSequence_def by (intro wp_orExit wp_finished)
    then show ?thesis
      using False Inr by (auto simp: main_def m main_done_def intro!: wp_bind wp_return elim!: wp_mono)
  qed
qed

text \<open>C38: The start of the program: the types are registered first and a failure panics.  Then, with the subcommand,
  nothing of the manager is touched; with flags that do not parse the program exits with the code of the flag package
  before any call; otherwise the configuration, the manager, the dynamic client, the controller, the two probes and the
  run are attempted in this order with the options of the command line, the first error ends the program with 1 and
  nothing is attempted after it, and the code is 0 only when everything succeeded.\<close>

theorem program_start:
  "wp (program ans Z z args fs) (\<lambda>r es. if take 2 es = map (\<lambda>s. (AddToScheme s, None)) schemes then main_done Z z args fs r (drop 2 es)
     else r = (Panicked, None) \<and> es \<noteq> [] \<and> map fst es = take (length es) (map AddToScheme schemes) \<and> snd (last es) \<noteq> None)"
  unfolding program_def must_def attempt_def schemes_def
  by (simp, intro wp_rules) (auto intro!: wp_rules wp_mono [OF wp_main])

end
