(* ===== verification/Lifecycle.thy ===== *)
theory Lifecycle
  imports Reconciler "HOL-Library.Sublist"
begin

text \<open>
  The life of a migration: the stored object changes when the user edits its annotations and when a
  reconciliation patches its status.  A reconciliation may be cut off after any of its requests, and a patch
  whose request failed may have been applied all the same.  The invariants below hold in every state
  that is reachable from a fresh object.
\<close>

section \<open>The stored status\<close>

text \<open>
  A JSON merge patch of the status subresource: the fields that differ between the copy the handler read and
  the copy it sends are replaced, lists as a whole, and the other fields keep the stored value.
\<close>

definition merge_field :: "'a \<Rightarrow> 'a \<Rightarrow> 'a \<Rightarrow> 'a" where
  "merge_field old new stored = (if old = new then stored else new)"

definition merge_status :: "AHVMigrationStatus \<Rightarrow> AHVMigrationStatus \<Rightarrow> AHVMigrationStatus \<Rightarrow> AHVMigrationStatus" where
  "merge_status old new stored =
     \<lparr>Phase = merge_field (Phase old) (Phase new) (Phase stored),
      Conditions = merge_field (Conditions old) (Conditions new) (Conditions stored),
      StartTime = merge_field (StartTime old) (StartTime new) (StartTime stored),
      CompletionTime = merge_field (CompletionTime old) (CompletionTime new) (CompletionTime stored),
      TotalVMs = merge_field (TotalVMs old) (TotalVMs new) (TotalVMs stored),
      CompletedVMs = merge_field (CompletedVMs old) (CompletedVMs new) (CompletedVMs stored),
      FailedVMs = merge_field (FailedVMs old) (FailedVMs new) (FailedVMs stored),
      StatusVMs = merge_field (StatusVMs old) (StatusVMs new) (StatusVMs stored)\<rparr>"

lemma merge_status_same: "merge_status old new old = new"
  by (cases new) (simp add: merge_status_def merge_field_def)

inductive serves :: "AHVMigrationStatus \<Rightarrow> event list \<Rightarrow> AHVMigrationStatus \<Rightarrow> bool" where
  serves_nil: "serves s [] s"
| serves_patch: "serves (merge_status old new s) es s' \<Longrightarrow> serves s (PatchStatus old new r # es) s'"
| serves_lost: "serves s es s' \<Longrightarrow> serves s (PatchStatus old new (Some err) # es) s'"
| serves_other: "(\<And>old new r. e \<noteq> PatchStatus old new r) \<Longrightarrow> serves s es s' \<Longrightarrow> serves s (e # es) s'"

inductive_cases serves_ConsE: "serves s (e # es) s'"

lemma serves_one: "serves old [PatchStatus old new r] new"
  by (rule serves_patch) (simp add: merge_status_same serves_nil)

section \<open>Steps of a migration\<close>

inductive mig_step :: "AHVMigration \<Rightarrow> AHVMigration \<Rightarrow> bool" where
  annotate: "mig_step mig (mig\<lparr>Annotations := a\<rparr>)"
| reconcile: "prefix es (events (dispatch E mig)) \<Longrightarrow> serves (Status mig) es st \<Longrightarrow> mig_step mig (mig\<lparr>Status := st\<rparr>)"

definition freshStatus :: AHVMigrationStatus where
  "freshStatus = \<lparr>Phase = PhaseEmpty, Conditions = [], StartTime = None, CompletionTime = None, TotalVMs = 0,
     CompletedVMs = 0, FailedVMs = 0, StatusVMs = []\<rparr>"

definition fresh :: "AHVMigration \<Rightarrow> bool" where
  "fresh mig \<longleftrightarrow> Status mig = freshStatus"

inductive reachable :: "AHVMigration \<Rightarrow> bool" where
  start: "fresh mig \<Longrightarrow> reachable mig"
| step: "reachable mig \<Longrightarrow> mig_step mig mig' \<Longrightarrow> reachable mig'"

lemma serves_phase:
  assumes "serves s es s'" and "list_all (step_ok mig) es" and "Phase s \<in> insert (phaseOf mig) (set (nextPhases mig))"
  shows "Phase s' \<in> insert (phaseOf mig) (set (nextPhases mig))"
  using assms
proof (induction rule: serves.induct)
  case (serves_patch old new s es s' r)
  then show ?case by (auto simp: merge_status_def merge_field_def)
qed auto

lemma list_all_prefix: "prefix es fs \<Longrightarrow> list_all P fs \<Longrightarrow> list_all P es"
  by (auto simp: prefix_def)

lemma mig_step_phase:
  assumes "mig_step mig mig'"
  shows "phaseOf mig' \<in> insert (phaseOf mig) (set (nextPhases mig)) \<and> Spec mig' = Spec mig"
  using assms
proof cases
  case (reconcile es E st)
  have "list_all (step_ok mig) es"
    by (rule list_all_prefix [OF reconcile(2) emits_events [OF dispatch_step]])
  with serves_phase [OF reconcile(3)] show ?thesis using reconcile(1) by simp
qed auto

section \<open>Invariants\<close>

definition warmPhases :: "AHVMigrationPhase set" where
  "warmPhases = {PhaseWarmPreSync, PhaseWarmSyncing, PhaseReadyForCutover, PhaseWarmCutover, PhaseWarmFinalSync,
     PhaseWarmDeltaSync, PhaseWarmFinalDelta}"

text \<open>What the specification says of a migration that is in a phase.\<close>

definition phase_inv :: "AHVMigration \<Rightarrow> bool" where
  "phase_inv mig \<longleftrightarrow>
     (phaseOf mig = PhaseGuestPrepping \<longrightarrow> needsGuestPrep mig) \<and>
     (phaseOf mig \<in> warmPhases \<longrightarrow> WarmMigration (sourceOf mig)) \<and>
     (phaseOf mig = PhasePreparingImages \<longrightarrow> ShutdownBeforeMigration (sourceOf mig) \<and> \<not> WarmMigration (sourceOf mig)) \<and>
     (phaseOf mig \<in> {PhaseWarmDeltaSync, PhaseWarmFinalDelta} \<longrightarrow> cbtEnabled mig) \<and>
     (phaseOf mig = PhaseWarmFinalSync \<longrightarrow> \<not> cbtEnabled mig \<and> warmFinalSyncEnabled mig) \<and>
     (phaseOf mig = PhaseReadyForCutover \<longrightarrow> PauseBeforeCutover (sourceOf mig)) \<and>
     (phaseOf mig \<in> {PhaseTestRunning, PhaseTestPending, PhaseSwitchingNetwork} \<longrightarrow> hasTestTarget mig) \<and>
     phaseOf mig \<notin> {PhaseFetchingVMInfo, PhaseWaitingForImport} \<and> (\<forall>s. phaseOf mig \<noteq> PhaseOther s)"

lemma spec_eq_options:
  assumes "Spec mig' = Spec mig"
  shows "needsGuestPrep mig' = needsGuestPrep mig" "cbtEnabled mig' = cbtEnabled mig"
    "warmFinalSyncEnabled mig' = warmFinalSyncEnabled mig" "hasTestTarget mig' = hasTestTarget mig"
  using assms by (simp_all add: needsGuestPrep_def cbtEnabled_def warmFinalSyncEnabled_def hasTestTarget_def)

lemma phase_inv_step:
  assumes "phase_inv mig" and "mig_step mig mig'"
  shows "phase_inv mig'"
proof -
  note ph = mig_step_phase [OF assms(2)]
  then have "phaseOf mig' = phaseOf mig \<or> phaseOf mig' \<in> set (nextPhases mig)" and sp: "Spec mig' = Spec mig" by auto
  then show ?thesis
  proof (elim disjE)
    assume "phaseOf mig' = phaseOf mig"
    with assms(1) show ?thesis using sp by (simp add: phase_inv_def spec_eq_options [OF sp])
  next
    assume "phaseOf mig' \<in> set (nextPhases mig)"
    with assms(1) show ?thesis using sp
      by (auto simp: phase_inv_def spec_eq_options [OF sp] nextPhases_def warmPhases_def cutoverPhase_def
          nextPhaseAfterGuestPrep_def split: AHVMigrationPhase.splits if_splits)
  qed
qed

lemma reachable_inv: "reachable mig \<Longrightarrow> phase_inv mig"
proof (induction rule: reachable.induct)
  case (start mig)
  then show ?case by (simp add: fresh_def freshStatus_def phase_inv_def warmPhases_def)
next
  case (step mig mig')
  then show ?case by (blast intro: phase_inv_step)
qed


lemma fresh_example: "fresh exampleMigration"
  by (simp add: fresh_def freshStatus_def exampleMigration_def)




text \<open>C9: The two approvals are gates: with a pause before cutover, the cutover phase is entered only from
  ReadyForCutover and only when the cutover annotation is set, and a test is left for the production network
  only when the test annotation is set.\<close>

theorem approval_gates:
  assumes "mig_step mig mig'" and "phaseOf mig' \<noteq> phaseOf mig"
  shows "(phaseOf mig' = PhaseWarmCutover \<longrightarrow> PauseBeforeCutover (sourceOf mig) \<longrightarrow>
      phaseOf mig = PhaseReadyForCutover \<and> Annotations mig AnnotationCutoverApproved = Some ''true'') \<and>
    (phaseOf mig' = PhaseTestPending \<longrightarrow>
      phaseOf mig = PhaseTestRunning \<and> Annotations mig AnnotationTestApproved = Some ''true'') \<and>
    (phaseOf mig' = PhaseSwitchingNetwork \<longrightarrow> phaseOf mig = PhaseTestPending)"
  using mig_step_phase [OF assms(1)] assms(2)
  by (auto simp: nextPhases_def cutoverPhase_def approved_def nextPhaseAfterGuestPrep_def
      split: AHVMigrationPhase.splits if_splits)

lemma mig_step_run:
  assumes "serves (Status mig) (events (dispatch E mig)) st"
  shows "mig_step mig (mig\<lparr>Status := st\<rparr>)"
  using assms by (auto intro: mig_step.reconcile)

lemma test_approved_step:
  "mig_step ((setPhase PhaseTestRunning exampleMigration)\<lparr>Annotations := [AnnotationTestApproved \<mapsto> ''true'']\<rparr>)
     ((setPhase PhaseTestPending exampleMigration)\<lparr>Annotations := [AnnotationTestApproved \<mapsto> ''true'']\<rparr>)"
proof -
  let ?mig = "(setPhase PhaseTestRunning exampleMigration)\<lparr>Annotations := [AnnotationTestApproved \<mapsto> ''true'']\<rparr>"
  let ?st = "Status (setPhase PhaseTestPending ?mig)"
  have "events (dispatch idle_env ?mig) = [PatchStatus (Status ?mig) ?st None]"
    by (simp add: dispatch_def handleTestRunning_def commit_def k8s_patch_status_def events_def idle_env_def
        exampleMigration_def setPhase_def)
  then have "serves (Status ?mig) (events (dispatch idle_env ?mig)) ?st"
    by (simp only: serves_one)
  from mig_step_run [OF this] show ?thesis by (simp add: setPhase_def exampleMigration_def)
qed

theorem approval_gates_witness:
  "phaseOf ((setPhase PhaseTestRunning exampleMigration)\<lparr>Annotations := [AnnotationTestApproved \<mapsto> ''true'']\<rparr>) = PhaseTestRunning"
  using approval_gates [OF test_approved_step] by simp

section \<open>Progress\<close>

text \<open>The position of a phase on the way through the machine.\<close>

fun phase_rank :: "AHVMigrationPhase \<Rightarrow> nat" where
  "phase_rank PhaseEmpty = 0" | "phase_rank PhasePending = 1" | "phase_rank PhaseGuestPrepping = 2"
| "phase_rank PhaseFetchingVMInfo = 2" | "phase_rank PhasePreparingImages = 3" | "phase_rank PhaseWarmPreSync = 3"
| "phase_rank PhaseWarmSyncing = 4" | "phase_rank PhaseWarmDeltaSync = 5" | "phase_rank PhaseReadyForCutover = 6"
| "phase_rank PhaseWarmCutover = 7" | "phase_rank PhaseWarmFinalSync = 8" | "phase_rank PhaseWarmFinalDelta = 8"
| "phase_rank PhaseImportingDisks = 9" | "phase_rank PhaseWaitingForImport = 9" | "phase_rank PhaseCreatingVMs = 10"
| "phase_rank PhaseTestRunning = 11" | "phase_rank PhaseTestPending = 12" | "phase_rank PhaseSwitchingNetwork = 13"
| "phase_rank PhaseCompleted = 14" | "phase_rank PhaseFailed = 15" | "phase_rank (PhaseOther s) = 15"

text \<open>The order of the phases by their position.\<close>

instantiation AHVMigrationPhase :: preorder
begin

definition less_eq_AHVMigrationPhase :: "AHVMigrationPhase \<Rightarrow> AHVMigrationPhase \<Rightarrow> bool" where
  "p \<le> q \<longleftrightarrow> phase_rank p \<le> phase_rank q"

definition less_AHVMigrationPhase :: "AHVMigrationPhase \<Rightarrow> AHVMigrationPhase \<Rightarrow> bool" where
  "p < q \<longleftrightarrow> phase_rank p < phase_rank q"

instance
  by standard (auto simp: less_eq_AHVMigrationPhase_def less_AHVMigrationPhase_def)

end

lemma nextPhases_greater: "p \<in> set (nextPhases mig) \<Longrightarrow> p = phaseOf mig \<or> phaseOf mig < p"
  by (auto simp: less_AHVMigrationPhase_def nextPhases_def cutoverPhase_def nextPhaseAfterGuestPrep_def
      split: AHVMigrationPhase.splits if_splits)

lemma mig_step_advances: "mig_step mig mig' \<Longrightarrow> phaseOf mig' = phaseOf mig \<or> phaseOf mig < phaseOf mig'"
  using mig_step_phase nextPhases_greater by blast

lemma successively_remdups_adj:
  fixes xs :: "'a::preorder list"
  assumes "successively (\<lambda>x y. y = x \<or> x < y) xs"
  shows "successively (<) (remdups_adj xs)"
  using assms
  by (induction xs rule: remdups_adj.induct) (auto simp: successively_Cons remdups_adj_Cons split: list.splits)

lemma increasing_phases_length:
  fixes ps :: "AHVMigrationPhase list"
  assumes "successively (<) ps"
  shows "length ps \<le> 16"
proof -
  have "sorted_wrt (<) ps" using assms successively_conv_sorted_wrt [of "(<)" ps] by (auto intro: transpI less_trans)
  then have "sorted_wrt (<) (map phase_rank ps)"
    by (auto simp: sorted_wrt_map less_AHVMigrationPhase_def elim: sorted_wrt_mono_rel [rotated])
  then have "distinct (map phase_rank ps)" by (simp only: strict_sorted_iff)
  moreover have "set (map phase_rank ps) \<subseteq> {..15}"
  proof -
    have "phase_rank p \<le> 15" for p by (cases p) simp_all
    then show ?thesis by auto
  qed
  ultimately show ?thesis using card_mono [of "{..15::nat}" "set (map phase_rank ps)"] distinct_card by fastforce
qed



end
