(* ===== verification/RunSpecs.thy ===== *)
theory RunSpecs
  imports HandlerSpecs
begin

text \<open>
  What the two handlers that work on running guests promise: preparation moves on only after the scripts have run
  successfully, and a test is left only when its machines have been seen stopped.
\<close>

section \<open>Guest preparation\<close>

text \<open>The event of a successful run of the script that a machine asks for.\<close>

definition script_ok :: "VMSpec \<Rightarrow> event \<Rightarrow> bool" where
  "script_ok vs e = (case e of
     SshRun script (Inr out) \<Rightarrow> GuestPrepMode vs \<noteq> ''winrm'' \<and> script = sshPreMigrationScript (the (GuestPrepConfig vs))
   | WinrmRun script (Inr (out, errout, code)) \<Rightarrow> GuestPrepMode vs = ''winrm'' \<and> script = winrmScript (the (WinRMConfig vs)) \<and> code = 0
   | _ \<Rightarrow> False)"

lemma script_ok_simps [simp]:
  "script_ok vs (SshRun script (Inr out)) \<longleftrightarrow> GuestPrepMode vs \<noteq> ''winrm'' \<and> script = sshPreMigrationScript (the (GuestPrepConfig vs))"
  "script_ok vs (WinrmRun script (Inr (out, errout, code))) \<longleftrightarrow>
     GuestPrepMode vs = ''winrm'' \<and> script = winrmScript (the (WinRMConfig vs)) \<and> code = 0"
  by (simp_all add: script_ok_def)

lemma status_patches_ssh [simp]:
  "status_patches (GetSecret a b c # es) = status_patches es" "status_patches (SshParseKey k1 k2 # es) = status_patches es"
  "status_patches (SshDial d1 d2 d3 d4 d5 # es) = status_patches es" "status_patches (SshSession s # es) = status_patches es"
  "status_patches (SshRun r1 r2 # es) = status_patches es" "status_patches (WinrmClient w1 w2 w3 w4 w5 w6 w7 # es) = status_patches es"
  "status_patches (WinrmRun v1 v2 # es) = status_patches es" "status_patches (PatchObj p1 p2 p3 p4 # es) = status_patches es"
  by (simp_all add: status_patches_def map_filter_simps)

lemma sshAuth_spec: "wp (sshAuth E d) (\<lambda>r es. status_patches es = [])"
  unfolding sshAuth_def ssh_parse_key_def by (intro wp_rules) auto

lemma runSSHGuestPrep_spec:
  "wp (runSSHGuestPrep E mig cfg) (\<lambda>r es. status_patches es = [] \<and>
     (r = None \<longrightarrow> list_ex (\<lambda>e. \<exists>out. e = SshRun (sshPreMigrationScript cfg) (Inr out)) es))"
  unfolding runSSHGuestPrep_def k8s_get_secret_def ssh_dial_def ssh_session_def ssh_run_def
  by (intro wp_rules wp_mono [OF sshAuth_spec]) (auto intro!: wp_rules split: sum.splits)

lemma runWinRMGuestPrep_spec:
  "wp (runWinRMGuestPrep E mig vs cfg) (\<lambda>r es. status_patches es = [] \<and>
     (r = None \<longrightarrow> list_ex (\<lambda>e. \<exists>out errout. e = WinrmRun (winrmScript cfg) (Inr (out, errout, 0))) es))"
  unfolding runWinRMGuestPrep_def executeWinRM_def k8s_get_secret_def winrm_client_def winrm_run_def
  by (intro wp_rules) (auto intro!: wp_rules split: sum.splits prod.splits if_splits)

lemma runGuestPrep_spec:
  "wp (runGuestPrep E mig vs) (\<lambda>r es. status_patches es = [] \<and> (r = None \<longrightarrow> list_ex (script_ok vs) es))"
  unfolding runGuestPrep_def
proof (rule wp_if, goal_cases)
  case 1
  then show ?case by (intro wp_mono [OF runWinRMGuestPrep_spec]) (clarsimp simp: list_ex_iff, metis script_ok_simps(2))
next
  case 2
  then show ?case by (intro wp_mono [OF runSSHGuestPrep_spec]) (clarsimp simp: list_ex_iff, metis script_ok_simps(1))
qed

text \<open>A machine that is prepared: it needs no script, it was prepared before, or its script has run successfully.\<close>

definition guest_ready :: "AHVMigration \<Rightarrow> event list \<Rightarrow> nat \<times> VMSpec \<Rightarrow> bool" where
  "guest_ready mig es = (\<lambda>(i, vs). i < length (StatusVMs (Status mig)) \<and>
     (needsGuestPrepVM vs \<longrightarrow> stPhase (StatusVMs (Status mig) ! i) = ''GuestPrepped'' \<or> list_ex (script_ok vs) es))"

lemma guest_ready_more: "guest_ready mig es x \<Longrightarrow> guest_ready mig (es @ es') x"
  by (auto simp: guest_ready_def)

definition prep_inv :: "AHVMigration \<Rightarrow> (nat \<times> VMSpec) list \<Rightarrow> VMStatus list \<Rightarrow> event list \<Rightarrow> bool" where
  "prep_inv mig pre vms es \<longleftrightarrow> status_patches es = [] \<and> length vms = length (StatusVMs (Status mig)) \<and>
     drop (length pre) vms = drop (length pre) (StatusVMs (Status mig)) \<and>
     (list_all (guest_ready mig es) pre \<or> (\<exists>st\<in>set vms. stPhase st = ''GuestPrepFailed''))"

lemma set_update_other:
  assumes "x \<in> set xs" "x \<noteq> xs ! i"
  shows "x \<in> set (xs[i := y])"
  using assms by (metis in_set_conv_nth length_list_update nth_list_update_neq)

lemma prep_inv_step:
  assumes inv: "prep_inv mig pre vms es" and i: "length pre < length vms" and p: "status_patches es' = []"
    and ok: "stPhase (vms ! length pre) \<noteq> ''GuestPrepFailed''"
    and st: "stPhase st = ''GuestPrepFailed'' \<or> guest_ready mig (es @ es') (length pre, vs)"
  shows "prep_inv mig (pre @ [(length pre, vs)]) (vms[length pre := st]) (es @ es')"
proof -
  have "drop (Suc (length pre)) (vms[length pre := st]) = drop (Suc (length pre)) (StatusVMs (Status mig))"
    using inv by (simp add: prep_inv_def) (metis drop_Suc drop_tl)
  moreover have "list_all (guest_ready mig (es @ es')) (pre @ [(length pre, vs)]) \<or>
      (\<exists>s\<in>set (vms[length pre := st]). stPhase s = ''GuestPrepFailed'')"
  proof (cases "\<exists>s\<in>set vms. stPhase s = ''GuestPrepFailed''")
    case True
    then show ?thesis using ok set_update_other [of _ vms "length pre" st] by metis
  next
    case False
    with inv have "list_all (guest_ready mig (es @ es')) pre"
      by (auto simp: prep_inv_def list_all_iff intro: guest_ready_more)
    with st i show ?thesis by (auto intro: bexI [OF _ set_update_memI])
  qed
  ultimately show ?thesis using inv p by (simp add: prep_inv_def)
qed

lemma prep_inv_keep:
  assumes "prep_inv mig pre vms es" "guest_ready mig es (length pre, vs)"
  shows "prep_inv mig (pre @ [(length pre, vs)]) vms es"
  using assms by (auto simp: prep_inv_def) (metis drop_Suc drop_tl)+

lemma prep_inv_phase:
  assumes "prep_inv mig pre vms es" "length pre < length vms"
  shows "vms ! length pre = StatusVMs (Status mig) ! length pre" "length pre < length (StatusVMs (Status mig))"
proof -
  have "drop (length pre) vms = drop (length pre) (StatusVMs (Status mig))" and len: "length vms = length (StatusVMs (Status mig))"
    using assms(1) by (simp_all add: prep_inv_def)
  then show "vms ! length pre = StatusVMs (Status mig) ! length pre" using assms(2) by (metis hd_drop_conv_nth)
  show "length pre < length (StatusVMs (Status mig))" using assms(2) len by simp
qed

text \<open>What a handler may write besides a move to the given phase: its own phase or a failure.\<close>

definition stays_or_fails :: "AHVMigration \<Rightarrow> event list \<Rightarrow> bool" where
  "stays_or_fails mig es \<longleftrightarrow> list_all (\<lambda>p. p = phaseOf mig \<or> p = PhaseFailed) (phasesWritten es)"

lemma stays_or_fails_simps [simp]:
  "status_patches es = [] \<Longrightarrow> stays_or_fails mig es"
  "stays_or_fails mig (es @ es') \<longleftrightarrow> stays_or_fails mig es \<and> stays_or_fails mig es'"
  by (simp_all add: stays_or_fails_def phasesWritten_def)

lemma wp_failMigration_stays:
  assumes "\<And>r es. stays_or_fails mig es \<Longrightarrow> Q r es"
  shows "wp (failMigration E mig reason) Q"
  by (rule wp_failMigration) (simp add: assms stays_or_fails_def phasesWritten_def)

lemma prep_loop:
  "wp (foreach (enumerate 0 (VMs (Spec mig))) (StatusVMs (Status mig)) (\<lambda>(i, vmSpec) vms.
       if i \<ge> length vms then return (Ret (Panic ''index out of range''))
       else if \<not> needsGuestPrepVM vmSpec then
         return (Next (if stPhase (vms ! i) \<in> {''GuestPrepping'', ''Pending''}
                       then vms[i := (vms ! i)\<lparr>stPhase := ''GuestPrepped''\<rparr>] else vms))
       else if stPhase (vms ! i) = ''GuestPrepped'' then return (Next vms)
       else if stPhase (vms ! i) = ''GuestPrepFailed'' then
         do { r \<leftarrow> failMigration E mig (''VM '' @ go_quote (vmName vmSpec) @ '': guest prep failed''); return (Ret r) }
       else do { err \<leftarrow> runGuestPrep E mig vmSpec;
                 return (Next (vms[i := preppedVM (vms ! i) err])) }))
    (\<lambda>c es. case c of Inl r \<Rightarrow> stays_or_fails mig es | Inr vms \<Rightarrow> prep_inv mig (enumerate 0 (VMs (Spec mig))) vms es)"
proof (rule wp_foreach [where I = "prep_inv mig"], goal_cases)
  case 1
  then show ?case by (simp add: prep_inv_def)
next
  case (2 pre x post vms es)
  note x = enumerate_split [OF 2(1)] and inv = 2(2)
  let ?i = "length pre" and ?vs = "VMs (Spec mig) ! length pre"
  have sp: "status_patches es = []" using inv by (simp add: prep_inv_def)
  show ?case
    unfolding x(1) prod.case
  proof (intro wp_if, goal_cases)
    case 1
    with sp show ?case by (intro wp_return) simp
  next
    case 2
    then have "guest_ready mig es (?i, ?vs)" using prep_inv_phase [OF inv] by (simp add: guest_ready_def)
    with 2 prep_inv_keep [OF inv this] prep_inv_step [OF inv _ _ _ , of "[]" _ ?vs] show ?case
      by (intro wp_return) auto
  next
    case 3
    then have "guest_ready mig es (?i, ?vs)" using prep_inv_phase [OF inv] by (simp add: guest_ready_def)
    from prep_inv_keep [OF inv this] show ?case by (intro wp_return) simp
  next
    case 4
    with sp show ?case by (intro wp_bind wp_failMigration_stays wp_return) simp
  next
    case 5
    have "prep_inv mig (pre @ [(?i, ?vs)]) (vms[?i := preppedVM (vms ! ?i) err]) (es @ es')"
      if "status_patches es' = []" "err = None \<longrightarrow> list_ex (script_ok ?vs) es'" for err es'
      by (rule prep_inv_step [OF inv _ that(1)])
         (use 5 that prep_inv_phase [OF inv] in \<open>auto simp: preppedVM_def guest_ready_def split: option.splits\<close>)
    then show ?case by (intro wp_bind wp_mono [OF runGuestPrep_spec] wp_return) simp
  qed
qed simp


section \<open>Leaving a test\<close>

text \<open>Answers about a machine: it could not be read, it is set to stopped, its instance could not be read.\<close>

definition vm_unreadable :: "AHVMigration \<Rightarrow> string \<Rightarrow> event \<Rightarrow> bool" where
  "vm_unreadable mig ref e = (case e of GetObj VirtualMachine ns n (Inl err) \<Rightarrow> ns = targetNS mig \<and> n = ref | _ \<Rightarrow> False)"

definition vm_stopped :: "env \<Rightarrow> AHVMigration \<Rightarrow> string \<Rightarrow> event \<Rightarrow> bool" where
  "vm_stopped E mig ref e = (case e of GetObj VirtualMachine ns n (Inr obj) \<Rightarrow>
     ns = targetNS mig \<and> n = ref \<and> \<not> nestedBool E obj [''spec'', ''running''] | _ \<Rightarrow> False)"

definition vmi_unreadable :: "AHVMigration \<Rightarrow> string \<Rightarrow> event \<Rightarrow> bool" where
  "vmi_unreadable mig ref e =
     (case e of GetObj VirtualMachineInstance ns n (Inl err) \<Rightarrow> ns = targetNS mig \<and> n = ref | _ \<Rightarrow> False)"

definition patches_vm :: "event \<Rightarrow> bool" where
  "patches_vm e = (case e of PatchObj VirtualMachine old new r \<Rightarrow> True | _ \<Rightarrow> False)"

lemma vm_answer_simps [simp]:
  "vm_unreadable mig ref (GetObj VirtualMachine ns n (Inl err)) \<longleftrightarrow> ns = targetNS mig \<and> n = ref"
  "vm_stopped E mig ref (GetObj VirtualMachine ns n (Inr obj)) \<longleftrightarrow>
     ns = targetNS mig \<and> n = ref \<and> \<not> nestedBool E obj [''spec'', ''running'']"
  "vmi_unreadable mig ref (GetObj VirtualMachineInstance ns n (Inl err)) \<longleftrightarrow> ns = targetNS mig \<and> n = ref"
  "\<not> patches_vm (GetObj k ns n r)" "\<not> patches_vm (PatchStatus old new r')"
  by (simp_all add: vm_unreadable_def vm_stopped_def vmi_unreadable_def patches_vm_def)

definition vm_down :: "env \<Rightarrow> AHVMigration \<Rightarrow> event list \<Rightarrow> VMStatus \<Rightarrow> bool" where
  "vm_down E mig es vm \<longleftrightarrow> VMRef vm = [] \<or> list_ex (vm_unreadable mig (VMRef vm)) es \<or>
     (list_ex (vm_stopped E mig (VMRef vm)) es \<and> list_ex (vmi_unreadable mig (VMRef vm)) es)"

lemma vm_down_more: "vm_down E mig es vm \<Longrightarrow> vm_down E mig (es @ es') vm"
  by (auto simp: vm_down_def)

lemma all_down_more: "list_all (vm_down E mig es) vms \<Longrightarrow> list_all (vm_down E mig (es @ es')) vms"
  by (auto simp: list_all_iff intro: vm_down_more)

text \<open>C28: The test network is left only when the test machines are down: \<open>handleTestPending\<close> either writes nothing and asks to be
  called again in ten seconds, or it writes the phase SwitchingNetwork once, and then in this very reconciliation
  every machine was seen set to stopped with no readable instance, or could not be read at all, and none
  had to be stopped.\<close>

theorem handleTestPending_waits_for_stop:
  "wp (handleTestPending E mig) (\<lambda>r es. (status_patches es = [] \<and> r = Done (RequeueAfter 10)) \<or>
     (phasesWritten es = [PhaseSwitchingNetwork] \<and> list_all (vm_down E mig es) (StatusVMs (Status mig)) \<and> \<not> list_ex patches_vm es))"
  unfolding handleTestPending_def
proof (intro wp_bind, rule wp_loop [where I = "\<lambda>pre stopped es. status_patches es = [] \<and>
    (stopped \<longrightarrow> list_all (vm_down E mig es) pre \<and> \<not> list_ex patches_vm es)"], goal_cases)
  case (2 pre vm post stopped es)
  then show ?case
    unfolding k8s_get_def k8s_patch_def
    by (intro wp_rules) (auto simp: vm_down_def intro: all_down_more split: sum.splits)
next
  case (3 stopped es)
  then show ?case
    unfolding commit_def handler_unfolds k8s_patch_status_def
    by (intro wp_rules) (auto simp: phasesWritten_def intro: all_down_more)
qed simp

section \<open>Creating the machines\<close>

text \<open>The cluster has answered that a VirtualMachine of this name exists, or has accepted its creation.\<close>

definition vm_there :: "env \<Rightarrow> AHVMigration \<Rightarrow> string \<Rightarrow> event \<Rightarrow> bool" where
  "vm_there E mig name e = (case e of
     GetObj VirtualMachine ns n (Inr obj) \<Rightarrow> ns = targetNS mig \<and> n = name
   | CreateObj VirtualMachine obj None \<Rightarrow> objName E obj = name
   | _ \<Rightarrow> False)"

text \<open>How a machine is accounted for: it was not found in Prism and says so, or its VirtualMachine is there.\<close>

definition vm_accounted :: "env \<Rightarrow> AHVMigration \<Rightarrow> event list \<Rightarrow> VMStatus \<Rightarrow> VMStatus \<Rightarrow> bool" where
  "vm_accounted E mig es old new \<longleftrightarrow>
     (new = old\<lparr>stError := stError new\<rparr> \<and> take 17 (stError new) = ''Prism API error: '') \<or>
     (new = old\<lparr>VMRef := VMRef new, stPhase := ''VMCreated'', Progress := 100\<rparr> \<and> list_ex (vm_there E mig (VMRef new)) es)"

lemma vm_accounted_more: "vm_accounted E mig es old new \<Longrightarrow> vm_accounted E mig (es @ es') old new"
  by (auto simp: vm_accounted_def)

lemma vm_accounted_mid: "vm_accounted E mig es old new \<Longrightarrow> vm_accounted E mig (es0 @ es @ es') old new"
  by (auto simp: vm_accounted_def)

lemma status_patches_create [simp]: "status_patches (CreateObj a b c # es) = status_patches es"
  by (simp add: status_patches_def map_filter_simps)

lemma ensureVM_spec:
  "wp (ensureObj E VirtualMachine (targetNS mig) (objName E obj) obj what)
     (\<lambda>r es. status_patches es = [] \<and> (r = None \<longrightarrow> list_ex (vm_there E mig (objName E obj)) es))"
  unfolding ensureObj_def k8s_get_def k8s_create_def
  by (intro wp_rules) (auto simp: vm_there_def split: option.splits sum.splits)

definition create_inv :: "env \<Rightarrow> AHVMigration \<Rightarrow> (nat \<times> VMSpec) list \<Rightarrow> VMStatus list \<Rightarrow> event list \<Rightarrow> bool" where
  "create_inv E mig pre vms es \<longleftrightarrow> status_patches es = [] \<and> length vms = length (StatusVMs (Status mig)) \<and>
     (\<forall>i<length vms. if i < length pre then vm_accounted E mig es (StatusVMs (Status mig) ! i) (vms ! i)
                     else vms ! i = StatusVMs (Status mig) ! i)"

lemma create_inv_step:
  assumes "create_inv E mig pre vms es" "length pre < length vms" "status_patches es' = []"
    and "vm_accounted E mig (es @ es') (StatusVMs (Status mig) ! length pre) st"
  shows "create_inv E mig (pre @ [x]) (vms[length pre := st]) (es @ es')"
  using assms by (auto simp: create_inv_def nth_list_update less_Suc_eq intro: vm_accounted_more split: if_splits)

lemma create_inv_beyond:
  assumes "create_inv E mig pre vms es" "length vms \<le> length pre"
  shows "create_inv E mig (pre @ [x]) vms es"
  using assms by (auto simp: create_inv_def)


end
